theory Spec2Isabelle
  imports Main "HOL-Library.AList"
begin

section \<open>The XML tree\<close>

text \<open>
  A node of the host XML library is an element (name, namespace href, attributes in
  document order, children in document order) or a text node. A node pointer that
  designates a child of a known parent is modelled by the index of the child in the
  parent's child list; a path is a list of such indices.
\<close>

datatype xmlNode =
    XmlElement (node_name: string) (node_ns: string)
               (node_props: "(string \<times> string) list") (node_children: "xmlNode list")
  | XmlText (text_content: string)

definition xmlSecEncNs :: string where
  "xmlSecEncNs = ''http://www.w3.org/2001/04/xmlenc#''"

definition xmlSecDSigNs :: string where
  "xmlSecDSigNs = ''http://www.w3.org/2000/09/xmldsig#''"

definition xmlSecEncTypeElement :: string where
  "xmlSecEncTypeElement = ''http://www.w3.org/2001/04/xmlenc#Element''"

definition xmlSecEncTypeContent :: string where
  "xmlSecEncTypeContent = ''http://www.w3.org/2001/04/xmlenc#Content''"

fun is_element :: "xmlNode \<Rightarrow> bool" where
  "is_element (XmlElement n s a cs) = True"
| "is_element (XmlText t) = False"

text \<open>\<open>node->children\<close>: a text node has none.\<close>

fun children_of :: "xmlNode \<Rightarrow> xmlNode list" where
  "children_of (XmlElement n s a cs) = cs"
| "children_of (XmlText t) = []"

fun with_children :: "xmlNode \<Rightarrow> xmlNode list \<Rightarrow> xmlNode" where
  "with_children (XmlElement n s a cs) cs' = XmlElement n s a cs'"
| "with_children (XmlText t) cs' = XmlText t"

definition replace_child :: "xmlNode \<Rightarrow> nat \<Rightarrow> xmlNode \<Rightarrow> xmlNode" where
  "replace_child parent i c = with_children parent ((children_of parent)[i := c])"

text \<open>
  The library calls \<open>xmlSetProp\<close> and \<open>xmlGetProp\<close> of the host XML library: an
  attribute is replaced where it stands or appended; on a node that is not an element
  nothing is set.
\<close>

fun xmlSetProp :: "xmlNode \<Rightarrow> string \<Rightarrow> string \<Rightarrow> xmlNode" where
  "xmlSetProp (XmlElement n s a cs) k v = XmlElement n s (AList.update k v a) cs"
| "xmlSetProp (XmlText t) k v = XmlText t"

fun xmlGetProp :: "xmlNode \<Rightarrow> string \<Rightarrow> string option" where
  "xmlGetProp (XmlElement n s a cs) k = map_of a k"
| "xmlGetProp (XmlText t) k = None"

fun setPropOpt :: "xmlNode \<Rightarrow> string \<Rightarrow> string option \<Rightarrow> xmlNode" where
  "setPropOpt n k None = n"
| "setPropOpt n k (Some v) = xmlSetProp n k v"

subsection \<open>The tree helpers of the library (xmltree)\<close>

fun findIndex :: "('a \<Rightarrow> bool) \<Rightarrow> 'a list \<Rightarrow> nat option" where
  "findIndex P [] = None"
| "findIndex P (x # xs) = (if P x then Some 0 else map_option Suc (findIndex P xs))"

text \<open>
  Modelled from the spec: the XML helpers \<open>check-node-name\<close>, \<open>next-element\<close>,
  \<open>find child with namespace\<close> and \<open>add child with namespace\<close> (section 6,
  Interfaces consumed) live in the library's tree module, which is not among the
  sources. \<open>xmlSecCheckNodeName\<close> holds of an element with the given local name and
  namespace href.
\<close>

fun xmlSecCheckNodeName :: "xmlNode \<Rightarrow> string \<Rightarrow> string \<Rightarrow> bool" where
  "xmlSecCheckNodeName (XmlElement n s a cs) name ns = (n = name \<and> s = ns)"
| "xmlSecCheckNodeName (XmlText t) name ns = False"

text \<open>
  Modelled from the spec: \<open>xmlSecGetNextElementNode cs i\<close> is the first element among
  the siblings \<open>cs\<close> at or after position \<open>i\<close> (the C function gets the pointer to
  sibling \<open>i\<close> and follows \<open>next\<close>); \<open>None\<close> is the null pointer.
\<close>

definition xmlSecGetNextElementNode :: "xmlNode list \<Rightarrow> nat \<Rightarrow> nat option" where
  "xmlSecGetNextElementNode cs i = map_option (\<lambda>k. i + k) (findIndex is_element (drop i cs))"

text \<open>
  Modelled from the spec: \<open>xmlSecFindChild\<close> is the first child element of the parent
  with the given name and namespace.
\<close>

definition xmlSecFindChild :: "xmlNode \<Rightarrow> string \<Rightarrow> string \<Rightarrow> nat option" where
  "xmlSecFindChild parent name ns =
     findIndex (\<lambda>c. xmlSecCheckNodeName c name ns) (children_of parent)"

text \<open>
  Modelled from the spec: \<open>xmlSecAddChild\<close> appends a new, empty element as the last
  child; \<open>xmlSecAddPrevSibling\<close> and \<open>xmlSecAddNextSibling\<close> insert it just before,
  respectively just after, child \<open>i\<close> of the parent. Each returns the updated parent
  and the index of the new child; only an element can take children.
\<close>

fun xmlSecAddChild :: "xmlNode \<Rightarrow> string \<Rightarrow> string \<Rightarrow> (xmlNode \<times> nat) option" where
  "xmlSecAddChild (XmlElement n s a cs) name ns =
     Some (XmlElement n s a (cs @ [XmlElement name ns [] []]), length cs)"
| "xmlSecAddChild (XmlText t) name ns = None"

fun xmlSecAddPrevSibling :: "xmlNode \<Rightarrow> nat \<Rightarrow> string \<Rightarrow> string \<Rightarrow> (xmlNode \<times> nat) option" where
  "xmlSecAddPrevSibling (XmlElement n s a cs) i name ns =
     Some (XmlElement n s a (take i cs @ XmlElement name ns [] [] # drop i cs), i)"
| "xmlSecAddPrevSibling (XmlText t) i name ns = None"

fun xmlSecAddNextSibling :: "xmlNode \<Rightarrow> nat \<Rightarrow> string \<Rightarrow> string \<Rightarrow> (xmlNode \<times> nat) option" where
  "xmlSecAddNextSibling (XmlElement n s a cs) i name ns =
     Some (XmlElement n s a (take (Suc i) cs @ XmlElement name ns [] [] # drop (Suc i) cs), Suc i)"
| "xmlSecAddNextSibling (XmlText t) i name ns = None"

section \<open>Transform descriptors\<close>

datatype xmlSecTransformType =
  xmlSecTransformTypeBinary | xmlSecTransformTypeXml | xmlSecTransformTypeC14N

text \<open>
  The static descriptor behind an \<open>xmlSecTransformId\<close>: its name (two descriptors are
  the same transform kind when all their fields agree), its type, its algorithm href
  and, for a binary transform, the key type it needs to encrypt, the one it needs to
  decrypt, and the key id. Key types and key ids are opaque tags.
\<close>

record xmlSecTransformId =
  id_name :: string
  id_type :: xmlSecTransformType
  id_href :: string
  id_encKeyType :: nat
  id_decKeyType :: nat
  id_keyId :: string

text \<open>
  Modelled from the spec: \<open>xmlSecTransformNodeWrite\<close> (transforms module, not among
  the sources) records the algorithm of the descriptor on the node, as the wire format
  \<open><EncryptionMethod Algorithm="uri"/>\<close> of section 6 shows; it fails (\<open>None\<close>) on a
  node that cannot carry attributes.
\<close>

fun xmlSecTransformNodeWrite :: "xmlNode \<Rightarrow> xmlSecTransformId \<Rightarrow> xmlNode option" where
  "xmlSecTransformNodeWrite (XmlElement n s a cs) tid =
     Some (xmlSetProp (XmlElement n s a cs) ''Algorithm'' (id_href tid))"
| "xmlSecTransformNodeWrite (XmlText t) tid = None"

section \<open>Error reports\<close>

text \<open>
  The reasons \<open>xmlSecError\<close> is called with in this module. A failing function reports
  its reason and every caller on the way up reports \<open>XMLSEC_ERRORS_R_XMLSEC_FAILED\<close>;
  the model keeps the reports in the order they are emitted, so the head of the list
  is the kind of the failure.
\<close>

datatype xmlSecErrorReason =
    XMLSEC_ERRORS_R_MALLOC_FAILED
  | XMLSEC_ERRORS_R_XMLSEC_FAILED
  | XMLSEC_ERRORS_R_XML_FAILED
  | XMLSEC_ERRORS_R_NODE_ALREADY_PRESENT
  | XMLSEC_ERRORS_R_NODE_NOT_FOUND
  | XMLSEC_ERRORS_R_INVALID_NODE
  | XMLSEC_ERRORS_R_INVALID_NODE_CONTENT
  | XMLSEC_ERRORS_R_INVALID_TYPE
  | XMLSEC_ERRORS_R_INVALID_TRANSFORM
  | XMLSEC_ERRORS_R_INVALID_DATA
  | XMLSEC_ERRORS_R_KEY_NOT_FOUND

section \<open>Encryption templates\<close>

text \<open>
  The template builders mutate the tree in place and return the new node or NULL.
  Here a builder returns the pair of its return value and the tree after the call:
  \<open>Inr p\<close> is the path of the new node from \<open>encNode\<close>, \<open>Inl rs\<close> is NULL together
  with the reports emitted. The node arguments are non-null by their type (the C
  functions return NULL at once on a null argument).
\<close>

type_synonym xmlSecBuilt = "(xmlSecErrorReason list + nat list) \<times> xmlNode"

text \<open>
  \<open>xmlSecEncDataCreate\<close>: a new \<open>EncryptedData\<close> element declaring the encryption
  namespace, the four optional attributes, one \<open>CipherData\<close> child.
\<close>

definition xmlSecEncDataCreate ::
  "string option \<Rightarrow> string option \<Rightarrow> string option \<Rightarrow> string option \<Rightarrow> xmlNode option" where
  "xmlSecEncDataCreate ident type mimeType encoding =
     (let encNode = XmlElement ''EncryptedData'' xmlSecEncNs [] [];
          encNode = setPropOpt encNode ''Id'' ident;
          encNode = setPropOpt encNode ''Type'' type;
          encNode = setPropOpt encNode ''MimeType'' mimeType;
          encNode = setPropOpt encNode ''Encoding'' encoding
      in case xmlSecAddChild encNode ''CipherData'' xmlSecEncNs of
           None \<Rightarrow> None
         | Some (encNode', cipherData) \<Rightarrow> Some encNode')"

definition xmlSecEncDataAddEncMethod :: "xmlNode \<Rightarrow> xmlSecTransformId \<Rightarrow> xmlSecBuilt" where
  "xmlSecEncDataAddEncMethod encNode encMethod =
     (case xmlSecFindChild encNode ''EncryptionMethod'' xmlSecEncNs of
        Some encMethodNode \<Rightarrow> (Inl [XMLSEC_ERRORS_R_NODE_ALREADY_PRESENT], encNode)
      | None \<Rightarrow>
          (case (case xmlSecGetNextElementNode (children_of encNode) 0 of
                   None \<Rightarrow> xmlSecAddChild encNode ''EncryptionMethod'' xmlSecEncNs
                 | Some tmp \<Rightarrow> xmlSecAddPrevSibling encNode tmp ''EncryptionMethod'' xmlSecEncNs) of
             None \<Rightarrow> (Inl [XMLSEC_ERRORS_R_XMLSEC_FAILED], encNode)
           | Some (encNode', encMethodNode) \<Rightarrow>
               (case xmlSecTransformNodeWrite (children_of encNode' ! encMethodNode) encMethod of
                  None \<Rightarrow> (Inl [XMLSEC_ERRORS_R_XMLSEC_FAILED], encNode)
                | Some written \<Rightarrow>
                    (Inr [encMethodNode], replace_child encNode' encMethodNode written))))"

definition xmlSecEncDataAddKeyInfo :: "xmlNode \<Rightarrow> xmlSecBuilt" where
  "xmlSecEncDataAddKeyInfo encNode =
     (case xmlSecFindChild encNode ''KeyInfo'' xmlSecDSigNs of
        Some keyInfo \<Rightarrow> (Inl [XMLSEC_ERRORS_R_NODE_ALREADY_PRESENT], encNode)
      | None \<Rightarrow>
          (let prev = xmlSecFindChild encNode ''EncryptionMethod'' xmlSecEncNs;
               tmp = xmlSecGetNextElementNode (children_of encNode) 0
           in case (case prev of
                      Some p \<Rightarrow> xmlSecAddNextSibling encNode p ''KeyInfo'' xmlSecDSigNs
                    | None \<Rightarrow>
                        (case tmp of
                           None \<Rightarrow> xmlSecAddChild encNode ''KeyInfo'' xmlSecDSigNs
                         | Some t \<Rightarrow> xmlSecAddPrevSibling encNode t ''KeyInfo'' xmlSecDSigNs)) of
                None \<Rightarrow> (Inl [XMLSEC_ERRORS_R_XMLSEC_FAILED], encNode)
              | Some (encNode', keyInfo) \<Rightarrow> (Inr [keyInfo], encNode')))"

definition xmlSecEncDataAddEncProperties :: "xmlNode \<Rightarrow> string option \<Rightarrow> xmlSecBuilt" where
  "xmlSecEncDataAddEncProperties encNode ident =
     (case xmlSecFindChild encNode ''EncryptionProperties'' xmlSecEncNs of
        Some encProps \<Rightarrow> (Inl [XMLSEC_ERRORS_R_NODE_ALREADY_PRESENT], encNode)
      | None \<Rightarrow>
          (case xmlSecAddChild encNode ''EncryptionProperties'' xmlSecEncNs of
             None \<Rightarrow> (Inl [XMLSEC_ERRORS_R_XMLSEC_FAILED], encNode)
           | Some (encNode', encProps) \<Rightarrow>
               (Inr [encProps],
                replace_child encNode' encProps
                  (setPropOpt (children_of encNode' ! encProps) ''Id'' ident))))"

definition xmlSecEncDataAddEncProperty ::
  "xmlNode \<Rightarrow> string option \<Rightarrow> string option \<Rightarrow> xmlSecBuilt" where
  "xmlSecEncDataAddEncProperty encNode ident target =
     (case (case xmlSecFindChild encNode ''EncryptionProperties'' xmlSecEncNs of
              Some encProps \<Rightarrow> (Inr [encProps], encNode)
            | None \<Rightarrow>
                (case xmlSecEncDataAddEncProperties encNode None of
                   (Inl rs, encNode') \<Rightarrow> (Inl (rs @ [XMLSEC_ERRORS_R_XMLSEC_FAILED]), encNode')
                 | (Inr p, encNode') \<Rightarrow> (Inr p, encNode'))) of
        (Inl rs, encNode') \<Rightarrow> (Inl rs, encNode')
      | (Inr p, encNode') \<Rightarrow>
          (let encProps = hd p in
           case xmlSecAddChild (children_of encNode' ! encProps) ''EncryptionProperty'' xmlSecEncNs of
             None \<Rightarrow> (Inl [XMLSEC_ERRORS_R_XMLSEC_FAILED], encNode')
           | Some (encProps', encProp) \<Rightarrow>
               (Inr [encProps, encProp],
                replace_child encNode' encProps
                  (replace_child encProps' encProp
                     (setPropOpt (setPropOpt (children_of encProps' ! encProp) ''Id'' ident)
                        ''Target'' target)))))"

definition xmlSecEncDataAddCipherValue :: "xmlNode \<Rightarrow> xmlSecBuilt" where
  "xmlSecEncDataAddCipherValue encNode =
     (case xmlSecFindChild encNode ''CipherData'' xmlSecEncNs of
        None \<Rightarrow> (Inl [XMLSEC_ERRORS_R_NODE_NOT_FOUND], encNode)
      | Some cipherData \<Rightarrow>
          (let cd = children_of encNode ! cipherData in
           case xmlSecFindChild cd ''CipherValue'' xmlSecEncNs of
             Some tmp \<Rightarrow> (Inl [XMLSEC_ERRORS_R_NODE_ALREADY_PRESENT], encNode)
           | None \<Rightarrow>
               (case xmlSecFindChild cd ''CipherReference'' xmlSecEncNs of
                  Some tmp \<Rightarrow> (Inl [XMLSEC_ERRORS_R_NODE_ALREADY_PRESENT], encNode)
                | None \<Rightarrow>
                    (case xmlSecAddChild cd ''CipherValue'' xmlSecEncNs of
                       None \<Rightarrow> (Inl [XMLSEC_ERRORS_R_XMLSEC_FAILED], encNode)
                     | Some (cd', cipherValue) \<Rightarrow>
                         (Inr [cipherData, cipherValue], replace_child encNode cipherData cd')))))"

definition xmlSecEncDataAddCipherReference :: "xmlNode \<Rightarrow> string option \<Rightarrow> xmlSecBuilt" where
  "xmlSecEncDataAddCipherReference encNode uri =
     (case xmlSecFindChild encNode ''CipherData'' xmlSecEncNs of
        None \<Rightarrow> (Inl [XMLSEC_ERRORS_R_NODE_NOT_FOUND], encNode)
      | Some cipherData \<Rightarrow>
          (let cd = children_of encNode ! cipherData in
           case xmlSecFindChild cd ''CipherValue'' xmlSecEncNs of
             Some tmp \<Rightarrow> (Inl [XMLSEC_ERRORS_R_NODE_ALREADY_PRESENT], encNode)
           | None \<Rightarrow>
               (case xmlSecFindChild cd ''CipherReference'' xmlSecEncNs of
                  Some tmp \<Rightarrow> (Inl [XMLSEC_ERRORS_R_NODE_ALREADY_PRESENT], encNode)
                | None \<Rightarrow>
                    (case xmlSecAddChild cd ''CipherReference'' xmlSecEncNs of
                       None \<Rightarrow> (Inl [XMLSEC_ERRORS_R_XMLSEC_FAILED], encNode)
                     | Some (cd', cipherRef) \<Rightarrow>
                         (Inr [cipherData, cipherRef],
                          replace_child encNode cipherData
                            (replace_child cd' cipherRef
                               (setPropOpt (children_of cd' ! cipherRef) ''URI'' uri)))))))"

text \<open>
  \<open>xmlSecCipherReferenceAddTransform\<close>: the \<open>Transforms\<close> child of the
  \<open>CipherReference\<close> is looked up, and created, in the encryption namespace; the new
  \<open>Transform\<close> is in the signature namespace. When writing the algorithm fails the
  new nodes stay in the tree.
\<close>

definition xmlSecCipherReferenceAddTransform :: "xmlNode \<Rightarrow> xmlSecTransformId \<Rightarrow> xmlSecBuilt" where
  "xmlSecCipherReferenceAddTransform encNode transform =
     (case xmlSecFindChild encNode ''CipherData'' xmlSecEncNs of
        None \<Rightarrow> (Inl [XMLSEC_ERRORS_R_NODE_NOT_FOUND], encNode)
      | Some cipherData \<Rightarrow>
          (let cd = children_of encNode ! cipherData in
           case xmlSecFindChild cd ''CipherReference'' xmlSecEncNs of
             None \<Rightarrow> (Inl [XMLSEC_ERRORS_R_NODE_NOT_FOUND], encNode)
           | Some cipherRef \<Rightarrow>
               (let cr = children_of cd ! cipherRef in
                case (case xmlSecFindChild cr ''Transforms'' xmlSecEncNs of
                        Some transforms \<Rightarrow> Some (cr, transforms)
                      | None \<Rightarrow> xmlSecAddChild cr ''Transforms'' xmlSecEncNs) of
                  None \<Rightarrow> (Inl [XMLSEC_ERRORS_R_XMLSEC_FAILED], encNode)
                | Some (cr', transforms) \<Rightarrow>
                    (case xmlSecAddChild (children_of cr' ! transforms) ''Transform'' xmlSecDSigNs of
                       None \<Rightarrow>
                         (Inl [XMLSEC_ERRORS_R_XMLSEC_FAILED],
                          replace_child encNode cipherData (replace_child cd cipherRef cr'))
                     | Some (ts', cipherRefTransform) \<Rightarrow>
                         (case xmlSecTransformNodeWrite (children_of ts' ! cipherRefTransform) transform of
                            None \<Rightarrow>
                              (Inl [XMLSEC_ERRORS_R_XMLSEC_FAILED],
                               replace_child encNode cipherData
                                 (replace_child cd cipherRef (replace_child cr' transforms ts')))
                          | Some written \<Rightarrow>
                              (Inr [cipherData, cipherRef, transforms, cipherRefTransform],
                               replace_child encNode cipherData
                                 (replace_child cd cipherRef
                                    (replace_child cr' transforms
                                       (replace_child ts' cipherRefTransform written)))))))))"

subsection \<open>Templates the builders produce\<close>

text \<open>
  The templates built with the helpers: \<open>xmlSecEncDataCreate\<close> followed by any
  sequence of successful helper calls, in any order.
\<close>

inductive xmlSecEncDataBuilt :: "xmlNode \<Rightarrow> bool" where
  Built_Create:
    "xmlSecEncDataCreate ident type mimeType encoding = Some T \<Longrightarrow> xmlSecEncDataBuilt T"
| Built_EncMethod:
    "xmlSecEncDataBuilt T \<Longrightarrow> xmlSecEncDataAddEncMethod T encMethod = (Inr p, T') \<Longrightarrow>
     xmlSecEncDataBuilt T'"
| Built_KeyInfo:
    "xmlSecEncDataBuilt T \<Longrightarrow> xmlSecEncDataAddKeyInfo T = (Inr p, T') \<Longrightarrow>
     xmlSecEncDataBuilt T'"
| Built_EncProperties:
    "xmlSecEncDataBuilt T \<Longrightarrow> xmlSecEncDataAddEncProperties T ident = (Inr p, T') \<Longrightarrow>
     xmlSecEncDataBuilt T'"
| Built_EncProperty:
    "xmlSecEncDataBuilt T \<Longrightarrow> xmlSecEncDataAddEncProperty T ident target = (Inr p, T') \<Longrightarrow>
     xmlSecEncDataBuilt T'"
| Built_CipherValue:
    "xmlSecEncDataBuilt T \<Longrightarrow> xmlSecEncDataAddCipherValue T = (Inr p, T') \<Longrightarrow>
     xmlSecEncDataBuilt T'"
| Built_CipherReference:
    "xmlSecEncDataBuilt T \<Longrightarrow> xmlSecEncDataAddCipherReference T uri = (Inr p, T') \<Longrightarrow>
     xmlSecEncDataBuilt T'"
| Built_Transform:
    "xmlSecEncDataBuilt T \<Longrightarrow> xmlSecCipherReferenceAddTransform T transform = (Inr p, T') \<Longrightarrow>
     xmlSecEncDataBuilt T'"

text \<open>The qualified names of the element children of a node, in document order.\<close>

definition qname :: "xmlNode \<Rightarrow> string \<times> string" where
  "qname c = (node_name c, node_ns c)"

definition elementNames :: "xmlNode \<Rightarrow> (string \<times> string) list" where
  "elementNames n = map qname (filter is_element (children_of n))"

text \<open>
  The schema order of section 3: \<open>EncryptionMethod?, KeyInfo?, CipherData,
  EncryptionProperties?\<close>.
\<close>

definition dropOptional :: "'a \<Rightarrow> 'a list \<Rightarrow> 'a list" where
  "dropOptional x xs = (case xs of [] \<Rightarrow> [] | y # ys \<Rightarrow> if y = x then ys else xs)"

definition schemaOrder :: "(string \<times> string) list \<Rightarrow> bool" where
  "schemaOrder ns =
     (let rest = dropOptional (''KeyInfo'', xmlSecDSigNs)
                   (dropOptional (''EncryptionMethod'', xmlSecEncNs) ns)
      in rest = [(''CipherData'', xmlSecEncNs)] \<or>
         rest = [(''CipherData'', xmlSecEncNs), (''EncryptionProperties'', xmlSecEncNs)])"

definition hasChild :: "xmlNode \<Rightarrow> string \<Rightarrow> string \<Rightarrow> bool" where
  "hasChild parent name ns = (xmlSecFindChild parent name ns \<noteq> None)"

text \<open>
  The invariant of the built templates: every child is an element, the children are in
  schema order, and a \<open>CipherData\<close> child holds nothing, one \<open>CipherValue\<close> or one
  \<open>CipherReference\<close>.
\<close>

definition cdShape :: "xmlNode \<Rightarrow> bool" where
  "cdShape c =
     ((\<forall>x\<in>set (children_of c). is_element x) \<and>
      map qname (children_of c) \<in>
        {[], [(''CipherValue'', xmlSecEncNs)], [(''CipherReference'', xmlSecEncNs)]})"

definition tmplShape :: "xmlNode \<Rightarrow> bool" where
  "tmplShape T =
     (is_element T \<and> (\<forall>c\<in>set (children_of T). is_element c) \<and>
      schemaOrder (map qname (children_of T)) \<and>
      (\<forall>c\<in>set (children_of T). qname c = (''CipherData'', xmlSecEncNs) \<longrightarrow> cdShape c))"

text \<open>The same node under another name and namespace.\<close>

fun rename :: "string \<Rightarrow> string \<Rightarrow> xmlNode \<Rightarrow> xmlNode" where
  "rename n' s' (XmlElement n s a cs) = XmlElement n' s' a cs"
| "rename n' s' (XmlText t) = XmlText t"

section \<open>Keys, transforms and the context\<close>

datatype xmlSecKeyUsage = xmlSecKeyUsageAny | xmlSecKeyUsageEncrypt | xmlSecKeyUsageDecrypt

text \<open>A key: its id, its type, its origin tag and its value.\<close>

record xmlSecKey =
  key_id :: string
  key_type :: nat
  key_origin :: nat
  key_value :: string

text \<open>
  The key manager context carries the selection hints the driver sets before it asks
  for a key. The callback \<open>keysMngrCtx->keysMngr->getKey\<close> gets the \<open>KeyInfo\<close> node
  (or NULL) and the context; here it is a field of the encryption context.
\<close>

record xmlSecKeysMngrCtx =
  keyType :: nat
  keyUsage :: xmlSecKeyUsage
  keyId :: string

record xmlSecEncCtx =
  ctx_keysMngrCtx :: xmlSecKeysMngrCtx
  ctx_getKey :: "(xmlNode option \<Rightarrow> xmlSecKeysMngrCtx \<Rightarrow> xmlSecKey option) option"
  ctx_encryptionMethod :: "xmlSecTransformId option"
  ctx_ignoreType :: bool

text \<open>
  A transform object: its identity on the heap, its descriptor, the direction bit of a
  binary transform, the key installed, and its buffer (what was written to it and not
  yet processed; for the memory sink, what it has accumulated).
\<close>

record xmlSecTransform =
  t_uid :: nat
  t_id :: xmlSecTransformId
  t_encrypt :: bool
  t_key :: "string option"
  t_buf :: string

text \<open>
  Modelled from the spec: the descriptors of the codec, sink and input transforms the
  engine creates by name (\<open>xmlSecEncBase64Encode\<close>, \<open>xmlSecEncBase64Decode\<close>,
  \<open>xmlSecMemBuf\<close>, \<open>xmlSecInputUri\<close>) are defined in the transform registry, not
  among the sources; all are binary transforms that need no key.
\<close>

definition xmlSecEncBase64Encode :: xmlSecTransformId where
  "xmlSecEncBase64Encode =
     \<lparr>id_name = ''base64-encode'', id_type = xmlSecTransformTypeBinary,
      id_href = ''http://www.w3.org/2000/09/xmldsig#base64'',
      id_encKeyType = 0, id_decKeyType = 0, id_keyId = []\<rparr>"

definition xmlSecEncBase64Decode :: xmlSecTransformId where
  "xmlSecEncBase64Decode =
     \<lparr>id_name = ''base64-decode'', id_type = xmlSecTransformTypeBinary,
      id_href = ''http://www.w3.org/2000/09/xmldsig#base64'',
      id_encKeyType = 0, id_decKeyType = 0, id_keyId = []\<rparr>"

definition xmlSecMemBuf :: xmlSecTransformId where
  "xmlSecMemBuf =
     \<lparr>id_name = ''membuf'', id_type = xmlSecTransformTypeBinary, id_href = [],
      id_encKeyType = 0, id_decKeyType = 0, id_keyId = []\<rparr>"

definition xmlSecInputUri :: xmlSecTransformId where
  "xmlSecInputUri =
     \<lparr>id_name = ''input-uri'', id_type = xmlSecTransformTypeBinary, id_href = [],
      id_encKeyType = 0, id_decKeyType = 0, id_keyId = []\<rparr>"

section \<open>The external collaborators\<close>

text \<open>
  What the engine consumes from outside this module (section 6, Interfaces consumed)
  is a parameter of the model:
  \<^item> whether the allocation of the Result, of the Session and of the dump buffer
    succeeds;
  \<^item> \<open>xmlSecKeyDuplicate\<close> (\<open>None\<close> is NULL);
  \<^item> the transform registry: the descriptor registered for an algorithm href, whether
    creating an instance of a descriptor succeeds, what a transform computes from the
    whole stream pushed through it (by descriptor, direction and key; \<open>None\<close> is a
    transform error), and whether a binary transform accepts a key value;
  \<^item> the dsig \<open>KeyInfo\<close> writer;
  \<^item> opening a URI for input, and one pull of at most 1024 octets from the tail of a
    chain;
  \<^item> the XML serializer and parser of the host library;
  \<^item> for \<open>CipherReference\<close>: loading the referenced resource, the dsig \<open>Transforms\<close>
    reader, and whether the transform state accepts one more transform.
\<close>

record xmlSecEnv =
  env_resultAlloc :: bool
  env_stateAlloc :: bool
  env_bufferAlloc :: bool
  env_keyDuplicate :: "xmlSecKey \<Rightarrow> xmlSecKey option"
  env_registry :: "string \<Rightarrow> xmlSecTransformId option"
  env_create :: "xmlSecTransformId \<Rightarrow> bool"
  env_execute :: "xmlSecTransformId \<Rightarrow> bool \<Rightarrow> string option \<Rightarrow> string \<Rightarrow> string option"
  env_addKey :: "xmlSecTransformId \<Rightarrow> string \<Rightarrow> bool"
  env_keyInfoNodeWrite :: "xmlNode \<Rightarrow> xmlSecKeysMngrCtx \<Rightarrow> xmlSecKey \<Rightarrow> nat \<Rightarrow> xmlNode option"
  env_uriOpen :: "string \<Rightarrow> string option"
  env_binRead :: "xmlSecTransform list \<Rightarrow> int \<times> xmlSecTransform list"
  env_nodeDump :: "xmlNode \<Rightarrow> string"
  env_parse :: "string \<Rightarrow> xmlNode list option"
  env_loadUri :: "string option \<Rightarrow> string option"
  env_transformsNodeRead :: "xmlNode \<Rightarrow> xmlSecTransform list option"
  env_stateUpdate :: "xmlSecTransform \<Rightarrow> bool"

section \<open>Result, Session and the heap of one operation\<close>

record xmlSecEncResult =
  res_encrypt :: bool
  res_id :: "string option"
  res_type :: "string option"
  res_mimeType :: "string option"
  res_encoding :: "string option"
  res_encryptionMethod :: "xmlSecTransformId option"
  res_key :: "xmlSecKey option"
  res_buffer :: "string option"
  res_replaced :: bool

text \<open>
  The Session. \<open>st_first\<close> is the chain as reached from \<open>state->first\<close> along
  \<open>next\<close> (empty when the pointer is NULL); \<open>st_last\<close> is the transform
  \<open>state->last\<close> points to (\<open>None\<close> when NULL); \<open>st_cipherDataNode\<close> is the index of
  the \<open>CipherData\<close> child of the template. The field \<open>type\<close> of the C structure is
  never used.
\<close>

record xmlSecEncState =
  st_first :: "xmlSecTransform list"
  st_last :: "nat option"
  st_cipherDataNode :: "nat option"
  st_encrypt :: bool

datatype xmlSecObject =
    EncResultObj | EncStateObj | TransformObj nat | KeyObj | ResultBufferObj
  | PropObj string | XmlBufferObj | ContentObj | UriObj | TransformStateObj

text \<open>
  The outcome of a call: 0, a negative value (NULL for a function returning a pointer),
  or a dereference of a null pointer.
\<close>

datatype xmlSecRet = Success | Failure | NullDereference

text \<open>
  Everything one operation reads and writes: the context (its key manager context is
  written during key resolution), the template, the Result and the Session of the
  operation, the ids registered on the document, what stands at the place of the
  spliced node (\<open>None\<close> while no splice was performed), the Result handed to the caller,
  the reports emitted through \<open>xmlSecError\<close> by this module, in order, and the objects
  released, in order.
\<close>

record xmlSecHeap =
  h_ctx :: xmlSecEncCtx
  h_encNode :: xmlNode
  h_res :: xmlSecEncResult
  h_state :: xmlSecEncState
  h_nextUid :: nat
  h_ids :: "string list"
  h_spliced :: "xmlNode list option"
  h_out :: "xmlSecEncResult option"
  h_reports :: "xmlSecErrorReason list"
  h_freed :: "xmlSecObject list"

text \<open>The all-zero structures \<open>memset\<close> leaves.\<close>

definition zeroResult :: xmlSecEncResult where
  "zeroResult =
     \<lparr>res_encrypt = False, res_id = None, res_type = None, res_mimeType = None,
      res_encoding = None, res_encryptionMethod = None, res_key = None,
      res_buffer = None, res_replaced = False\<rparr>"

definition zeroState :: xmlSecEncState where
  "zeroState = \<lparr>st_first = [], st_last = None, st_cipherDataNode = None, st_encrypt = False\<rparr>"

definition initHeap :: "xmlSecEncCtx \<Rightarrow> xmlNode \<Rightarrow> xmlSecHeap" where
  "initHeap ctx encNode =
     \<lparr>h_ctx = ctx, h_encNode = encNode, h_res = zeroResult, h_state = zeroState,
      h_nextUid = 0, h_ids = [], h_spliced = None, h_out = None, h_reports = [],
      h_freed = []\<rparr>"

definition xmlSecError :: "xmlSecErrorReason \<Rightarrow> xmlSecHeap \<Rightarrow> xmlSecHeap" where
  "xmlSecError r h = h\<lparr>h_reports := h_reports h @ [r]\<rparr>"

definition release :: "xmlSecObject \<Rightarrow> xmlSecHeap \<Rightarrow> xmlSecHeap" where
  "release obj h = h\<lparr>h_freed := h_freed h @ [obj]\<rparr>"

definition releaseIf :: "bool \<Rightarrow> xmlSecObject \<Rightarrow> xmlSecHeap \<Rightarrow> xmlSecHeap" where
  "releaseIf b obj h = (if b then release obj h else h)"

subsection \<open>Result functions\<close>

definition xmlSecEncResultCreate :: "xmlSecEnv \<Rightarrow> bool \<Rightarrow> xmlSecHeap \<Rightarrow> xmlSecRet \<times> xmlSecHeap" where
  "xmlSecEncResultCreate env encrypt h =
     (if \<not> env_resultAlloc env then (Failure, xmlSecError XMLSEC_ERRORS_R_MALLOC_FAILED h)
      else (Success, h\<lparr>h_res := zeroResult\<lparr>res_encrypt := encrypt\<rparr>\<rparr>))"

text \<open>
  \<open>xmlSecEncResultDestroy\<close> releases the key, the buffer and the attribute strings that
  are set, zeroes the structure and releases it.
\<close>

definition xmlSecEncResultDestroy :: "xmlSecHeap \<Rightarrow> xmlSecHeap" where
  "xmlSecEncResultDestroy h =
     (let r = h_res h;
          h1 = releaseIf (res_key r \<noteq> None) KeyObj h;
          h2 = releaseIf (res_buffer r \<noteq> None) ResultBufferObj h1;
          h3 = releaseIf (res_id r \<noteq> None) (PropObj ''Id'') h2;
          h4 = releaseIf (res_type r \<noteq> None) (PropObj ''Type'') h3;
          h5 = releaseIf (res_mimeType r \<noteq> None) (PropObj ''MimeType'') h4;
          h6 = releaseIf (res_encoding r \<noteq> None) (PropObj ''Encoding'') h5
      in release EncResultObj (h6\<lparr>h_res := zeroResult\<rparr>))"

text \<open>
  The block every public operation runs when the caller passes a key:
  \<open>res->key = xmlSecKeyDuplicate(key); res->key->origin = key->origin;\<close>, with the
  duplicate not checked.
\<close>

definition xmlSecEncResultSetKey ::
  "xmlSecEnv \<Rightarrow> xmlSecKey option \<Rightarrow> xmlSecHeap \<Rightarrow> xmlSecRet \<times> xmlSecHeap" where
  "xmlSecEncResultSetKey env key h =
     (case key of
        None \<Rightarrow> (Success, h)
      | Some k \<Rightarrow>
          (case env_keyDuplicate env k of
             None \<Rightarrow> (NullDereference, h)
           | Some d \<Rightarrow>
               (Success, h\<lparr>h_res := (h_res h)\<lparr>res_key := Some (d\<lparr>key_origin := key_origin k\<rparr>)\<rparr>\<rparr>)))"

text \<open>
  Modelled from the spec: \<open>xmlSecAddIDs\<close> registers the \<open>Id\<close> attributes found in the
  subtree as ids of the document; the tree is not changed.
\<close>

fun collectIds :: "xmlNode \<Rightarrow> string list" where
  "collectIds (XmlElement n s a cs) =
     (case map_of a ''Id'' of None \<Rightarrow> [] | Some v \<Rightarrow> [v]) @ concat (map collectIds cs)"
| "collectIds (XmlText t) = []"

definition xmlSecAddIDs :: "xmlSecHeap \<Rightarrow> xmlSecHeap" where
  "xmlSecAddIDs h = h\<lparr>h_ids := h_ids h @ collectIds (h_encNode h)\<rparr>"

subsection \<open>The transform chain\<close>

definition xmlSecTransformCreate ::
  "xmlSecEnv \<Rightarrow> xmlSecTransformId \<Rightarrow> xmlSecHeap \<Rightarrow> xmlSecTransform option \<times> xmlSecHeap" where
  "xmlSecTransformCreate env tid h =
     (if env_create env tid
      then (Some \<lparr>t_uid = h_nextUid h, t_id = tid, t_encrypt = False, t_key = None, t_buf = []\<rparr>,
            h\<lparr>h_nextUid := Suc (h_nextUid h)\<rparr>)
      else (None, h))"

text \<open>
  Modelled from the spec: \<open>xmlSecTransformNodeRead\<close> instantiates, through the
  registry, the transform whose algorithm the node names.
\<close>

definition xmlSecTransformNodeRead ::
  "xmlSecEnv \<Rightarrow> xmlNode \<Rightarrow> xmlSecHeap \<Rightarrow> xmlSecTransform option \<times> xmlSecHeap" where
  "xmlSecTransformNodeRead env node h =
     (case xmlGetProp node ''Algorithm'' of
        None \<Rightarrow> (None, h)
      | Some href \<Rightarrow>
          (case env_registry env href of
             None \<Rightarrow> (None, h)
           | Some tid \<Rightarrow> xmlSecTransformCreate env tid h))"

definition xmlSecTransformDestroy :: "xmlSecTransform \<Rightarrow> xmlSecHeap \<Rightarrow> xmlSecHeap" where
  "xmlSecTransformDestroy t h = release (TransformObj (t_uid t)) h"

definition xmlSecBinTransformDestroyAll :: "xmlSecTransform list \<Rightarrow> xmlSecHeap \<Rightarrow> xmlSecHeap" where
  "xmlSecBinTransformDestroyAll ts h = fold xmlSecTransformDestroy ts h"

definition xmlSecTransformCheckType :: "xmlSecTransform \<Rightarrow> xmlSecTransformType \<Rightarrow> bool" where
  "xmlSecTransformCheckType t ty = (id_type (t_id t) = ty)"

text \<open>
  Modelled from the spec: \<open>xmlSecBinTransformAddAfter\<close> and
  \<open>xmlSecBinTransformAddBefore\<close> link a binary transform after the tail, respectively
  before the head, of a chain of binary transforms; NULL for a transform that is not
  binary.
\<close>

definition xmlSecBinTransformAddAfter ::
  "xmlSecTransform list \<Rightarrow> xmlSecTransform \<Rightarrow> xmlSecTransform list option" where
  "xmlSecBinTransformAddAfter chain t =
     (if xmlSecTransformCheckType t xmlSecTransformTypeBinary then Some (chain @ [t]) else None)"

definition xmlSecBinTransformAddBefore ::
  "xmlSecTransform list \<Rightarrow> xmlSecTransform \<Rightarrow> xmlSecTransform list option" where
  "xmlSecBinTransformAddBefore chain t =
     (if xmlSecTransformCheckType t xmlSecTransformTypeBinary then Some (t # chain) else None)"

definition xmlSecEncStateAddTransform :: "xmlSecTransform \<Rightarrow> xmlSecHeap \<Rightarrow> xmlSecRet \<times> xmlSecHeap" where
  "xmlSecEncStateAddTransform transform h =
     (let state = h_state h in
      if \<not> xmlSecTransformCheckType transform xmlSecTransformTypeBinary
      then (Failure, xmlSecError XMLSEC_ERRORS_R_INVALID_TRANSFORM h)
      else if st_last state = None
      then (Success, h\<lparr>h_state := state\<lparr>st_first := [transform], st_last := Some (t_uid transform)\<rparr>\<rparr>)
      else (case xmlSecBinTransformAddAfter (st_first state) transform of
              Some chain \<Rightarrow>
                (Success, h\<lparr>h_state := state\<lparr>st_first := chain, st_last := Some (t_uid transform)\<rparr>\<rparr>)
            | None \<Rightarrow> (Failure, xmlSecError XMLSEC_ERRORS_R_XMLSEC_FAILED h)))"

definition xmlSecEncStateAddFirstTransform :: "xmlSecTransform \<Rightarrow> xmlSecHeap \<Rightarrow> xmlSecRet \<times> xmlSecHeap" where
  "xmlSecEncStateAddFirstTransform transform h =
     (let state = h_state h in
      if \<not> xmlSecTransformCheckType transform xmlSecTransformTypeBinary
      then (Failure, xmlSecError XMLSEC_ERRORS_R_INVALID_TRANSFORM h)
      else if st_first state = []
      then (Success, h\<lparr>h_state := state\<lparr>st_first := [transform], st_last := Some (t_uid transform)\<rparr>\<rparr>)
      else (case xmlSecBinTransformAddBefore (st_first state) transform of
              Some chain \<Rightarrow> (Success, h\<lparr>h_state := state\<lparr>st_first := chain\<rparr>\<rparr>)
            | None \<Rightarrow> (Failure, xmlSecError XMLSEC_ERRORS_R_XMLSEC_FAILED h)))"

text \<open>
  \<open>xmlSecEncStateDestroy\<close> destroys the chain through whichever end is not NULL,
  zeroes the structure and releases it.
\<close>

definition xmlSecEncStateDestroy :: "xmlSecHeap \<Rightarrow> xmlSecHeap" where
  "xmlSecEncStateDestroy h =
     (let state = h_state h;
          h1 = (if st_first state \<noteq> [] then xmlSecBinTransformDestroyAll (st_first state) h
                else (case st_last state of
                        Some u \<Rightarrow> release (TransformObj u) h
                      | None \<Rightarrow> h))
      in release EncStateObj (h1\<lparr>h_state := zeroState\<rparr>))"

text \<open>
  In-place updates of a transform that is linked in the chain:
  \<open>xmlSecBinTransformSetEncrypt\<close> sets the direction bit;
  \<open>xmlSecBinTransformAddKey\<close> installs the key value when the transform accepts it.
\<close>

definition updateTransform ::
  "nat \<Rightarrow> (xmlSecTransform \<Rightarrow> xmlSecTransform) \<Rightarrow> xmlSecHeap \<Rightarrow> xmlSecHeap" where
  "updateTransform u f h =
     h\<lparr>h_state := (h_state h)\<lparr>st_first := map (\<lambda>t. if t_uid t = u then f t else t)
                                             (st_first (h_state h))\<rparr>\<rparr>"

definition xmlSecBinTransformSetEncrypt :: "xmlSecTransform \<Rightarrow> bool \<Rightarrow> xmlSecHeap \<Rightarrow> xmlSecHeap" where
  "xmlSecBinTransformSetEncrypt transform encrypt h =
     updateTransform (t_uid transform) (\<lambda>t. t\<lparr>t_encrypt := encrypt\<rparr>) h"

definition xmlSecBinTransformAddKey ::
  "xmlSecEnv \<Rightarrow> xmlSecTransform \<Rightarrow> string \<Rightarrow> xmlSecHeap \<Rightarrow> xmlSecRet \<times> xmlSecHeap" where
  "xmlSecBinTransformAddKey env transform v h =
     (if env_addKey env (t_id transform) v
      then (Success, updateTransform (t_uid transform) (\<lambda>t. t\<lparr>t_key := Some v\<rparr>) h)
      else (Failure, h))"

text \<open>
  Modelled from the spec: the push discipline of section 4.1. \<open>write\<close> hands the
  octets to the head of the chain; \<open>flush\<close> makes each link transform what it was
  given and forward the output to the next link, the memory sink accumulating what
  reaches it. A transform is taken as a function of the whole stream written to it, so
  a transform error shows at \<open>flush\<close>. Both fail on a NULL transform.
\<close>

definition xmlSecBinTransformWrite ::
  "xmlSecTransform list \<Rightarrow> string \<Rightarrow> xmlSecTransform list option" where
  "xmlSecBinTransformWrite chain buf =
     (case chain of
        [] \<Rightarrow> None
      | t # ts \<Rightarrow> Some (t\<lparr>t_buf := t_buf t @ buf\<rparr> # ts))"

fun flushFrom :: "xmlSecEnv \<Rightarrow> string \<Rightarrow> xmlSecTransform list \<Rightarrow> xmlSecTransform list option" where
  "flushFrom env carry [] = Some []"
| "flushFrom env carry (t # ts) =
     (let input = t_buf t @ carry in
      if t_id t = xmlSecMemBuf
      then map_option (\<lambda>ts'. t\<lparr>t_buf := input\<rparr> # ts') (flushFrom env input ts)
      else (case env_execute env (t_id t) (t_encrypt t) (t_key t) input of
              None \<Rightarrow> None
            | Some out \<Rightarrow> map_option (\<lambda>ts'. t\<lparr>t_buf := []\<rparr> # ts') (flushFrom env out ts)))"

definition xmlSecBinTransformFlush ::
  "xmlSecEnv \<Rightarrow> xmlSecTransform list \<Rightarrow> xmlSecTransform list option" where
  "xmlSecBinTransformFlush env chain = (if chain = [] then None else flushFrom env [] chain)"

text \<open>
  Modelled from the spec: \<open>xmlSecMemBufTransformGetBuffer(last, 1)\<close> takes the buffer
  out of the memory sink \<open>state->last\<close> points to; NULL when the pointer is NULL or
  the transform is not a memory sink.
\<close>

definition xmlSecMemBufTransformGetBuffer :: "xmlSecEncState \<Rightarrow> string option \<times> xmlSecEncState" where
  "xmlSecMemBufTransformGetBuffer state =
     (case List.find (\<lambda>t. Some (t_uid t) = st_last state) (st_first state) of
        None \<Rightarrow> (None, state)
      | Some t \<Rightarrow>
          if t_id t = xmlSecMemBuf
          then (Some (t_buf t),
                state\<lparr>st_first := map (\<lambda>x. if t_uid x = t_uid t then x\<lparr>t_buf := []\<rparr> else x)
                                      (st_first state)\<rparr>)
          else (None, state))"

section \<open>The EncryptedData driver\<close>

text \<open>
  \<open>xmlSecEncryptedDataNodeRead\<close> is one C function; the model splits it at its
  comments, last part first. A cursor \<open>cur\<close> is the index of a child of the template,
  \<open>None\<close> for NULL.
\<close>

text \<open>On encrypt only: append the base64 encoder, then the memory sink.\<close>

definition xmlSecEncryptedDataNodeRead_encode :: "xmlSecEnv \<Rightarrow> xmlSecHeap \<Rightarrow> xmlSecRet \<times> xmlSecHeap" where
  "xmlSecEncryptedDataNodeRead_encode env h =
     (if st_encrypt (h_state h)
      then (case xmlSecTransformCreate env xmlSecEncBase64Encode h of
              (None, h1) \<Rightarrow> (Failure, xmlSecError XMLSEC_ERRORS_R_XMLSEC_FAILED h1)
            | (Some base64, h1) \<Rightarrow>
                (case xmlSecEncStateAddTransform base64 h1 of
                   (r, h2) \<Rightarrow>
                     if r \<noteq> Success
                     then (Failure,
                           xmlSecTransformDestroy base64 (xmlSecError XMLSEC_ERRORS_R_XMLSEC_FAILED h2))
                     else (case xmlSecTransformCreate env xmlSecMemBuf h2 of
                             (None, h3) \<Rightarrow> (Failure, xmlSecError XMLSEC_ERRORS_R_XMLSEC_FAILED h3)
                           | (Some memBuf, h3) \<Rightarrow>
                               (case xmlSecEncStateAddTransform memBuf h3 of
                                  (r', h4) \<Rightarrow>
                                    if r' \<noteq> Success
                                    then (Failure,
                                          xmlSecTransformDestroy memBuf
                                            (xmlSecError XMLSEC_ERRORS_R_XMLSEC_FAILED h4))
                                    else (Success, h4)))))
      else (Success, h))"

text \<open>
  The required \<open>CipherData\<close> node, then the optional \<open>EncryptionProperties\<close>, which is
  skipped; what follows it is not looked at (the check is commented out in the source).
\<close>

definition xmlSecEncryptedDataNodeRead_cipherData ::
  "xmlSecEnv \<Rightarrow> xmlSecHeap \<Rightarrow> nat option \<Rightarrow> xmlSecRet \<times> xmlSecHeap" where
  "xmlSecEncryptedDataNodeRead_cipherData env h cur =
     (let cs = children_of (h_encNode h) in
      case cur of
        None \<Rightarrow> (Failure, xmlSecError XMLSEC_ERRORS_R_INVALID_NODE h)
      | Some c \<Rightarrow>
          if \<not> xmlSecCheckNodeName (cs ! c) ''CipherData'' xmlSecEncNs
          then (Failure, xmlSecError XMLSEC_ERRORS_R_INVALID_NODE h)
          else (let h1 = h\<lparr>h_state := (h_state h)\<lparr>st_cipherDataNode := Some c\<rparr>\<rparr>;
                    cur1 = xmlSecGetNextElementNode cs (Suc c);
                    cur2 = (case cur1 of
                              None \<Rightarrow> None
                            | Some e \<Rightarrow>
                                if xmlSecCheckNodeName (cs ! e) ''EncryptionProperties'' xmlSecEncNs
                                then xmlSecGetNextElementNode cs (Suc e)
                                else cur1)
                in xmlSecEncryptedDataNodeRead_encode env h1))"

text \<open>
  The optional \<open>KeyInfo\<close> node and the key. \<open>result->encryptionMethod\<close> was assigned
  from \<open>encryptionMethod->id\<close> just before, so \<open>t_id encryptionMethod\<close> is read for it.
\<close>

definition xmlSecEncryptedDataNodeRead_key ::
  "xmlSecEnv \<Rightarrow> xmlSecHeap \<Rightarrow> xmlSecTransform \<Rightarrow> nat option \<Rightarrow> xmlSecRet \<times> xmlSecHeap" where
  "xmlSecEncryptedDataNodeRead_key env h encryptionMethod cur =
     (let cs = children_of (h_encNode h);
          isKeyInfo = (case cur of
                         None \<Rightarrow> False
                       | Some c \<Rightarrow> xmlSecCheckNodeName (cs ! c) ''KeyInfo'' xmlSecDSigNs);
          keyInfoNode = (if isKeyInfo then cur else None);
          cur1 = (case cur of
                    None \<Rightarrow> None
                  | Some c \<Rightarrow> if isKeyInfo then xmlSecGetNextElementNode cs (Suc c) else cur);
          m = t_id encryptionMethod;
          h1 = (case ctx_getKey (h_ctx h) of
                  None \<Rightarrow> h
                | Some getKey \<Rightarrow>
                    if res_key (h_res h) \<noteq> None then h
                    else (let kctx = ctx_keysMngrCtx (h_ctx h);
                              kctx1 = (if res_encrypt (h_res h)
                                       then kctx\<lparr>keyType := id_encKeyType m,
                                                 keyUsage := xmlSecKeyUsageEncrypt\<rparr>
                                       else kctx\<lparr>keyType := id_decKeyType m,
                                                 keyUsage := xmlSecKeyUsageDecrypt\<rparr>);
                              kctx2 = kctx1\<lparr>keyId := id_keyId m\<rparr>
                          in h\<lparr>h_ctx := (h_ctx h)\<lparr>ctx_keysMngrCtx := kctx2\<rparr>,
                               h_res := (h_res h)\<lparr>res_key :=
                                  getKey (map_option (\<lambda>k. cs ! k) keyInfoNode) kctx2\<rparr>\<rparr>))
      in case res_key (h_res h1) of
           None \<Rightarrow> (Failure, xmlSecError XMLSEC_ERRORS_R_KEY_NOT_FOUND h1)
         | Some key \<Rightarrow>
             (case xmlSecBinTransformAddKey env encryptionMethod (key_value key) h1 of
                (r, h2) \<Rightarrow>
                  if r \<noteq> Success then (Failure, xmlSecError XMLSEC_ERRORS_R_XMLSEC_FAILED h2)
                  else (case (if res_encrypt (h_res h2) then keyInfoNode else None) of
                          None \<Rightarrow> xmlSecEncryptedDataNodeRead_cipherData env h2 cur1
                        | Some k \<Rightarrow>
                            (case env_keyInfoNodeWrite env (cs ! k) (ctx_keysMngrCtx (h_ctx h2)) key
                                    (id_decKeyType m) of
                               None \<Rightarrow> (Failure, xmlSecError XMLSEC_ERRORS_R_XMLSEC_FAILED h2)
                             | Some written \<Rightarrow>
                                 xmlSecEncryptedDataNodeRead_cipherData env
                                   (h2\<lparr>h_encNode := replace_child (h_encNode h2) k written\<rparr>)
                                   cur1))))"

text \<open>
  The transform of the encryption method joins the chain, gets its direction from the
  Session, and its descriptor is recorded on the Result.
\<close>

definition xmlSecEncryptedDataNodeRead_method ::
  "xmlSecEnv \<Rightarrow> xmlSecHeap \<Rightarrow> xmlSecTransform option \<Rightarrow> nat option \<Rightarrow> xmlSecRet \<times> xmlSecHeap" where
  "xmlSecEncryptedDataNodeRead_method env h created cur =
     (case created of
        None \<Rightarrow> (Failure, xmlSecError XMLSEC_ERRORS_R_XMLSEC_FAILED h)
      | Some encryptionMethod \<Rightarrow>
          (case xmlSecEncStateAddTransform encryptionMethod h of
             (r, h1) \<Rightarrow>
               if r \<noteq> Success
               then (Failure,
                     xmlSecTransformDestroy encryptionMethod
                       (xmlSecError XMLSEC_ERRORS_R_XMLSEC_FAILED h1))
               else (let h2 = xmlSecBinTransformSetEncrypt encryptionMethod
                                (st_encrypt (h_state h1)) h1;
                         h3 = h2\<lparr>h_res := (h_res h2)\<lparr>res_encryptionMethod :=
                                                         Some (t_id encryptionMethod)\<rparr>\<rparr>
                     in xmlSecEncryptedDataNodeRead_key env h3 encryptionMethod cur)))"

text \<open>
  The first element is not an \<open>EncryptionMethod\<close>: the method of the context, or the
  report "encryption method not specified".
\<close>

definition xmlSecEncryptedDataNodeRead_default ::
  "xmlSecEnv \<Rightarrow> xmlSecHeap \<Rightarrow> nat option \<Rightarrow> xmlSecRet \<times> xmlSecHeap" where
  "xmlSecEncryptedDataNodeRead_default env h cur =
     (case ctx_encryptionMethod (h_ctx h) of
        Some tid \<Rightarrow>
          (case xmlSecTransformCreate env tid h of
             (created, h1) \<Rightarrow> xmlSecEncryptedDataNodeRead_method env h1 created cur)
      | None \<Rightarrow> (Failure, xmlSecError XMLSEC_ERRORS_R_INVALID_DATA h))"

definition xmlSecEncryptedDataNodeRead :: "xmlSecEnv \<Rightarrow> xmlSecHeap \<Rightarrow> xmlSecRet \<times> xmlSecHeap" where
  "xmlSecEncryptedDataNodeRead env h =
     (let encNode = h_encNode h;
          h1 = h\<lparr>h_res := (h_res h)\<lparr>res_id := xmlGetProp encNode ''Id'',
                                     res_type := xmlGetProp encNode ''Type'',
                                     res_mimeType := xmlGetProp encNode ''MimeType'',
                                     res_encoding := xmlGetProp encNode ''Encoding''\<rparr>\<rparr>;
          cs = children_of encNode
      in case xmlSecGetNextElementNode cs 0 of
           None \<Rightarrow> xmlSecEncryptedDataNodeRead_default env h1 None
         | Some c \<Rightarrow>
             if xmlSecCheckNodeName (cs ! c) ''EncryptionMethod'' xmlSecEncNs
             then (case xmlSecTransformNodeRead env (cs ! c) h1 of
                     (created, h2) \<Rightarrow>
                       xmlSecEncryptedDataNodeRead_method env h2 created
                         (xmlSecGetNextElementNode cs (Suc c)))
             else xmlSecEncryptedDataNodeRead_default env h1 (Some c))"

section \<open>The Session\<close>

definition xmlSecEncStateCreate :: "xmlSecEnv \<Rightarrow> bool \<Rightarrow> xmlSecHeap \<Rightarrow> xmlSecRet \<times> xmlSecHeap" where
  "xmlSecEncStateCreate env encrypt h =
     (if \<not> env_stateAlloc env then (Failure, xmlSecError XMLSEC_ERRORS_R_MALLOC_FAILED h)
      else (case xmlSecEncryptedDataNodeRead env (h\<lparr>h_state := zeroState\<lparr>st_encrypt := encrypt\<rparr>\<rparr>) of
              (r, h1) \<Rightarrow>
                if r \<noteq> Success
                then (Failure, xmlSecEncStateDestroy (xmlSecError XMLSEC_ERRORS_R_XMLSEC_FAILED h1))
                else (Success, h1)))"

section \<open>The CipherData driver\<close>

text \<open>
  The text functions of the host XML library, on the contents this module passes
  (no entity references): \<open>xmlNodeSetContent\<close> replaces the children by one text
  node, \<open>xmlNodeAddContent\<close> (and \<open>xmlNodeAddContentLen\<close>, which takes the length
  too) appends to the last text node or adds one, \<open>xmlNodeGetContent\<close> is the
  concatenated text of the subtree, NULL when the element has no content at all.
\<close>

fun xmlNodeSetContent :: "xmlNode \<Rightarrow> string \<Rightarrow> xmlNode" where
  "xmlNodeSetContent (XmlElement n s a cs) c = XmlElement n s a (if c = [] then [] else [XmlText c])"
| "xmlNodeSetContent (XmlText t) c = XmlText c"

fun appendText :: "xmlNode list \<Rightarrow> string \<Rightarrow> xmlNode list" where
  "appendText [] c = [XmlText c]"
| "appendText [XmlText t] c = [XmlText (t @ c)]"
| "appendText [XmlElement n s a cs] c = [XmlElement n s a cs, XmlText c]"
| "appendText (x # y # ys) c = x # appendText (y # ys) c"

fun xmlNodeAddContent :: "xmlNode \<Rightarrow> string \<Rightarrow> xmlNode" where
  "xmlNodeAddContent (XmlElement n s a cs) c =
     (if c = [] then XmlElement n s a cs else XmlElement n s a (appendText cs c))"
| "xmlNodeAddContent (XmlText t) c = XmlText (t @ c)"

fun textOf :: "xmlNode \<Rightarrow> string" where
  "textOf (XmlElement n s a cs) = concat (map textOf cs)"
| "textOf (XmlText t) = t"

definition xmlNodeGetContent :: "xmlNode \<Rightarrow> string option" where
  "xmlNodeGetContent node =
     (if is_element node \<and> children_of node = [] then None else Some (textOf node))"

text \<open>The three calls that write the text of a \<open>CipherValue\<close>.\<close>

definition writeCipherValue :: "xmlNode \<Rightarrow> string \<Rightarrow> xmlNode" where
  "writeCipherValue cur buf =
     xmlNodeAddContent (xmlNodeAddContent (xmlNodeSetContent cur [CHR 0x0A]) buf) [CHR 0x0A]"

text \<open>
  \<open>xmlSecCipherDataNodeWrite\<close>, on the \<open>CipherData\<close> node: the return value, the
  reports it emits, and the node after the call.
\<close>

definition xmlSecCipherDataNodeWrite ::
  "xmlNode \<Rightarrow> string \<Rightarrow> xmlSecRet \<times> xmlSecErrorReason list \<times> xmlNode" where
  "xmlSecCipherDataNodeWrite cipherDataNode buf =
     (let cs = children_of cipherDataNode in
      case xmlSecGetNextElementNode cs 0 of
        None \<Rightarrow>
          (case xmlSecAddChild cipherDataNode ''CipherValue'' xmlSecEncNs of
             None \<Rightarrow> (Failure, [XMLSEC_ERRORS_R_XMLSEC_FAILED], cipherDataNode)
           | Some (cd, cur) \<Rightarrow>
               (Success, [], replace_child cd cur (writeCipherValue (children_of cd ! cur) buf)))
      | Some cur \<Rightarrow>
          (case (if xmlSecCheckNodeName (cs ! cur) ''CipherValue'' xmlSecEncNs
                 then (replace_child cipherDataNode cur (writeCipherValue (cs ! cur) buf),
                       xmlSecGetNextElementNode cs (Suc cur))
                 else if xmlSecCheckNodeName (cs ! cur) ''CipherReference'' xmlSecEncNs
                 then (cipherDataNode, xmlSecGetNextElementNode cs (Suc cur))
                 else (cipherDataNode, Some cur)) of
             (cd, cur1) \<Rightarrow>
               if cur1 \<noteq> None then (Failure, [XMLSEC_ERRORS_R_INVALID_NODE], cd)
               else (Success, [], cd)))"

text \<open>
  \<open>xmlSecEncStateWriteResult\<close>: the sink's buffer becomes the Result's buffer and is
  written into the template. On either failure the function destroys the Result and
  the Session itself before it returns.
\<close>

definition xmlSecEncStateWriteResult :: "xmlSecHeap \<Rightarrow> xmlSecRet \<times> xmlSecHeap" where
  "xmlSecEncStateWriteResult h =
     (case xmlSecMemBufTransformGetBuffer (h_state h) of
        (buffer, state) \<Rightarrow>
          (let h1 = h\<lparr>h_state := state, h_res := (h_res h)\<lparr>res_buffer := buffer\<rparr>\<rparr> in
           case buffer of
             None \<Rightarrow>
               (Failure,
                xmlSecEncStateDestroy
                  (xmlSecEncResultDestroy (xmlSecError XMLSEC_ERRORS_R_XMLSEC_FAILED h1)))
           | Some buf \<Rightarrow>
               (case (case st_cipherDataNode state of
                        None \<Rightarrow> (Failure, h1)
                      | Some i \<Rightarrow>
                          (case xmlSecCipherDataNodeWrite (children_of (h_encNode h1) ! i) buf of
                             (r, reports, cd) \<Rightarrow>
                               (r, h1\<lparr>h_encNode := replace_child (h_encNode h1) i cd,
                                      h_reports := h_reports h1 @ reports\<rparr>))) of
                  (r, h2) \<Rightarrow>
                    if r \<noteq> Success
                    then (Failure,
                          xmlSecEncStateDestroy
                            (xmlSecEncResultDestroy
                               (xmlSecError XMLSEC_ERRORS_R_XMLSEC_FAILED h2)))
                    else (Success, h2))))"

text \<open>
  \<open>xmlSecCipherValueNodeRead\<close>: base64 decoder at the head, memory sink at the tail,
  the text of the node pushed through.
\<close>

definition xmlSecCipherValueNodeRead ::
  "xmlSecEnv \<Rightarrow> xmlNode \<Rightarrow> xmlSecHeap \<Rightarrow> xmlSecRet \<times> xmlSecHeap" where
  "xmlSecCipherValueNodeRead env cipherValueNode h =
     (case xmlSecTransformCreate env xmlSecEncBase64Decode h of
        (None, h1) \<Rightarrow> (Failure, xmlSecError XMLSEC_ERRORS_R_XMLSEC_FAILED h1)
      | (Some base64, h1) \<Rightarrow>
          (case xmlSecEncStateAddFirstTransform base64 h1 of
             (r, h2) \<Rightarrow>
               if r \<noteq> Success
               then (Failure, xmlSecTransformDestroy base64 (xmlSecError XMLSEC_ERRORS_R_XMLSEC_FAILED h2))
               else (case xmlSecTransformCreate env xmlSecMemBuf h2 of
                       (None, h3) \<Rightarrow> (Failure, xmlSecError XMLSEC_ERRORS_R_XMLSEC_FAILED h3)
                     | (Some memBuf, h3) \<Rightarrow>
                         (case xmlSecEncStateAddTransform memBuf h3 of
                            (r', h4) \<Rightarrow>
                              if r' \<noteq> Success
                              then (Failure,
                                    xmlSecTransformDestroy memBuf
                                      (xmlSecError XMLSEC_ERRORS_R_XMLSEC_FAILED h4))
                              else (case xmlNodeGetContent cipherValueNode of
                                      None \<Rightarrow>
                                        (Failure, xmlSecError XMLSEC_ERRORS_R_INVALID_NODE_CONTENT h4)
                                    | Some content \<Rightarrow>
                                        (case xmlSecBinTransformWrite (st_first (h_state h4)) content of
                                           None \<Rightarrow>
                                             (Failure,
                                              release ContentObj
                                                (xmlSecError XMLSEC_ERRORS_R_XMLSEC_FAILED h4))
                                         | Some written \<Rightarrow>
                                             (case xmlSecBinTransformFlush env written of
                                                None \<Rightarrow>
                                                  (Failure,
                                                   release ContentObj
                                                     (xmlSecError XMLSEC_ERRORS_R_XMLSEC_FAILED
                                                        (h4\<lparr>h_state := (h_state h4)\<lparr>st_first := written\<rparr>\<rparr>)))
                                              | Some flushed \<Rightarrow>
                                                  (case xmlSecMemBufTransformGetBuffer
                                                          ((h_state h4)\<lparr>st_first := flushed\<rparr>) of
                                                     (buffer, state) \<Rightarrow>
                                                       (let h5 = h4\<lparr>h_state := state,
                                                                     h_res := (h_res h4)\<lparr>res_buffer := buffer\<rparr>\<rparr>
                                                        in if buffer = None
                                                           then (Failure,
                                                                 release ContentObj
                                                                   (xmlSecError XMLSEC_ERRORS_R_XMLSEC_FAILED h5))
                                                           else (Success, release ContentObj h5))))))))))"

subsection \<open>CipherReference\<close>

text \<open>
  Modelled from the spec: the transform state of the dsig subsystem (section 6:
  \<open>create\<close>, \<open>update(transform)\<close>, \<open>final(binary-mode)\<close>, \<open>curBuf\<close>, \<open>destroy\<close>) is a
  pipeline rooted at the referenced resource: the octets of the resource and the
  transforms handed over so far. \<open>final\<close> runs the octets through the transforms in
  order; \<open>curBuf\<close> is the output.
\<close>

record xmlSecTransformState =
  ts_data :: string
  ts_transforms :: "xmlSecTransform list"

definition xmlSecTransformStateCreate :: "xmlSecEnv \<Rightarrow> string option \<Rightarrow> xmlSecTransformState option" where
  "xmlSecTransformStateCreate env uri =
     map_option (\<lambda>d. \<lparr>ts_data = d, ts_transforms = []\<rparr>) (env_loadUri env uri)"

definition xmlSecTransformsNodeRead ::
  "xmlSecEnv \<Rightarrow> xmlSecTransformState \<Rightarrow> xmlNode \<Rightarrow> xmlSecTransformState option" where
  "xmlSecTransformsNodeRead env transState node =
     map_option (\<lambda>ts. transState\<lparr>ts_transforms := ts_transforms transState @ ts\<rparr>)
       (env_transformsNodeRead env node)"

definition xmlSecTransformStateUpdate ::
  "xmlSecEnv \<Rightarrow> xmlSecTransformState \<Rightarrow> xmlSecTransform \<Rightarrow> xmlSecTransformState option" where
  "xmlSecTransformStateUpdate env transState transform =
     (if env_stateUpdate env transform
      then Some (transState\<lparr>ts_transforms := ts_transforms transState @ [transform]\<rparr>)
      else None)"

fun runTransforms :: "xmlSecEnv \<Rightarrow> string \<Rightarrow> xmlSecTransform list \<Rightarrow> string option" where
  "runTransforms env d [] = Some d"
| "runTransforms env d (t # ts) =
     (if t_id t = xmlSecMemBuf then runTransforms env d ts
      else (case env_execute env (t_id t) (t_encrypt t) (t_key t) d of
              None \<Rightarrow> None
            | Some out \<Rightarrow> runTransforms env out ts))"

definition xmlSecTransformStateFinal :: "xmlSecEnv \<Rightarrow> xmlSecTransformState \<Rightarrow> string option" where
  "xmlSecTransformStateFinal env transState =
     runTransforms env (ts_data transState) (ts_transforms transState)"

text \<open>
  \<open>xmlSecTransformStateDestroy\<close> releases the state and the transforms it owns.
\<close>

definition xmlSecTransformStateDestroy :: "xmlSecTransformState \<Rightarrow> xmlSecHeap \<Rightarrow> xmlSecHeap" where
  "xmlSecTransformStateDestroy transState h =
     release TransformStateObj (xmlSecBinTransformDestroyAll (ts_transforms transState) h)"

text \<open>
  The loop that moves the transforms of the Session, head first, onto the transform
  state. It returns the transform state, the transform whose update failed (if any) and
  the transforms still linked from \<open>state->first\<close>.
\<close>

fun moveTransforms ::
  "xmlSecEnv \<Rightarrow> xmlSecTransformState \<Rightarrow> xmlSecTransform list \<Rightarrow>
   xmlSecTransformState \<times> xmlSecTransform option \<times> xmlSecTransform list" where
  "moveTransforms env transState [] = (transState, None, [])"
| "moveTransforms env transState (transform # rest) =
     (case xmlSecTransformStateUpdate env transState transform of
        None \<Rightarrow> (transState, Some transform, rest)
      | Some transState' \<Rightarrow> moveTransforms env transState' rest)"

text \<open>The label \<open>done\<close>: the URI string and the transform state are released.\<close>

definition xmlSecCipherReferenceNodeRead_done ::
  "string option \<Rightarrow> xmlSecTransformState option \<Rightarrow> xmlSecHeap \<Rightarrow> xmlSecHeap" where
  "xmlSecCipherReferenceNodeRead_done uri transState h =
     (let h1 = releaseIf (uri \<noteq> None) UriObj h in
      case transState of
        None \<Rightarrow> h1
      | Some ts \<Rightarrow> xmlSecTransformStateDestroy ts h1)"

definition xmlSecCipherReferenceNodeRead ::
  "xmlSecEnv \<Rightarrow> xmlNode \<Rightarrow> xmlSecHeap \<Rightarrow> xmlSecRet \<times> xmlSecHeap" where
  "xmlSecCipherReferenceNodeRead env cipherReferenceNode h =
     (let cs = children_of cipherReferenceNode;
          cur = xmlSecGetNextElementNode cs 0;
          uri = xmlGetProp cipherReferenceNode ''URI''
      in case xmlSecTransformStateCreate env uri of
           None \<Rightarrow>
             (Failure,
              xmlSecCipherReferenceNodeRead_done uri None
                (xmlSecError XMLSEC_ERRORS_R_XMLSEC_FAILED h))
         | Some transState \<Rightarrow>
             (case (case cur of
                      None \<Rightarrow> Some (transState, None)
                    | Some c \<Rightarrow>
                        if xmlSecCheckNodeName (cs ! c) ''Transforms'' xmlSecEncNs
                        then map_option (\<lambda>ts. (ts, xmlSecGetNextElementNode cs (Suc c)))
                               (xmlSecTransformsNodeRead env transState (cs ! c))
                        else Some (transState, cur)) of
                None \<Rightarrow>
                  (Failure,
                   xmlSecCipherReferenceNodeRead_done uri (Some transState)
                     (xmlSecError XMLSEC_ERRORS_R_XMLSEC_FAILED h))
              | Some (transState1, cur1) \<Rightarrow>
                  if cur1 \<noteq> None
                  then (Failure,
                        xmlSecCipherReferenceNodeRead_done uri (Some transState1)
                          (xmlSecError XMLSEC_ERRORS_R_INVALID_NODE h))
                  else (case moveTransforms env transState1 (st_first (h_state h)) of
                          (transState2, Some transform, rest) \<Rightarrow>
                            (Failure,
                             xmlSecCipherReferenceNodeRead_done uri (Some transState2)
                               (xmlSecBinTransformDestroyAll [transform]
                                  (xmlSecError XMLSEC_ERRORS_R_XMLSEC_FAILED
                                     (h\<lparr>h_state := (h_state h)\<lparr>st_first := rest\<rparr>\<rparr>))))
                        | (transState2, None, rest) \<Rightarrow>
                            (let h1 = h\<lparr>h_state := (h_state h)\<lparr>st_first := [], st_last := None\<rparr>\<rparr> in
                             case xmlSecTransformStateFinal env transState2 of
                               None \<Rightarrow>
                                 (Failure,
                                  xmlSecCipherReferenceNodeRead_done uri (Some transState2)
                                    (xmlSecError XMLSEC_ERRORS_R_XMLSEC_FAILED h1))
                             | Some curBuf \<Rightarrow>
                                 (Success,
                                  xmlSecCipherReferenceNodeRead_done uri (Some transState2)
                                    (h1\<lparr>h_res := (h_res h1)\<lparr>res_buffer := Some curBuf\<rparr>\<rparr>))))))"

text \<open>
  \<open>xmlSecCipherDataNodeRead\<close>: \<open>CipherValue\<close> or \<open>CipherReference\<close> first, nothing
  after it.
\<close>

definition xmlSecCipherDataNodeRead ::
  "xmlSecEnv \<Rightarrow> xmlNode \<Rightarrow> xmlSecHeap \<Rightarrow> xmlSecRet \<times> xmlSecHeap" where
  "xmlSecCipherDataNodeRead env cipherDataNode h =
     (let cs = children_of cipherDataNode;
          cur = xmlSecGetNextElementNode cs 0
      in case (case cur of
                 None \<Rightarrow> (Success, h, None)
               | Some c \<Rightarrow>
                   if xmlSecCheckNodeName (cs ! c) ''CipherValue'' xmlSecEncNs
                   then (case xmlSecCipherValueNodeRead env (cs ! c) h of
                           (r, h1) \<Rightarrow>
                             if r \<noteq> Success
                             then (Failure, xmlSecError XMLSEC_ERRORS_R_XMLSEC_FAILED h1, cur)
                             else (Success, h1, xmlSecGetNextElementNode cs (Suc c)))
                   else if xmlSecCheckNodeName (cs ! c) ''CipherReference'' xmlSecEncNs
                   then (case xmlSecCipherReferenceNodeRead env (cs ! c) h of
                           (r, h1) \<Rightarrow>
                             if r \<noteq> Success
                             then (Failure, xmlSecError XMLSEC_ERRORS_R_XMLSEC_FAILED h1, cur)
                             else (Success, h1, xmlSecGetNextElementNode cs (Suc c)))
                   else (Success, h, cur)) of
           (r, h1, cur1) \<Rightarrow>
             if r \<noteq> Success then (Failure, h1)
             else if cur1 \<noteq> None then (Failure, xmlSecError XMLSEC_ERRORS_R_INVALID_NODE h1)
             else (Success, h1))"

section \<open>The public operations\<close>

text \<open>
  The node, context and source arguments are non-null by their type (each operation
  returns -1 at once on a null one); \<open>key\<close> may be NULL; \<open>result\<close> says whether the
  caller passed a place for the Result. All exits after the Result and the Session were
  created go through \<open>xmlSecEncResultDestroy\<close> and \<open>xmlSecEncStateDestroy\<close> in the
  order the source calls them.
\<close>

definition failBoth :: "xmlSecHeap \<Rightarrow> xmlSecRet \<times> xmlSecHeap" where
  "failBoth h =
     (Failure, xmlSecEncStateDestroy (xmlSecEncResultDestroy (xmlSecError XMLSEC_ERRORS_R_XMLSEC_FAILED h)))"

definition failBothStateFirst :: "xmlSecHeap \<Rightarrow> xmlSecRet \<times> xmlSecHeap" where
  "failBothStateFirst h =
     (Failure, xmlSecEncResultDestroy (xmlSecEncStateDestroy (xmlSecError XMLSEC_ERRORS_R_XMLSEC_FAILED h)))"

definition cleanup :: "bool \<Rightarrow> xmlSecHeap \<Rightarrow> xmlSecRet \<times> xmlSecHeap" where
  "cleanup result h =
     (Success,
      xmlSecEncStateDestroy
        (if result then h\<lparr>h_out := Some (h_res h)\<rparr> else xmlSecEncResultDestroy h))"

definition withChain :: "xmlSecTransform list \<Rightarrow> xmlSecHeap \<Rightarrow> xmlSecHeap" where
  "withChain chain h = h\<lparr>h_state := (h_state h)\<lparr>st_first := chain\<rparr>\<rparr>"

definition xmlSecEncryptMemory ::
  "xmlSecEnv \<Rightarrow> xmlSecEncCtx \<Rightarrow> xmlSecKey option \<Rightarrow> xmlNode \<Rightarrow> string \<Rightarrow> bool \<Rightarrow>
   xmlSecRet \<times> xmlSecHeap" where
  "xmlSecEncryptMemory env ctx key encNode buf result =
     (case xmlSecEncResultCreate env True (initHeap ctx encNode) of
        (r0, h0) \<Rightarrow>
          if r0 \<noteq> Success then (Failure, xmlSecError XMLSEC_ERRORS_R_XMLSEC_FAILED h0)
          else (case xmlSecEncResultSetKey env key h0 of
                  (r1, h1) \<Rightarrow>
                    if r1 \<noteq> Success then (r1, h1)
                    else (case xmlSecEncStateCreate env True (xmlSecAddIDs h1) of
                            (r2, h2) \<Rightarrow>
                              if r2 \<noteq> Success
                              then (Failure,
                                    xmlSecEncResultDestroy
                                      (xmlSecError XMLSEC_ERRORS_R_XMLSEC_FAILED h2))
                              else (case xmlSecBinTransformWrite (st_first (h_state h2)) buf of
                                      None \<Rightarrow> failBoth h2
                                    | Some written \<Rightarrow>
                                        (case xmlSecBinTransformFlush env written of
                                           None \<Rightarrow> failBoth (withChain written h2)
                                         | Some flushed \<Rightarrow>
                                             (case xmlSecEncStateWriteResult (withChain flushed h2) of
                                                (r3, h3) \<Rightarrow>
                                                  if r3 \<noteq> Success then failBothStateFirst h3
                                                  else cleanup result h3))))))"

text \<open>
  The pull loop of \<open>xmlSecEncryptUri\<close>:
  \<open>do { ret = xmlSecBinTransformRead(state->last, buf, sizeof(buf)); } while(ret > 0);\<close>.
  It need not end; \<open>None\<close> is the run that never returns.
\<close>

partial_function (option) xmlSecEncryptUri_read ::
  "xmlSecEnv \<Rightarrow> xmlSecTransform list \<Rightarrow> (int \<times> xmlSecTransform list) option" where
  "xmlSecEncryptUri_read env chain =
     (case env_binRead env chain of
        (ret, chain') \<Rightarrow>
          if ret > 0 then xmlSecEncryptUri_read env chain' else Some (ret, chain'))"

text \<open>
  Modelled from the spec: \<open>xmlSecInputUriTransformOpen\<close> opens the URI on the input
  transform, which then holds the octets to read.
\<close>

definition xmlSecInputUriTransformOpen ::
  "xmlSecEnv \<Rightarrow> xmlSecTransform \<Rightarrow> string \<Rightarrow> xmlSecTransform option" where
  "xmlSecInputUriTransformOpen env inputUri uri =
     map_option (\<lambda>d. inputUri\<lparr>t_buf := d\<rparr>) (env_uriOpen env uri)"

definition xmlSecEncryptUri ::
  "xmlSecEnv \<Rightarrow> xmlSecEncCtx \<Rightarrow> xmlSecKey option \<Rightarrow> xmlNode \<Rightarrow> string \<Rightarrow> bool \<Rightarrow>
   (xmlSecRet \<times> xmlSecHeap) option" where
  "xmlSecEncryptUri env ctx key encNode uri result =
     (case xmlSecEncResultCreate env True (initHeap ctx encNode) of
        (r0, h0) \<Rightarrow>
          if r0 \<noteq> Success then Some (Failure, xmlSecError XMLSEC_ERRORS_R_XMLSEC_FAILED h0)
          else (case xmlSecEncResultSetKey env key h0 of
                  (r1, h1) \<Rightarrow>
                    if r1 \<noteq> Success then Some (r1, h1)
                    else (case xmlSecEncStateCreate env True (xmlSecAddIDs h1) of
                            (r2, h2) \<Rightarrow>
                              if r2 \<noteq> Success
                              then Some (Failure,
                                         xmlSecEncResultDestroy
                                           (xmlSecError XMLSEC_ERRORS_R_XMLSEC_FAILED h2))
                              else (case xmlSecTransformCreate env xmlSecInputUri h2 of
                                      (None, h3) \<Rightarrow> Some (failBoth h3)
                                    | (Some inputUri, h3) \<Rightarrow>
                                        (case xmlSecInputUriTransformOpen env inputUri uri of
                                           None \<Rightarrow>
                                             Some (failBoth (xmlSecTransformDestroy inputUri h3))
                                         | Some opened \<Rightarrow>
                                             (case xmlSecEncStateAddFirstTransform opened h3 of
                                                (r4, h4) \<Rightarrow>
                                                  if r4 \<noteq> Success
                                                  then Some (failBoth (xmlSecTransformDestroy opened h4))
                                                  else (case xmlSecEncryptUri_read env (st_first (h_state h4)) of
                                                          None \<Rightarrow> None
                                                        | Some (ret, chain) \<Rightarrow>
                                                            if ret < 0 then Some (failBoth (withChain chain h4))
                                                            else (case xmlSecEncStateWriteResult (withChain chain h4) of
                                                                    (r5, h5) \<Rightarrow>
                                                                      if r5 \<noteq> Success
                                                                      then Some (failBothStateFirst h5)
                                                                      else Some (cleanup result h5)))))))))"

text \<open>
  Modelled from the spec: \<open>xmlSecReplaceNode\<close> puts the new node at the place of the
  old one; \<open>xmlSecReplaceContent\<close> replaces the children of the node by the new node;
  \<open>xmlSecReplaceNodeBuffer\<close> puts the nodes parsed from the buffer at the place of
  the node. Each gives what then stands at the place of the spliced node, \<open>None\<close> on
  failure.
\<close>

definition xmlSecReplaceNode :: "xmlNode \<Rightarrow> xmlNode \<Rightarrow> xmlNode list option" where
  "xmlSecReplaceNode node newNode = Some [newNode]"

definition xmlSecReplaceContent :: "xmlNode \<Rightarrow> xmlNode \<Rightarrow> xmlNode list option" where
  "xmlSecReplaceContent node newNode =
     (if is_element node then Some [with_children node [newNode]] else None)"

definition xmlSecReplaceNodeBuffer :: "xmlSecEnv \<Rightarrow> xmlNode \<Rightarrow> string \<Rightarrow> xmlNode list option" where
  "xmlSecReplaceNodeBuffer env node buffer = env_parse env buffer"

text \<open>What \<open>xmlSecEncryptXmlNode\<close> reads into its buffer; \<open>None\<close> is the unknown type.\<close>

definition xmlSecEncryptXmlNode_dump ::
  "xmlSecEnv \<Rightarrow> xmlSecHeap \<Rightarrow> xmlNode \<Rightarrow> string option" where
  "xmlSecEncryptXmlNode_dump env h src =
     (if ctx_ignoreType (h_ctx h) \<or> res_type (h_res h) = None then Some (env_nodeDump env src)
      else if res_type (h_res h) = Some xmlSecEncTypeElement then Some (env_nodeDump env src)
      else if res_type (h_res h) = Some xmlSecEncTypeContent
      then Some (concat (map (env_nodeDump env) (children_of src)))
      else None)"

text \<open>The splice at the end of \<open>xmlSecEncryptXmlNode\<close>.\<close>

definition xmlSecEncryptXmlNode_replace ::
  "xmlSecHeap \<Rightarrow> xmlNode \<Rightarrow> bool \<Rightarrow> xmlSecRet \<times> xmlSecHeap" where
  "xmlSecEncryptXmlNode_replace h src result =
     (if \<not> ctx_ignoreType (h_ctx h) \<and> res_type (h_res h) \<noteq> None
      then (if res_type (h_res h) = Some xmlSecEncTypeElement
            then (case xmlSecReplaceNode src (h_encNode h) of
                    None \<Rightarrow> failBothStateFirst h
                  | Some nodes \<Rightarrow>
                      cleanup result
                        (h\<lparr>h_spliced := Some nodes, h_res := (h_res h)\<lparr>res_replaced := True\<rparr>\<rparr>))
            else if res_type (h_res h) = Some xmlSecEncTypeContent
            then (case xmlSecReplaceContent src (h_encNode h) of
                    None \<Rightarrow> failBothStateFirst h
                  | Some nodes \<Rightarrow>
                      cleanup result
                        (h\<lparr>h_spliced := Some nodes, h_res := (h_res h)\<lparr>res_replaced := True\<rparr>\<rparr>))
            else cleanup result h)
      else cleanup result h)"

definition xmlSecEncryptXmlNode ::
  "xmlSecEnv \<Rightarrow> xmlSecEncCtx \<Rightarrow> xmlSecKey option \<Rightarrow> xmlNode \<Rightarrow> xmlNode \<Rightarrow> bool \<Rightarrow>
   xmlSecRet \<times> xmlSecHeap" where
  "xmlSecEncryptXmlNode env ctx key encNode src result =
     (case xmlSecEncResultCreate env True (initHeap ctx encNode) of
        (r0, h0) \<Rightarrow>
          if r0 \<noteq> Success then (Failure, xmlSecError XMLSEC_ERRORS_R_XMLSEC_FAILED h0)
          else (case xmlSecEncResultSetKey env key h0 of
                  (r1, h1) \<Rightarrow>
                    if r1 \<noteq> Success then (r1, h1)
                    else (case xmlSecEncStateCreate env True (xmlSecAddIDs h1) of
                            (r2, h2) \<Rightarrow>
                              if r2 \<noteq> Success
                              then (Failure,
                                    xmlSecEncResultDestroy
                                      (xmlSecError XMLSEC_ERRORS_R_XMLSEC_FAILED h2))
                              else if \<not> env_bufferAlloc env then failBoth h2
                              else (case xmlSecEncryptXmlNode_dump env h2 src of
                                      None \<Rightarrow>
                                        (Failure,
                                         xmlSecEncStateDestroy
                                           (xmlSecEncResultDestroy
                                              (release XmlBufferObj
                                                 (xmlSecError XMLSEC_ERRORS_R_INVALID_TYPE h2))))
                                    | Some buffer \<Rightarrow>
                                        (case xmlSecBinTransformWrite (st_first (h_state h2)) buffer of
                                           None \<Rightarrow> failBoth (release XmlBufferObj h2)
                                         | Some written \<Rightarrow>
                                             (case xmlSecBinTransformFlush env written of
                                                None \<Rightarrow>
                                                  failBoth (withChain written (release XmlBufferObj h2))
                                              | Some flushed \<Rightarrow>
                                                  (case xmlSecEncStateWriteResult
                                                          (withChain flushed (release XmlBufferObj h2)) of
                                                     (r3, h3) \<Rightarrow>
                                                       if r3 \<noteq> Success then failBothStateFirst h3
                                                       else xmlSecEncryptXmlNode_replace h3 src result)))))))"

text \<open>The splice at the end of \<open>xmlSecDecrypt\<close>.\<close>

definition xmlSecDecrypt_replace ::
  "xmlSecEnv \<Rightarrow> xmlSecHeap \<Rightarrow> string \<Rightarrow> bool \<Rightarrow> xmlSecRet \<times> xmlSecHeap" where
  "xmlSecDecrypt_replace env h buffer result =
     (if \<not> ctx_ignoreType (h_ctx h) \<and> res_type (h_res h) \<noteq> None
      then (if res_type (h_res h) = Some xmlSecEncTypeElement
            then (case xmlSecReplaceNodeBuffer env (h_encNode h) buffer of
                    None \<Rightarrow> failBoth h
                  | Some nodes \<Rightarrow>
                      cleanup result
                        (h\<lparr>h_spliced := Some nodes, h_res := (h_res h)\<lparr>res_replaced := True\<rparr>\<rparr>))
            else if res_type (h_res h) = Some xmlSecEncTypeContent
            then (case xmlSecReplaceNodeBuffer env (h_encNode h) buffer of
                    None \<Rightarrow> failBoth h
                  | Some nodes \<Rightarrow>
                      cleanup result
                        (h\<lparr>h_spliced := Some nodes, h_res := (h_res h)\<lparr>res_replaced := True\<rparr>\<rparr>))
            else cleanup result h)
      else cleanup result h)"

definition xmlSecDecrypt ::
  "xmlSecEnv \<Rightarrow> xmlSecEncCtx \<Rightarrow> xmlSecKey option \<Rightarrow> xmlNode \<Rightarrow> bool \<Rightarrow> xmlSecRet \<times> xmlSecHeap" where
  "xmlSecDecrypt env ctx key encNode result =
     (case xmlSecEncResultCreate env False (initHeap ctx encNode) of
        (r0, h0) \<Rightarrow>
          if r0 \<noteq> Success then (Failure, xmlSecError XMLSEC_ERRORS_R_XMLSEC_FAILED h0)
          else (case xmlSecEncResultSetKey env key h0 of
                  (r1, h1) \<Rightarrow>
                    if r1 \<noteq> Success then (r1, h1)
                    else (case xmlSecEncStateCreate env False (xmlSecAddIDs h1) of
                            (r2, h2) \<Rightarrow>
                              if r2 \<noteq> Success
                              then (Failure,
                                    xmlSecEncResultDestroy
                                      (xmlSecError XMLSEC_ERRORS_R_XMLSEC_FAILED h2))
                              else (case st_cipherDataNode (h_state h2) of
                                      None \<Rightarrow>
                                        (Failure,
                                         xmlSecEncStateDestroy
                                           (xmlSecEncResultDestroy
                                              (xmlSecError XMLSEC_ERRORS_R_NODE_NOT_FOUND h2)))
                                    | Some i \<Rightarrow>
                                        (case xmlSecCipherDataNodeRead env
                                                (children_of (h_encNode h2) ! i) h2 of
                                           (r3, h3) \<Rightarrow>
                                             (case (if r3 \<noteq> Success then None
                                                    else res_buffer (h_res h3)) of
                                                None \<Rightarrow> failBoth h3
                                              | Some buffer \<Rightarrow>
                                                  xmlSecDecrypt_replace env h3 buffer result))))))"

section \<open>Notions used to state the claims\<close>

text \<open>
  An operation was rejected and left everything untouched: it did not succeed, the
  template is the one passed in, nothing was spliced and no Result was handed out; and
  when the allocations and the key duplication succeed, it returned -1 and the reports
  are "invalid data" followed by the two reports of the callers.
\<close>

definition rejectedUntouched ::
  "xmlSecEnv \<Rightarrow> xmlSecKey option \<Rightarrow> xmlNode \<Rightarrow> xmlSecRet \<times> xmlSecHeap \<Rightarrow> bool" where
  "rejectedUntouched env key encNode outcome =
     (fst outcome \<noteq> Success \<and> h_encNode (snd outcome) = encNode \<and>
      h_spliced (snd outcome) = None \<and> h_out (snd outcome) = None \<and>
      (env_resultAlloc env \<and> env_stateAlloc env \<and>
       (\<forall>k. key = Some k \<longrightarrow> env_keyDuplicate env k \<noteq> None) \<longrightarrow>
       fst outcome = Failure \<and>
       h_reports (snd outcome) =
         [XMLSEC_ERRORS_R_INVALID_DATA, XMLSEC_ERRORS_R_XMLSEC_FAILED,
          XMLSEC_ERRORS_R_XMLSEC_FAILED]))"

text \<open>
  The hints the driver sets on the key manager context of \<open>ctx\<close> for a method
  descriptor and a direction, and the \<open>KeyInfo\<close> node at a cursor of the template (NULL
  when the cursor is NULL or not at a \<open>KeyInfo\<close>).
\<close>

definition keyHints :: "xmlSecEncCtx \<Rightarrow> bool \<Rightarrow> xmlSecTransformId \<Rightarrow> xmlSecKeysMngrCtx" where
  "keyHints ctx encrypt m =
     (ctx_keysMngrCtx ctx)
       \<lparr>keyType := (if encrypt then id_encKeyType m else id_decKeyType m),
        keyUsage := (if encrypt then xmlSecKeyUsageEncrypt else xmlSecKeyUsageDecrypt),
        keyId := id_keyId m\<rparr>"

definition keyInfoAt :: "xmlNode \<Rightarrow> nat option \<Rightarrow> xmlNode option" where
  "keyInfoAt encNode cur =
     (case cur of
        None \<Rightarrow> None
      | Some c \<Rightarrow>
          if xmlSecCheckNodeName (children_of encNode ! c) ''KeyInfo'' xmlSecDSigNs
          then Some (children_of encNode ! c)
          else None)"

text \<open>
  The walk of the driver over the children of the template, as functions of the template:
  the descriptor of the method it instantiates (from the registry when the first element
  child is an \<open>EncryptionMethod\<close>, the default of the context otherwise), the cursor
  after the optional \<open>EncryptionMethod\<close>, and the cursor after the optional \<open>KeyInfo\<close>,
  where the driver expects the \<open>CipherData\<close>.
\<close>

definition methodOf :: "xmlSecEnv \<Rightarrow> xmlSecEncCtx \<Rightarrow> xmlNode \<Rightarrow> xmlSecTransformId option" where
  "methodOf env ctx encNode =
     (let cs = children_of encNode in
      case xmlSecGetNextElementNode cs 0 of
        None \<Rightarrow> ctx_encryptionMethod ctx
      | Some c \<Rightarrow>
          if xmlSecCheckNodeName (cs ! c) ''EncryptionMethod'' xmlSecEncNs
          then (case xmlGetProp (cs ! c) ''Algorithm'' of
                  None \<Rightarrow> None
                | Some href \<Rightarrow> env_registry env href)
          else ctx_encryptionMethod ctx)"

definition afterMethod :: "xmlNode \<Rightarrow> nat option" where
  "afterMethod encNode =
     (let cs = children_of encNode in
      case xmlSecGetNextElementNode cs 0 of
        None \<Rightarrow> None
      | Some c \<Rightarrow>
          if xmlSecCheckNodeName (cs ! c) ''EncryptionMethod'' xmlSecEncNs
          then xmlSecGetNextElementNode cs (Suc c)
          else Some c)"



subsection \<open>Well-formed templates\<close>


text \<open>
  The cursor walk of \<open>xmlSecEncryptedDataNodeRead\<close> over a well-formed template: the
  first element child is the \<open>EncryptionMethod\<close> at \<open>emIdx\<close> (when there is one), the
  next is the \<open>KeyInfo\<close> at \<open>kiIdx\<close> (when there is one), the next is the \<open>CipherData\<close>
  at \<open>i\<close>.
\<close>

definition templateNav :: "xmlNode list \<Rightarrow> nat option \<Rightarrow> nat option \<Rightarrow> nat \<Rightarrow> bool" where
  "templateNav cs emIdx kiIdx i =
     (let afterMethod = (case kiIdx of Some c1 \<Rightarrow> c1 | None \<Rightarrow> i) in
      (case emIdx of
         Some c0 \<Rightarrow>
           xmlSecGetNextElementNode cs 0 = Some c0 \<and>
           xmlSecCheckNodeName (cs ! c0) ''EncryptionMethod'' xmlSecEncNs \<and>
           xmlSecGetNextElementNode cs (Suc c0) = Some afterMethod
       | None \<Rightarrow>
           xmlSecGetNextElementNode cs 0 = Some afterMethod \<and>
           \<not> xmlSecCheckNodeName (cs ! afterMethod) ''EncryptionMethod'' xmlSecEncNs) \<and>
      (case kiIdx of
         Some c1 \<Rightarrow>
           xmlSecCheckNodeName (cs ! c1) ''KeyInfo'' xmlSecDSigNs \<and>
           xmlSecGetNextElementNode cs (Suc c1) = Some i \<and> c1 < i
       | None \<Rightarrow> \<not> xmlSecCheckNodeName (cs ! i) ''KeyInfo'' xmlSecDSigNs) \<and>
      xmlSecCheckNodeName (cs ! i) ''CipherData'' xmlSecEncNs \<and> i < length cs)"

text \<open>
  The descriptor the driver instantiates: the one the registry gives for the
  \<open>Algorithm\<close> of the \<open>EncryptionMethod\<close> node, or the default of the context.
\<close>

definition methodAt :: "xmlSecEnv \<Rightarrow> xmlSecEncCtx \<Rightarrow> xmlNode list \<Rightarrow> nat option \<Rightarrow> xmlSecTransformId option" where
  "methodAt env ctx cs emIdx =
     (case emIdx of
        Some c0 \<Rightarrow>
          (case xmlGetProp (cs ! c0) ''Algorithm'' of
             None \<Rightarrow> None
           | Some href \<Rightarrow> env_registry env href)
      | None \<Rightarrow> ctx_encryptionMethod ctx)"

text \<open>The Result after the four attributes and the method were recorded on it.\<close>

definition attrsRead :: "xmlSecHeap \<Rightarrow> xmlSecTransformId \<Rightarrow> xmlSecEncResult" where
  "attrsRead h tid =
     (h_res h)\<lparr>res_id := xmlGetProp (h_encNode h) ''Id'',
               res_type := xmlGetProp (h_encNode h) ''Type'',
               res_mimeType := xmlGetProp (h_encNode h) ''MimeType'',
               res_encoding := xmlGetProp (h_encNode h) ''Encoding'',
               res_encryptionMethod := Some tid\<rparr>"

text \<open>The template with the \<open>KeyInfo\<close> node (if any) as the key-info writer left it.\<close>

definition keyInfoWritten :: "xmlNode \<Rightarrow> nat option \<Rightarrow> xmlNode \<Rightarrow> xmlNode" where
  "keyInfoWritten encNode kiIdx written =
     (case kiIdx of Some c1 \<Rightarrow> replace_child encNode c1 written | None \<Rightarrow> encNode)"

text \<open>
  A well-formed \<open>CipherData\<close> for a write: no element child, or a \<open>CipherValue\<close> at
  \<open>cvIdx\<close> and no element after it.
\<close>

definition cipherDataNav :: "xmlNode list \<Rightarrow> nat option \<Rightarrow> bool" where
  "cipherDataNav cs cvIdx =
     (case cvIdx of
        None \<Rightarrow> xmlSecGetNextElementNode cs 0 = None
      | Some v \<Rightarrow>
          xmlSecGetNextElementNode cs 0 = Some v \<and>
          xmlSecCheckNodeName (cs ! v) ''CipherValue'' xmlSecEncNs \<and>
          xmlSecGetNextElementNode cs (Suc v) = None)"

text \<open>
  The \<open>CipherData\<close> node after the write: a \<open>CipherValue\<close> appended, or the one at
  \<open>cvIdx\<close> overwritten.
\<close>

definition cipherValueWritten :: "xmlNode \<Rightarrow> nat option \<Rightarrow> string \<Rightarrow> xmlNode" where
  "cipherValueWritten cd cvIdx buf =
     (case cvIdx of
        None \<Rightarrow>
          with_children cd
            (children_of cd @
             [XmlElement ''CipherValue'' xmlSecEncNs [] [XmlText (CHR 0x0A # buf @ [CHR 0x0A])]])
      | Some v \<Rightarrow> replace_child cd v (writeCipherValue (children_of cd ! v) buf))"

subsection \<open>The \<open>Type\<close> attribute\<close>

text \<open>
  What the splice step reads and writes is the same in two heaps: the splice, the Result
  handed out, the \<open>ignoreType\<close> flag, and the \<open>Type\<close> and the \<open>replaced\<close> flag of the
  Result.
\<close>

definition framed :: "xmlSecHeap \<Rightarrow> xmlSecHeap \<Rightarrow> bool" where
  "framed h h' =
     (h_spliced h' = h_spliced h \<and> h_out h' = h_out h \<and>
      ctx_ignoreType (h_ctx h') = ctx_ignoreType (h_ctx h) \<and>
      res_type (h_res h') = res_type (h_res h) \<and>
      res_replaced (h_res h') = res_replaced (h_res h))"

text \<open>The heap of an operation run with the \<open>ignoreType\<close> flag of the context set.\<close>

definition ignoringType :: "xmlSecHeap \<Rightarrow> xmlSecHeap" where
  "ignoringType h = h\<lparr>h_ctx := (h_ctx h)\<lparr>ctx_ignoreType := True\<rparr>\<rparr>"

text \<open>
  The common prologue of the public operations went through: the Result was created,
  the caller's key duplicated, and the Session created from the template.
\<close>

definition sessionCreated ::
  "xmlSecEnv \<Rightarrow> xmlSecEncCtx \<Rightarrow> xmlSecKey option \<Rightarrow> xmlNode \<Rightarrow> bool \<Rightarrow> bool" where
  "sessionCreated env ctx key encNode encrypt =
     (case xmlSecEncResultCreate env encrypt (initHeap ctx encNode) of
        (r0, h0) \<Rightarrow>
          r0 = Success \<and>
          (case xmlSecEncResultSetKey env key h0 of
             (r1, h1) \<Rightarrow>
               r1 = Success \<and> fst (xmlSecEncStateCreate env encrypt (xmlSecAddIDs h1)) = Success))"

subsection \<open>The exits of the encrypt operations\<close>

text \<open>
  How an encrypt operation can end once its Session \<open>hs\<close> exists: by an error exit that
  leaves the context alone, or by \<open>xmlSecEncStateWriteResult\<close>, on a heap that differs
  from \<open>hs\<close> in the chain only, followed by the regular exit (in
  \<open>xmlSecEncryptXmlNode\<close>, by the splice).
\<close>

definition sessionExit :: "bool \<Rightarrow> xmlNode \<Rightarrow> xmlSecHeap \<Rightarrow> xmlSecRet \<times> xmlSecHeap \<Rightarrow> bool" where
  "sessionExit result src hs outcome =
     (fst outcome \<noteq> Success \<and> h_ctx (snd outcome) = h_ctx hs \<or>
      (\<exists>hw. h_ctx hw = h_ctx hs \<and> h_res hw = h_res hs \<and> h_encNode hw = h_encNode hs \<and>
            st_cipherDataNode (h_state hw) = st_cipherDataNode (h_state hs) \<and>
            (outcome = (if fst (xmlSecEncStateWriteResult hw) \<noteq> Success
                        then failBothStateFirst (snd (xmlSecEncStateWriteResult hw))
                        else cleanup result (snd (xmlSecEncStateWriteResult hw))) \<or>
             outcome = (if fst (xmlSecEncStateWriteResult hw) \<noteq> Success
                        then failBothStateFirst (snd (xmlSecEncStateWriteResult hw))
                        else xmlSecEncryptXmlNode_replace (snd (xmlSecEncStateWriteResult hw))
                               src result))))"

subsection \<open>Key resolution through the key manager\<close>

text \<open>
  What an operation called without a key shows of the key resolution, for the method
  \<open>tid\<close> and the callback \<open>getKey\<close>: the key manager context holds the hints; when
  the callback, applied to the \<open>KeyInfo\<close> node after the method (or NULL) and the hints,
  returns no key, the operation returns -1 with "key not found" as its first report,
  followed by the reports of the two callers, the template untouched and no Result
  handed out; when it returns a key and the operation succeeds, the Result handed out
  holds that key.
\<close>

definition keyResolved ::
  "(xmlNode option \<Rightarrow> xmlSecKeysMngrCtx \<Rightarrow> xmlSecKey option) \<Rightarrow> xmlSecEncCtx \<Rightarrow> xmlNode \<Rightarrow>
   bool \<Rightarrow> xmlSecTransformId \<Rightarrow> bool \<Rightarrow> xmlSecRet \<times> xmlSecHeap \<Rightarrow> bool" where
  "keyResolved getKey ctx encNode encrypt tid result outcome =
     (ctx_keysMngrCtx (h_ctx (snd outcome)) = keyHints ctx encrypt tid \<and>
      (case getKey (keyInfoAt encNode (afterMethod encNode)) (keyHints ctx encrypt tid) of
         None \<Rightarrow>
           fst outcome = Failure \<and>
           h_reports (snd outcome) =
             [XMLSEC_ERRORS_R_KEY_NOT_FOUND, XMLSEC_ERRORS_R_XMLSEC_FAILED,
              XMLSEC_ERRORS_R_XMLSEC_FAILED] \<and>
           h_encNode (snd outcome) = encNode \<and> h_out (snd outcome) = None
       | Some k \<Rightarrow>
           (fst outcome = Success \<and> result \<longrightarrow>
              map_option res_key (h_out (snd outcome)) = Some (Some k))))"

subsection \<open>The write of the result\<close>



section \<open>Sample data for the closed instances\<close>

text \<open>
  A descriptor of the shape the registry holds for a block cipher; the closed instances
  below use it as the algorithm of their templates.
\<close>

definition sampleCipher :: xmlSecTransformId where
  "sampleCipher =
     \<lparr>id_name = ''aes128-cbc'', id_type = xmlSecTransformTypeBinary,
      id_href = ''http://www.w3.org/2001/04/xmlenc#aes128-cbc'',
      id_encKeyType = 0, id_decKeyType = 0, id_keyId = ''aes''\<rparr>"

text \<open>
  A toy registry for the closed instances: the cipher prefixes the stream with the key
  value and removes the prefix again; the codec writes \<open>=\<close> before every octet and,
  decoding, skips line feeds between the pairs.
\<close>

fun sampleDecode :: "string \<Rightarrow> string option" where
  "sampleDecode [] = Some []"
| "sampleDecode [a] = (if a = CHR 0x0A then Some [] else None)"
| "sampleDecode (a # b # r) =
     (if a = CHR ''='' then map_option (\<lambda>x. b # x) (sampleDecode r)
      else if a = CHR 0x0A then sampleDecode (b # r)
      else None)"

definition sampleExecute ::
  "xmlSecTransformId \<Rightarrow> bool \<Rightarrow> string option \<Rightarrow> string \<Rightarrow> string option" where
  "sampleExecute tid encrypt key input =
     (if tid = xmlSecEncBase64Encode then Some (concat (map (\<lambda>x. [CHR ''='', x]) input))
      else if tid = xmlSecEncBase64Decode then sampleDecode input
      else if tid = sampleCipher
      then (case key of
              None \<Rightarrow> None
            | Some k \<Rightarrow>
                if encrypt then Some (k @ input)
                else if take (length k) input = k then Some (drop (length k) input)
                else None)
      else None)"

definition sampleKey :: xmlSecKey where
  "sampleKey = \<lparr>key_id = ''aes'', key_type = 0, key_origin = 1, key_value = ''K''\<rparr>"

definition sampleEnv :: xmlSecEnv where
  "sampleEnv =
     \<lparr>env_resultAlloc = True, env_stateAlloc = True, env_bufferAlloc = True,
      env_keyDuplicate = Some,
      env_registry = (\<lambda>href. if href = id_href sampleCipher then Some sampleCipher else None),
      env_create = (\<lambda>tid. True),
      env_execute = sampleExecute,
      env_addKey = (\<lambda>tid v. True),
      env_keyInfoNodeWrite = (\<lambda>node kctx key ty. Some node),
      env_uriOpen = (\<lambda>uri. None),
      env_binRead = (\<lambda>chain. (0, chain)),
      env_nodeDump = textOf,
      env_parse = (\<lambda>buffer. Some [XmlText buffer]),
      env_loadUri = (\<lambda>uri. Some ''Kremote''),
      env_transformsNodeRead = (\<lambda>node. Some []),
      env_stateUpdate = (\<lambda>t. True)\<rparr>"

definition sampleCtx :: xmlSecEncCtx where
  "sampleCtx =
     \<lparr>ctx_keysMngrCtx = \<lparr>keyType = 0, keyUsage = xmlSecKeyUsageAny, keyId = []\<rparr>,
      ctx_getKey = None, ctx_encryptionMethod = None, ctx_ignoreType = False\<rparr>"

text \<open>A template with an \<open>EncryptionMethod\<close> and the given children of \<open>CipherData\<close>.\<close>

definition sampleTemplate :: "(string \<times> string) list \<Rightarrow> xmlNode list \<Rightarrow> xmlNode" where
  "sampleTemplate props cipherChildren =
     XmlElement ''EncryptedData'' xmlSecEncNs props
       [XmlElement ''EncryptionMethod'' xmlSecEncNs [(''Algorithm'', id_href sampleCipher)] [],
        XmlElement ''CipherData'' xmlSecEncNs [] cipherChildren]"


text \<open>
  A template with text between the elements, a \<open>KeyInfo\<close>, a \<open>CipherValue\<close> that
  holds an old value, and the \<open>Type\<close> of an element.
\<close>

definition sampleFullTemplate :: xmlNode where
  "sampleFullTemplate =
     XmlElement ''EncryptedData'' xmlSecEncNs [(''Type'', xmlSecEncTypeElement)]
       [XmlText [CHR 0x0A],
        XmlElement ''EncryptionMethod'' xmlSecEncNs [(''Algorithm'', id_href sampleCipher)] [],
        XmlElement ''KeyInfo'' xmlSecDSigNs [] [],
        XmlElement ''CipherData'' xmlSecEncNs []
          [XmlElement ''CipherValue'' xmlSecEncNs [] [XmlText ''old'']]]"

text \<open>A template whose \<open>CipherData\<close> refers to a resource outside the document.\<close>

definition sampleReferenceTemplate :: xmlNode where
  "sampleReferenceTemplate =
     sampleTemplate []
       [XmlElement ''CipherReference'' xmlSecEncNs [(''URI'', ''http://example.org/data'')] []]"

text \<open>
  An encrypted document whose \<open>Type\<close> is neither of the two recognised values, and a
  node to encrypt.
\<close>

definition sampleOtherTypeDocument :: xmlNode where
  "sampleOtherTypeDocument =
     sampleTemplate [(''Type'', ''urn:example:other'')]
       [XmlElement ''CipherValue'' xmlSecEncNs [] [XmlText ''=K=h=i'']]"

definition sampleData :: xmlNode where
  "sampleData = XmlElement ''Data'' [] [] [XmlText ''hello'']"



text \<open>
  A key manager callback that finds the sample key only when it is given a \<open>KeyInfo\<close>
  node and the hints of the sample cipher for encryption, and one that never finds a key.
\<close>

definition sampleGetKey :: "xmlNode option \<Rightarrow> xmlSecKeysMngrCtx \<Rightarrow> xmlSecKey option" where
  "sampleGetKey node hints =
     (if node = Some (XmlElement ''KeyInfo'' xmlSecDSigNs [] []) \<and>
         hints = \<lparr>keyType = 0, keyUsage = xmlSecKeyUsageEncrypt, keyId = ''aes''\<rparr>
      then Some sampleKey else None)"

definition sampleNoKey :: "xmlNode option \<Rightarrow> xmlSecKeysMngrCtx \<Rightarrow> xmlSecKey option" where
  "sampleNoKey node hints = None"

text \<open>
  The sample context with each of the two callbacks, and a template without an
  \<open>EncryptionMethod\<close>.
\<close>

definition sampleGetKeyCtx :: xmlSecEncCtx where
  "sampleGetKeyCtx = sampleCtx\<lparr>ctx_getKey := Some sampleGetKey\<rparr>"

definition sampleNoKeyCtx :: xmlSecEncCtx where
  "sampleNoKeyCtx = sampleCtx\<lparr>ctx_getKey := Some sampleNoKey\<rparr>"

definition sampleBareTemplate :: xmlNode where
  "sampleBareTemplate =
     XmlElement ''EncryptedData'' xmlSecEncNs [] [XmlElement ''CipherData'' xmlSecEncNs [] []]"
section \<open>Properties of the template builders\<close>

text \<open>The pull loop is evaluated by its defining equation.\<close>

declare xmlSecEncryptUri_read.simps [code]

lemma schemaOrder_cases:
  "schemaOrder ns \<Longrightarrow> ns \<in> {
     [(''CipherData'', xmlSecEncNs)],
     [(''CipherData'', xmlSecEncNs), (''EncryptionProperties'', xmlSecEncNs)],
     [(''KeyInfo'', xmlSecDSigNs), (''CipherData'', xmlSecEncNs)],
     [(''KeyInfo'', xmlSecDSigNs), (''CipherData'', xmlSecEncNs), (''EncryptionProperties'', xmlSecEncNs)],
     [(''EncryptionMethod'', xmlSecEncNs), (''CipherData'', xmlSecEncNs)],
     [(''EncryptionMethod'', xmlSecEncNs), (''CipherData'', xmlSecEncNs), (''EncryptionProperties'', xmlSecEncNs)],
     [(''EncryptionMethod'', xmlSecEncNs), (''KeyInfo'', xmlSecDSigNs), (''CipherData'', xmlSecEncNs)],
     [(''EncryptionMethod'', xmlSecEncNs), (''KeyInfo'', xmlSecDSigNs), (''CipherData'', xmlSecEncNs), (''EncryptionProperties'', xmlSecEncNs)]}"
  unfolding schemaOrder_def dropOptional_def Let_def
  by (auto split: list.splits if_splits)

lemma check_qname: "is_element c \<Longrightarrow> xmlSecCheckNodeName c name ns = (qname c = (name, ns))"
  by (cases c) (auto simp: qname_def)

lemma create_shape: "xmlSecEncDataCreate i t m e = Some T \<Longrightarrow> tmplShape T"
  unfolding xmlSecEncDataCreate_def tmplShape_def
  by (cases i; cases t; cases m; cases e) (auto simp: schemaOrder_def dropOptional_def qname_def cdShape_def xmlSecEncNs_def xmlSecDSigNs_def)


lemma map_qname_Cons: "map qname cs = x # xs \<Longrightarrow> \<exists>c cs'. cs = c # cs' \<and> qname c = x \<and> map qname cs' = xs"
  by (cases cs) auto

lemma tmplShape_casesE:
  assumes "tmplShape T"
  obtains n s a cs where "T = XmlElement n s a cs" "\<forall>c\<in>set cs. is_element c"
     "schemaOrder (map qname cs)" "\<forall>c\<in>set cs. qname c = (''CipherData'', xmlSecEncNs) \<longrightarrow> cdShape c"
  using assms unfolding tmplShape_def by (cases T) auto

lemmas ns_defs = xmlSecEncNs_def xmlSecDSigNs_def


lemma findIndex_Some: "findIndex P xs = Some i \<Longrightarrow> i < length xs \<and> P (xs ! i)"
proof (induction xs arbitrary: i)
  case Nil
  then show ?case by simp
next
  case (Cons x xs)
  then show ?case by (cases "P x") auto
qed

lemma findIndex_None: "findIndex P xs = None \<longleftrightarrow> (\<forall>x\<in>set xs. \<not> P x)"
  by (induction xs) auto

lemma findIndex_map: "findIndex P (map f xs) = findIndex (\<lambda>x. P (f x)) xs"
  by (induction xs) auto

lemma findIndex_cong: "(\<And>x. x \<in> set xs \<Longrightarrow> P x = Q x) \<Longrightarrow> findIndex P xs = findIndex Q xs"
  by (induction xs) auto

lemma findChild_names:
  "\<forall>c\<in>set cs. is_element c \<Longrightarrow>
   xmlSecFindChild (XmlElement n s a cs) name ns = findIndex (\<lambda>q. q = (name, ns)) (map qname cs)"
proof -
  assume el: "\<forall>c\<in>set cs. is_element c"
  have "findIndex (\<lambda>c. xmlSecCheckNodeName c name ns) cs = findIndex (\<lambda>x. qname x = (name, ns)) cs"
    by (rule findIndex_cong) (simp add: check_qname el)
  then show ?thesis by (simp add: xmlSecFindChild_def findIndex_map)
qed

lemma nextElement_all:
  "\<forall>c\<in>set cs. is_element c \<Longrightarrow>
   xmlSecGetNextElementNode cs 0 = (if cs = [] then None else Some 0)"
  unfolding xmlSecGetNextElementNode_def by (cases cs) auto

lemma qname_simps [simp]:
  "qname (XmlElement n s a cs) = (n, s)"
  "qname (with_children c cs') = qname c"
  "qname (xmlSetProp c k v) = qname c"
  "qname (setPropOpt c k vo) = qname c"
  by (cases c; cases vo; simp add: qname_def)+

lemma is_element_simps [simp]:
  "is_element (with_children c cs') = is_element c"
  "is_element (xmlSetProp c k v) = is_element c"
  "is_element (setPropOpt c k vo) = is_element c"
  by (cases c; cases vo; simp)+

lemma children_of_simps [simp]:
  "children_of (xmlSetProp c k v) = children_of c"
  "children_of (setPropOpt c k vo) = children_of c"
  "is_element c \<Longrightarrow> children_of (with_children c cs') = cs'"
  by (cases c; cases vo; simp)+


lemma names_encMethod:
  "schemaOrder ns \<Longrightarrow> findIndex (\<lambda>q. q = (''EncryptionMethod'', xmlSecEncNs)) ns = None \<Longrightarrow>
   schemaOrder ((''EncryptionMethod'', xmlSecEncNs) # ns)"
  by (drule schemaOrder_cases) (auto simp: schemaOrder_def dropOptional_def ns_defs)

lemma names_keyInfo:
  "schemaOrder ns \<Longrightarrow> findIndex (\<lambda>q. q = (''KeyInfo'', xmlSecDSigNs)) ns = None \<Longrightarrow>
   schemaOrder (case findIndex (\<lambda>q. q = (''EncryptionMethod'', xmlSecEncNs)) ns of
                  Some p \<Rightarrow> take (Suc p) ns @ (''KeyInfo'', xmlSecDSigNs) # drop (Suc p) ns
                | None \<Rightarrow> (''KeyInfo'', xmlSecDSigNs) # ns)"
  by (drule schemaOrder_cases) (auto simp: schemaOrder_def dropOptional_def ns_defs)

lemma names_encProps:
  "schemaOrder ns \<Longrightarrow> findIndex (\<lambda>q. q = (''EncryptionProperties'', xmlSecEncNs)) ns = None \<Longrightarrow>
   schemaOrder (ns @ [(''EncryptionProperties'', xmlSecEncNs)])"
  by (drule schemaOrder_cases) (auto simp: schemaOrder_def dropOptional_def ns_defs)

lemma names_nonempty: "schemaOrder ns \<Longrightarrow> ns \<noteq> []"
  by (drule schemaOrder_cases) auto


lemma cd_insert:
  assumes "\<forall>c\<in>set cs. P c" "P x"
  shows "\<forall>c\<in>set (take i cs @ x # drop i cs). P c"
  using assms by (auto dest: in_set_takeD in_set_dropD)

lemma encMethod_shape:
  assumes "tmplShape T" "xmlSecEncDataAddEncMethod T m = (Inr p, T')"
  shows "tmplShape T'"
proof -
  from assms(1) obtain n s a cs where T: "T = XmlElement n s a cs" and el: "\<forall>c\<in>set cs. is_element c"
     and so: "schemaOrder (map qname cs)" and cd: "\<forall>c\<in>set cs. qname c = (''CipherData'', xmlSecEncNs) \<longrightarrow> cdShape c"
    by (rule tmplShape_casesE)
  have ne: "cs \<noteq> []" using names_nonempty[OF so] by auto
  from assms(2) have none: "findIndex (\<lambda>q. q = (''EncryptionMethod'', xmlSecEncNs)) (map qname cs) = None"
    and T': "T' = XmlElement n s a (XmlElement ''EncryptionMethod'' xmlSecEncNs [(''Algorithm'', id_href m)] [] # cs)"
    unfolding T xmlSecEncDataAddEncMethod_def
    by (auto simp: findChild_names[OF el] nextElement_all[OF el] ne replace_child_def split: option.splits)
  show ?thesis unfolding T' tmplShape_def
    using el cd names_encMethod[OF so none] by (auto simp: ns_defs)
qed


lemma keyInfo_shape:
  assumes "tmplShape T" "xmlSecEncDataAddKeyInfo T = (Inr p, T')"
  shows "tmplShape T'"
proof -
  from assms(1) obtain n s a cs where T: "T = XmlElement n s a cs" and el: "\<forall>c\<in>set cs. is_element c"
     and so: "schemaOrder (map qname cs)" and cd: "\<forall>c\<in>set cs. qname c = (''CipherData'', xmlSecEncNs) \<longrightarrow> cdShape c"
    by (rule tmplShape_casesE)
  have ne: "cs \<noteq> []" using names_nonempty[OF so] by auto
  let ?k = "XmlElement ''KeyInfo'' xmlSecDSigNs [] []"
  let ?i = "case findIndex (\<lambda>q. q = (''EncryptionMethod'', xmlSecEncNs)) (map qname cs) of Some p \<Rightarrow> Suc p | None \<Rightarrow> 0"
  from assms(2) have none: "findIndex (\<lambda>q. q = (''KeyInfo'', xmlSecDSigNs)) (map qname cs) = None"
    and T': "T' = XmlElement n s a (take ?i cs @ ?k # drop ?i cs)"
    unfolding T xmlSecEncDataAddKeyInfo_def
    by (auto simp: findChild_names[OF el] nextElement_all[OF el] ne Let_def split: option.splits)
  have "map qname (take ?i cs @ ?k # drop ?i cs) =
        (case findIndex (\<lambda>q. q = (''EncryptionMethod'', xmlSecEncNs)) (map qname cs) of
           Some p \<Rightarrow> take (Suc p) (map qname cs) @ (''KeyInfo'', xmlSecDSigNs) # drop (Suc p) (map qname cs)
         | None \<Rightarrow> (''KeyInfo'', xmlSecDSigNs) # map qname cs)"
    by (simp add: take_map drop_map split: option.splits)
  with names_keyInfo[OF so none] have so': "schemaOrder (map qname (take ?i cs @ ?k # drop ?i cs))" by simp
  have "\<forall>c\<in>set (take ?i cs @ ?k # drop ?i cs). is_element c"
    by (rule cd_insert[OF el]) simp
  moreover have "\<forall>c\<in>set (take ?i cs @ ?k # drop ?i cs). qname c = (''CipherData'', xmlSecEncNs) \<longrightarrow> cdShape c"
    by (rule cd_insert[OF cd]) (simp add: ns_defs)
  ultimately show ?thesis unfolding T' tmplShape_def using so' by simp
qed

lemma encProps_shape:
  assumes "tmplShape T" "xmlSecEncDataAddEncProperties T i = (Inr p, T')"
  shows "tmplShape T'"
proof -
  from assms(1) obtain n s a cs where T: "T = XmlElement n s a cs" and el: "\<forall>c\<in>set cs. is_element c"
     and so: "schemaOrder (map qname cs)" and cd: "\<forall>c\<in>set cs. qname c = (''CipherData'', xmlSecEncNs) \<longrightarrow> cdShape c"
    by (rule tmplShape_casesE)
  let ?e = "setPropOpt (XmlElement ''EncryptionProperties'' xmlSecEncNs [] []) ''Id'' i"
  from assms(2) have none: "findIndex (\<lambda>q. q = (''EncryptionProperties'', xmlSecEncNs)) (map qname cs) = None"
    and T': "T' = XmlElement n s a (cs @ [?e])" and p: "p = [length cs]"
    unfolding T xmlSecEncDataAddEncProperties_def
    by (auto simp: findChild_names[OF el] replace_child_def split: option.splits)
  show ?thesis unfolding T' tmplShape_def
    using el cd names_encProps[OF so none] by (auto simp: ns_defs)
qed

lemma update_same_qname:
  "i < length cs \<Longrightarrow> qname y = qname (cs ! i) \<Longrightarrow> map qname (cs[i := y]) = map qname cs"
  by (simp add: map_update list_update_same_conv)

lemma set_update_all:
  "\<forall>c\<in>set cs. P c \<Longrightarrow> P y \<Longrightarrow> \<forall>c\<in>set (cs[i := y]). P c"
  using set_update_subset_insert[of cs i y] by auto

lemma encProp_shape:
  assumes "tmplShape T" "xmlSecEncDataAddEncProperty T i t = (Inr p, T')"
  shows "tmplShape T'"
proof -
  obtain r T1 where r: "(case xmlSecFindChild T ''EncryptionProperties'' xmlSecEncNs of
              Some encProps \<Rightarrow> (Inr [encProps], T)
            | None \<Rightarrow>
                (case xmlSecEncDataAddEncProperties T None of
                   (Inl rs, encNode') \<Rightarrow> (Inl (rs @ [XMLSEC_ERRORS_R_XMLSEC_FAILED]), encNode')
                 | (Inr p, encNode') \<Rightarrow> (Inr p, encNode'))) = (r, T1)" by fastforce
  from assms(2) obtain q where q: "r = Inr q"
    unfolding xmlSecEncDataAddEncProperty_def r by (cases r) auto
  have "tmplShape T1 \<and> (\<exists>k. q = [k] \<and> k < length (children_of T1) \<and> qname (children_of T1 ! k) = (''EncryptionProperties'', xmlSecEncNs))"
  proof (cases "xmlSecFindChild T ''EncryptionProperties'' xmlSecEncNs")
    case None
    with r q have a: "xmlSecEncDataAddEncProperties T None = (Inr q, T1)"
      by (auto split: prod.splits sum.splits)
    from encProps_shape[OF assms(1) a] have "tmplShape T1" .
    moreover from a assms(1) have "\<exists>k. q = [k] \<and> k < length (children_of T1) \<and> qname (children_of T1 ! k) = (''EncryptionProperties'', xmlSecEncNs)"
      unfolding xmlSecEncDataAddEncProperties_def
      by (cases T) (auto simp: replace_child_def tmplShape_def split: option.splits)
    ultimately show ?thesis by simp
  next
    case (Some k)
    with r q have "T1 = T" "q = [k]" by auto
    moreover from assms(1) obtain n s a cs where T: "T = XmlElement n s a cs" and el: "\<forall>c\<in>set cs. is_element c"
      by (rule tmplShape_casesE)
    from Some findIndex_Some[of "\<lambda>q. q = (''EncryptionProperties'', xmlSecEncNs)" "map qname cs" k]
    have "k < length cs \<and> qname (cs ! k) = (''EncryptionProperties'', xmlSecEncNs)"
      unfolding T findChild_names[OF el] by auto
    ultimately show ?thesis using assms(1) T by simp
  qed
  then obtain k where s1: "tmplShape T1" and qk: "q = [k]" and k: "k < length (children_of T1)"
     and nk: "qname (children_of T1 ! k) = (''EncryptionProperties'', xmlSecEncNs)" by blast
  from s1 obtain n s a cs where T1: "T1 = XmlElement n s a cs" and el: "\<forall>c\<in>set cs. is_element c"
     and so: "schemaOrder (map qname cs)" and cd: "\<forall>c\<in>set cs. qname c = (''CipherData'', xmlSecEncNs) \<longrightarrow> cdShape c"
    by (rule tmplShape_casesE)
  from k el have ek: "is_element (cs ! k)" unfolding T1 by simp
  then obtain y where T': "T' = XmlElement n s a (cs[k := y])" and y: "qname y = qname (cs ! k)" "is_element y"
    using assms(2) unfolding xmlSecEncDataAddEncProperty_def r q qk T1
    by (cases "cs ! k") (auto simp: replace_child_def Let_def split: option.splits)
  have "map qname (cs[k := y]) = map qname cs" using k y unfolding T1 by (simp add: update_same_qname)
  moreover have "\<forall>c\<in>set (cs[k := y]). is_element c" by (rule set_update_all[OF el y(2)])
  moreover have "\<forall>c\<in>set (cs[k := y]). qname c = (''CipherData'', xmlSecEncNs) \<longrightarrow> cdShape c"
    by (rule set_update_all[OF cd]) (use y nk T1 in \<open>simp add: ns_defs\<close>)
  ultimately show ?thesis unfolding T' tmplShape_def using so by simp
qed


lemma findChild_Some_el:
  assumes "\<forall>c\<in>set cs. is_element c" "xmlSecFindChild (XmlElement n s a cs) name ns = Some i"
  shows "i < length cs \<and> qname (cs ! i) = (name, ns) \<and> is_element (cs ! i)"
proof -
  from assms(2) have "findIndex (\<lambda>q. q = (name, ns)) (map qname cs) = Some i"
    unfolding findChild_names[OF assms(1)] .
  from findIndex_Some[OF this] assms(1) show ?thesis by auto
qed

lemma cdShape_update:
  assumes cdS: "cdShape c'" and q: "qname c' = qname (cs ! i)" and i: "i < length cs"
    and e: "is_element c'"
    and el: "\<forall>c\<in>set cs. is_element c"
    and so: "schemaOrder (map qname cs)" and cd: "\<forall>c\<in>set cs. qname c = (''CipherData'', xmlSecEncNs) \<longrightarrow> cdShape c"
  shows "tmplShape (XmlElement n s a (cs[i := c']))"
proof -
  have "map qname (cs[i := c']) = map qname cs" using i q by (simp add: update_same_qname)
  moreover have "\<forall>c\<in>set (cs[i := c']). is_element c" by (rule set_update_all[OF el e])
  moreover have "\<forall>c\<in>set (cs[i := c']). qname c = (''CipherData'', xmlSecEncNs) \<longrightarrow> cdShape c"
    by (rule set_update_all[OF cd]) (use cdS in simp)
  ultimately show ?thesis unfolding tmplShape_def using so by simp
qed

lemma cdShape_cases:
  assumes "cdShape c" "is_element c"
  obtains n s a where "c = XmlElement n s a []"
  | n s a v where "c = XmlElement n s a [v]" "qname v = (''CipherValue'', xmlSecEncNs)" "is_element v"
  | n s a r where "c = XmlElement n s a [r]" "qname r = (''CipherReference'', xmlSecEncNs)" "is_element r"
  using assms unfolding cdShape_def by (cases c) (auto dest!: map_qname_Cons)

lemma cipherValue_shape:
  assumes "tmplShape T" "xmlSecEncDataAddCipherValue T = (Inr p, T')"
  shows "tmplShape T'"
proof -
  from assms(1) obtain n s a cs where T: "T = XmlElement n s a cs" and el: "\<forall>c\<in>set cs. is_element c"
     and so: "schemaOrder (map qname cs)" and cd: "\<forall>c\<in>set cs. qname c = (''CipherData'', xmlSecEncNs) \<longrightarrow> cdShape c"
    by (rule tmplShape_casesE)
  from assms(2) obtain i where i: "xmlSecFindChild (XmlElement n s a cs) ''CipherData'' xmlSecEncNs = Some i"
    unfolding T xmlSecEncDataAddCipherValue_def by (auto split: option.splits)
  from findChild_Some_el[OF el i] have il: "i < length cs" and iq: "qname (cs ! i) = (''CipherData'', xmlSecEncNs)"
    and ie: "is_element (cs ! i)" by auto
  from cd il iq have cds: "cdShape (cs ! i)" by auto
  from cds ie show ?thesis
  proof (cases rule: cdShape_cases)
    case (1 n' s' a')
    with assms(2) i have T': "T' = XmlElement n s a (cs[i := XmlElement n' s' a' [XmlElement ''CipherValue'' xmlSecEncNs [] []]])"
      unfolding T xmlSecEncDataAddCipherValue_def
      by (auto simp: Let_def xmlSecFindChild_def replace_child_def split: option.splits)
    show ?thesis unfolding T'
      by (rule cdShape_update[OF _ _ il _ el so cd]) (use 1 iq in \<open>auto simp: cdShape_def\<close>)
  next
    case (2 n' s' a' v)
    with assms(2) i show ?thesis
      unfolding T xmlSecEncDataAddCipherValue_def
      by (auto simp: Let_def xmlSecFindChild_def check_qname split: option.splits)
  next
    case (3 n' s' a' r)
    with assms(2) i show ?thesis
      unfolding T xmlSecEncDataAddCipherValue_def
      by (auto simp: Let_def xmlSecFindChild_def check_qname split: option.splits)
  qed
qed

lemma cipherReference_shape:
  assumes "tmplShape T" "xmlSecEncDataAddCipherReference T uri = (Inr p, T')"
  shows "tmplShape T'"
proof -
  from assms(1) obtain n s a cs where T: "T = XmlElement n s a cs" and el: "\<forall>c\<in>set cs. is_element c"
     and so: "schemaOrder (map qname cs)" and cd: "\<forall>c\<in>set cs. qname c = (''CipherData'', xmlSecEncNs) \<longrightarrow> cdShape c"
    by (rule tmplShape_casesE)
  from assms(2) obtain i where i: "xmlSecFindChild (XmlElement n s a cs) ''CipherData'' xmlSecEncNs = Some i"
    unfolding T xmlSecEncDataAddCipherReference_def by (auto split: option.splits)
  from findChild_Some_el[OF el i] have il: "i < length cs" and iq: "qname (cs ! i) = (''CipherData'', xmlSecEncNs)"
    and ie: "is_element (cs ! i)" by auto
  from cd il iq have cds: "cdShape (cs ! i)" by auto
  from cds ie show ?thesis
  proof (cases rule: cdShape_cases)
    case (1 n' s' a')
    with assms(2) i have T': "T' = XmlElement n s a (cs[i := XmlElement n' s' a'
        [setPropOpt (XmlElement ''CipherReference'' xmlSecEncNs [] []) ''URI'' uri]])"
      unfolding T xmlSecEncDataAddCipherReference_def
      by (auto simp: Let_def xmlSecFindChild_def replace_child_def split: option.splits)
    show ?thesis unfolding T'
      by (rule cdShape_update[OF _ _ il _ el so cd]) (use 1 iq in \<open>auto simp: cdShape_def\<close>)
  next
    case (2 n' s' a' v)
    with assms(2) i show ?thesis
      unfolding T xmlSecEncDataAddCipherReference_def
      by (auto simp: Let_def xmlSecFindChild_def check_qname split: option.splits)
  next
    case (3 n' s' a' r)
    with assms(2) i show ?thesis
      unfolding T xmlSecEncDataAddCipherReference_def
      by (auto simp: Let_def xmlSecFindChild_def check_qname split: option.splits)
  qed
qed

lemma replace_child_simps [simp]:
  "replace_child (XmlElement n s a cs) i x = XmlElement n s a (cs[i := x])"
  "qname (replace_child c i x) = qname c"
  "is_element (replace_child c i x) = is_element c"
  by (simp_all add: replace_child_def)

lemma addChild_qname:
  "xmlSecAddChild r name ns = Some (r', b) \<Longrightarrow> qname r' = qname r \<and> is_element r'"
  by (cases r) auto

lemma transform_shape:
  assumes "tmplShape T" "xmlSecCipherReferenceAddTransform T tr = (Inr p, T')"
  shows "tmplShape T'"
proof -
  from assms(1) obtain n s a cs where T: "T = XmlElement n s a cs" and el: "\<forall>c\<in>set cs. is_element c"
     and so: "schemaOrder (map qname cs)" and cd: "\<forall>c\<in>set cs. qname c = (''CipherData'', xmlSecEncNs) \<longrightarrow> cdShape c"
    by (rule tmplShape_casesE)
  from assms(2) obtain i where i: "xmlSecFindChild (XmlElement n s a cs) ''CipherData'' xmlSecEncNs = Some i"
    unfolding T xmlSecCipherReferenceAddTransform_def by (auto split: option.splits)
  from findChild_Some_el[OF el i] have il: "i < length cs" and iq: "qname (cs ! i) = (''CipherData'', xmlSecEncNs)"
    and ie: "is_element (cs ! i)" by auto
  from cd il iq have cds: "cdShape (cs ! i)" by auto
  from cds ie show ?thesis
  proof (cases rule: cdShape_cases)
    case (1 n' s' a')
    with assms(2) i show ?thesis
      unfolding T xmlSecCipherReferenceAddTransform_def
      by (auto simp: Let_def xmlSecFindChild_def split: option.splits)
  next
    case (2 n' s' a' v)
    with assms(2) i show ?thesis
      unfolding T xmlSecCipherReferenceAddTransform_def
      by (auto simp: Let_def xmlSecFindChild_def check_qname ns_defs split: option.splits)
  next
    case (3 n' s' a' r)
    with assms(2) i obtain r' where T': "T' = XmlElement n s a (cs[i := XmlElement n' s' a' [r']])"
       and r': "qname r' = qname r" "is_element r'"
      unfolding T xmlSecCipherReferenceAddTransform_def
      by (auto simp: Let_def xmlSecFindChild_def check_qname dest!: addChild_qname split: option.splits)
    show ?thesis unfolding T'
      by (rule cdShape_update[OF _ _ il _ el so cd]) (use 3 r' iq in \<open>auto simp: cdShape_def\<close>)
  qed
qed

lemma built_shape: "xmlSecEncDataBuilt T \<Longrightarrow> tmplShape T"
proof (induction rule: xmlSecEncDataBuilt.induct)
  case (Built_Create ident type mimeType encoding T)
  then show ?case by (rule create_shape)
next
  case (Built_EncMethod T encMethod p T')
  then show ?case by (blast intro: encMethod_shape)
next
  case (Built_KeyInfo T p T')
  then show ?case by (blast intro: keyInfo_shape)
next
  case (Built_EncProperties T ident p T')
  then show ?case by (blast intro: encProps_shape)
next
  case (Built_EncProperty T ident target p T')
  then show ?case by (blast intro: encProp_shape)
next
  case (Built_CipherValue T p T')
  then show ?case by (blast intro: cipherValue_shape)
next
  case (Built_CipherReference T uri p T')
  then show ?case by (blast intro: cipherReference_shape)
next
  case (Built_Transform T transform p T')
  then show ?case by (blast intro: transform_shape)
qed
section \<open>Frame properties of the engine\<close>

lemma nextElement_Some:
  "xmlSecGetNextElementNode cs i = Some c \<Longrightarrow> i \<le> c \<and> c < length cs \<and> is_element (cs ! c)"
  unfolding xmlSecGetNextElementNode_def
  by (auto dest!: findIndex_Some)

lemma findChild_None_check:
  "xmlSecFindChild parent name ns = None \<Longrightarrow> c < length (children_of parent) \<Longrightarrow>
   \<not> xmlSecCheckNodeName (children_of parent ! c) name ns"
  unfolding xmlSecFindChild_def findIndex_None by auto

lemma nodeRead_no_method:
  assumes "ctx_encryptionMethod (h_ctx h) = None"
    and "xmlSecFindChild (h_encNode h) ''EncryptionMethod'' xmlSecEncNs = None"
  shows "xmlSecEncryptedDataNodeRead env h =
     (Failure, xmlSecError XMLSEC_ERRORS_R_INVALID_DATA
        (h\<lparr>h_res := (h_res h)\<lparr>res_id := xmlGetProp (h_encNode h) ''Id'',
                                     res_type := xmlGetProp (h_encNode h) ''Type'',
                                     res_mimeType := xmlGetProp (h_encNode h) ''MimeType'',
                                     res_encoding := xmlGetProp (h_encNode h) ''Encoding''\<rparr>\<rparr>))"
  using assms
  unfolding xmlSecEncryptedDataNodeRead_def xmlSecEncryptedDataNodeRead_default_def Let_def
  by (auto split: option.splits dest!: nextElement_Some dest: findChild_None_check)

lemma fst_simps [simp]:
  "fst (failBoth h) = Failure" "fst (failBothStateFirst h) = Failure" "fst (cleanup r h) = Success"
  by (simp_all add: failBoth_def failBothStateFirst_def cleanup_def)

lemma heap_frame [simp]:
  "h_encNode (xmlSecError e h) = h_encNode h"
  "h_encNode (release obj h) = h_encNode h"
  "h_encNode (releaseIf b obj h) = h_encNode h"
  "h_encNode (xmlSecEncResultDestroy h) = h_encNode h"
  "h_encNode (xmlSecAddIDs h) = h_encNode h"
  "h_spliced (xmlSecError e h) = h_spliced h"
  "h_spliced (release obj h) = h_spliced h"
  "h_spliced (releaseIf b obj h) = h_spliced h"
  "h_spliced (xmlSecEncResultDestroy h) = h_spliced h"
  "h_spliced (xmlSecAddIDs h) = h_spliced h"
  "h_reports (release obj h) = h_reports h"
  "h_reports (releaseIf b obj h) = h_reports h"
  "h_reports (xmlSecEncResultDestroy h) = h_reports h"
  "h_reports (xmlSecAddIDs h) = h_reports h"
  "h_reports (xmlSecError e h) = h_reports h @ [e]"
  "h_ctx (xmlSecError e h) = h_ctx h"
  "h_ctx (release obj h) = h_ctx h"
  "h_ctx (releaseIf b obj h) = h_ctx h"
  "h_ctx (xmlSecEncResultDestroy h) = h_ctx h"
  "h_ctx (xmlSecAddIDs h) = h_ctx h"
  "h_out (xmlSecError e h) = h_out h"
  "h_out (release obj h) = h_out h"
  "h_out (releaseIf b obj h) = h_out h"
  "h_out (xmlSecEncResultDestroy h) = h_out h"
  "h_out (xmlSecAddIDs h) = h_out h"
  by (simp_all add: xmlSecError_def release_def releaseIf_def xmlSecEncResultDestroy_def
      xmlSecAddIDs_def Let_def)

lemma destroyAll_frame [simp]:
  "h_encNode (xmlSecBinTransformDestroyAll ts h) = h_encNode h"
  "h_spliced (xmlSecBinTransformDestroyAll ts h) = h_spliced h"
  "h_reports (xmlSecBinTransformDestroyAll ts h) = h_reports h"
  "h_ctx (xmlSecBinTransformDestroyAll ts h) = h_ctx h"
  "h_out (xmlSecBinTransformDestroyAll ts h) = h_out h"
  "h_res (xmlSecBinTransformDestroyAll ts h) = h_res h"
  "h_state (xmlSecBinTransformDestroyAll ts h) = h_state h"
  unfolding xmlSecBinTransformDestroyAll_def
  by (induction ts arbitrary: h; simp add: xmlSecTransformDestroy_def release_def)+

lemma stateDestroy_frame [simp]:
  "h_encNode (xmlSecEncStateDestroy h) = h_encNode h"
  "h_spliced (xmlSecEncStateDestroy h) = h_spliced h"
  "h_reports (xmlSecEncStateDestroy h) = h_reports h"
  "h_ctx (xmlSecEncStateDestroy h) = h_ctx h"
  "h_out (xmlSecEncStateDestroy h) = h_out h"
  "h_res (xmlSecEncStateDestroy h) = h_res h"
  by (simp_all add: xmlSecEncStateDestroy_def Let_def release_def split: option.splits)

lemma stateCreate_no_method:
  assumes "ctx_encryptionMethod (h_ctx h) = None"
    and "xmlSecFindChild (h_encNode h) ''EncryptionMethod'' xmlSecEncNs = None"
  shows "fst (xmlSecEncStateCreate env e h) = Failure \<and>
         h_encNode (snd (xmlSecEncStateCreate env e h)) = h_encNode h \<and>
         h_spliced (snd (xmlSecEncStateCreate env e h)) = h_spliced h \<and>
         h_out (snd (xmlSecEncStateCreate env e h)) = h_out h \<and>
         (env_stateAlloc env \<longrightarrow> h_reports (snd (xmlSecEncStateCreate env e h)) =
            h_reports h @ [XMLSEC_ERRORS_R_INVALID_DATA, XMLSEC_ERRORS_R_XMLSEC_FAILED])"
  using assms unfolding xmlSecEncStateCreate_def
  by (simp add: nodeRead_no_method)

lemma prologue_frame:
  "h_encNode (snd (xmlSecEncResultCreate env e h)) = h_encNode h"
  "h_ctx (snd (xmlSecEncResultCreate env e h)) = h_ctx h"
  "h_spliced (snd (xmlSecEncResultCreate env e h)) = h_spliced h"
  "h_out (snd (xmlSecEncResultCreate env e h)) = h_out h"
  "h_encNode (snd (xmlSecEncResultSetKey env key h)) = h_encNode h"
  "h_ctx (snd (xmlSecEncResultSetKey env key h)) = h_ctx h"
  "h_spliced (snd (xmlSecEncResultSetKey env key h)) = h_spliced h"
  "h_out (snd (xmlSecEncResultSetKey env key h)) = h_out h"
  "h_reports (snd (xmlSecEncResultSetKey env key h)) = h_reports h"
  by (simp_all add: xmlSecEncResultCreate_def xmlSecEncResultSetKey_def split: option.splits)

lemma resultCreate_reports:
  "env_resultAlloc env \<Longrightarrow> fst (xmlSecEncResultCreate env e h) = Success \<and>
     h_reports (snd (xmlSecEncResultCreate env e h)) = h_reports h"
  by (simp add: xmlSecEncResultCreate_def)

lemma setKey_Success:
  "(\<forall>k. key = Some k \<longrightarrow> env_keyDuplicate env k \<noteq> None) \<Longrightarrow>
   fst (xmlSecEncResultSetKey env key h) = Success"
  by (auto simp: xmlSecEncResultSetKey_def split: option.splits)

lemma prologue_no_method:
  assumes c: "ctx_encryptionMethod ctx = None"
    and f: "xmlSecFindChild encNode ''EncryptionMethod'' xmlSecEncNs = None"
    and W: "\<And>outcome. rejectedUntouched env key encNode outcome \<Longrightarrow> Q (W outcome)"
  shows "Q (case xmlSecEncResultCreate env True (initHeap ctx encNode) of
        (r0, h0) \<Rightarrow>
          if r0 \<noteq> Success then W (Failure, xmlSecError XMLSEC_ERRORS_R_XMLSEC_FAILED h0)
          else (case xmlSecEncResultSetKey env key h0 of
                  (r1, h1) \<Rightarrow>
                    if r1 \<noteq> Success then W (r1, h1)
                    else (case xmlSecEncStateCreate env True (xmlSecAddIDs h1) of
                            (r2, h2) \<Rightarrow>
                              if r2 \<noteq> Success
                              then W (Failure,
                                    xmlSecEncResultDestroy
                                      (xmlSecError XMLSEC_ERRORS_R_XMLSEC_FAILED h2))
                              else k h2)))"
proof -
  obtain r0 h0 where 0: "xmlSecEncResultCreate env True (initHeap ctx encNode) = (r0, h0)" by fastforce
  obtain r1 h1 where 1: "xmlSecEncResultSetKey env key h0 = (r1, h1)" by fastforce
  obtain r2 h2 where 2: "xmlSecEncStateCreate env True (xmlSecAddIDs h1) = (r2, h2)" by fastforce
  have i: "h_encNode (initHeap ctx encNode) = encNode" "h_ctx (initHeap ctx encNode) = ctx"
    "h_spliced (initHeap ctx encNode) = None" "h_out (initHeap ctx encNode) = None"
    "h_reports (initHeap ctx encNode) = []"
    by (simp_all add: initHeap_def)
  from prologue_frame(1-4)[of env True "initHeap ctx encNode"] 0 i
  have h0: "h_encNode h0 = encNode" "h_ctx h0 = ctx" "h_spliced h0 = None" "h_out h0 = None" by simp_all
  from prologue_frame(5-9)[of env key h0] 1 h0
  have h1: "h_encNode h1 = encNode" "h_ctx h1 = ctx" "h_spliced h1 = None" "h_out h1 = None"
    "h_reports h1 = h_reports h0" by simp_all
  from stateCreate_no_method[of "xmlSecAddIDs h1" env True] c f h1 2
  have h2: "r2 = Failure" "h_encNode h2 = encNode" "h_spliced h2 = None" "h_out h2 = None"
    "env_stateAlloc env \<longrightarrow> h_reports h2 = h_reports h1 @ [XMLSEC_ERRORS_R_INVALID_DATA, XMLSEC_ERRORS_R_XMLSEC_FAILED]"
    by simp_all
  have r1: "r1 \<noteq> Success \<Longrightarrow> \<exists>k. key = Some k \<and> env_keyDuplicate env k = None"
    using 1 by (auto simp: xmlSecEncResultSetKey_def split: option.splits)
  have r0: "env_resultAlloc env \<Longrightarrow> r0 = Success \<and> h_reports h0 = []"
    using resultCreate_reports[of env True "initHeap ctx encNode"] 0 i by simp
  have a: "r0 \<noteq> Success \<Longrightarrow> rejectedUntouched env key encNode (Failure, xmlSecError XMLSEC_ERRORS_R_XMLSEC_FAILED h0)"
    unfolding rejectedUntouched_def using h0 r0 by auto
  have b: "r1 \<noteq> Success \<Longrightarrow> rejectedUntouched env key encNode (r1, h1)"
    unfolding rejectedUntouched_def using h1 r1 by auto
  have d: "rejectedUntouched env key encNode
     (Failure, xmlSecEncResultDestroy (xmlSecError XMLSEC_ERRORS_R_XMLSEC_FAILED h2))"
    unfolding rejectedUntouched_def using h2 h1 r0 by auto
  show ?thesis
    unfolding 0 1 2 using a b d h2(1) by (auto intro: W simp: 1 2)
qed


lemma addTransform_frame:
  "h_ctx (snd (xmlSecEncStateAddTransform t h)) = h_ctx h"
  "h_res (snd (xmlSecEncStateAddTransform t h)) = h_res h"
  "h_encNode (snd (xmlSecEncStateAddTransform t h)) = h_encNode h"
  "h_ctx (snd (xmlSecTransformCreate env tid h)) = h_ctx h"
  "h_res (snd (xmlSecTransformCreate env tid h)) = h_res h"
  "h_encNode (snd (xmlSecTransformCreate env tid h)) = h_encNode h"
  "h_ctx (xmlSecTransformDestroy t h) = h_ctx h"
  "h_res (xmlSecTransformDestroy t h) = h_res h"
  "h_encNode (xmlSecTransformDestroy t h) = h_encNode h"
  "h_res (xmlSecError e h) = h_res h"
  "h_ctx (updateTransform u f h) = h_ctx h"
  "h_res (updateTransform u f h) = h_res h"
  "h_encNode (updateTransform u f h) = h_encNode h"
  "h_reports (updateTransform u f h) = h_reports h"
  by (simp_all add: xmlSecEncStateAddTransform_def xmlSecTransformCreate_def Let_def
      xmlSecTransformDestroy_def release_def xmlSecError_def updateTransform_def split: option.splits)

lemma encode_frame:
  "h_ctx (snd (xmlSecEncryptedDataNodeRead_encode env h)) = h_ctx h"
  "h_res (snd (xmlSecEncryptedDataNodeRead_encode env h)) = h_res h"
  "h_encNode (snd (xmlSecEncryptedDataNodeRead_encode env h)) = h_encNode h"
proof -
  obtain c1 h1 where 1: "xmlSecTransformCreate env xmlSecEncBase64Encode h = (c1, h1)" by fastforce
  have f1: "h_ctx h1 = h_ctx h" "h_res h1 = h_res h" "h_encNode h1 = h_encNode h"
    using addTransform_frame(4-6)[of env xmlSecEncBase64Encode h] 1 by simp_all
  have "h_ctx (snd (xmlSecEncryptedDataNodeRead_encode env h)) = h_ctx h \<and>
        h_res (snd (xmlSecEncryptedDataNodeRead_encode env h)) = h_res h \<and>
        h_encNode (snd (xmlSecEncryptedDataNodeRead_encode env h)) = h_encNode h"
  proof (cases c1)
    case None
    then show ?thesis using 1 f1 by (simp add: xmlSecEncryptedDataNodeRead_encode_def addTransform_frame)
  next
    case (Some b)
    obtain r2 h2 where 2: "xmlSecEncStateAddTransform b h1 = (r2, h2)" by fastforce
    have f2: "h_ctx h2 = h_ctx h" "h_res h2 = h_res h" "h_encNode h2 = h_encNode h"
      using addTransform_frame(1-3)[of b h1] 2 f1 by simp_all
    obtain c3 h3 where 3: "xmlSecTransformCreate env xmlSecMemBuf h2 = (c3, h3)" by fastforce
    have f3: "h_ctx h3 = h_ctx h" "h_res h3 = h_res h" "h_encNode h3 = h_encNode h"
      using addTransform_frame(4-6)[of env xmlSecMemBuf h2] 3 f2 by simp_all
    show ?thesis
    proof (cases c3)
      case None
      then show ?thesis using 1 2 3 Some f1 f2 f3
        by (simp add: xmlSecEncryptedDataNodeRead_encode_def addTransform_frame)
    next
      case (Some m)
      obtain r4 h4 where 4: "xmlSecEncStateAddTransform m h3 = (r4, h4)" by fastforce
      have f4: "h_ctx h4 = h_ctx h" "h_res h4 = h_res h" "h_encNode h4 = h_encNode h"
        using addTransform_frame(1-3)[of m h3] 4 f3 by simp_all
      show ?thesis using 1 2 3 4 \<open>c1 = Some b\<close> Some f1 f2 f3 f4
        by (simp add: xmlSecEncryptedDataNodeRead_encode_def addTransform_frame)
    qed
  qed
  then show "h_ctx (snd (xmlSecEncryptedDataNodeRead_encode env h)) = h_ctx h"
    "h_res (snd (xmlSecEncryptedDataNodeRead_encode env h)) = h_res h"
    "h_encNode (snd (xmlSecEncryptedDataNodeRead_encode env h)) = h_encNode h" by simp_all
qed

lemma cipherData_frame:
  "h_ctx (snd (xmlSecEncryptedDataNodeRead_cipherData env h cur)) = h_ctx h"
  "h_res (snd (xmlSecEncryptedDataNodeRead_cipherData env h cur)) = h_res h"
  "h_encNode (snd (xmlSecEncryptedDataNodeRead_cipherData env h cur)) = h_encNode h"
  by (simp_all add: xmlSecEncryptedDataNodeRead_cipherData_def Let_def encode_frame addTransform_frame
      split: option.splits)

section \<open>The round trip\<close>


lemma state_eq_simps [simp]:
  "h_state (xmlSecError e h) = h_state h"
  "h_nextUid (xmlSecError e h) = h_nextUid h"
  by (simp_all add: xmlSecError_def)

lemma encode_decrypt:
  "\<not> st_encrypt (h_state h) \<Longrightarrow> xmlSecEncryptedDataNodeRead_encode env h = (Success, h)"
  by (simp add: xmlSecEncryptedDataNodeRead_encode_def)

lemma binary_ids [simp]:
  "id_type xmlSecEncBase64Encode = xmlSecTransformTypeBinary"
  "id_type xmlSecEncBase64Decode = xmlSecTransformTypeBinary"
  "id_type xmlSecMemBuf = xmlSecTransformTypeBinary"
  "xmlSecEncBase64Encode \<noteq> xmlSecMemBuf"
  "xmlSecEncBase64Decode \<noteq> xmlSecMemBuf"
  by (simp_all add: xmlSecEncBase64Encode_def xmlSecEncBase64Decode_def xmlSecMemBuf_def)

lemma encode_encrypt:
  assumes "st_encrypt (h_state h)" "env_create env xmlSecEncBase64Encode" "env_create env xmlSecMemBuf"
    and "st_last (h_state h) \<noteq> None"
  shows "xmlSecEncryptedDataNodeRead_encode env h =
     (Success,
      h\<lparr>h_nextUid := Suc (Suc (h_nextUid h)),
        h_state := (h_state h)\<lparr>st_first := st_first (h_state h) @
            [\<lparr>t_uid = h_nextUid h, t_id = xmlSecEncBase64Encode, t_encrypt = False, t_key = None, t_buf = []\<rparr>,
             \<lparr>t_uid = Suc (h_nextUid h), t_id = xmlSecMemBuf, t_encrypt = False, t_key = None, t_buf = []\<rparr>],
          st_last := Some (Suc (h_nextUid h))\<rparr>\<rparr>)"
proof -
  from assms(4) obtain l where l: "st_last (h_state h) = Some l" by auto
  show ?thesis
    using assms(1-3) l
    by (simp add: xmlSecEncryptedDataNodeRead_encode_def xmlSecTransformCreate_def
        xmlSecEncStateAddTransform_def xmlSecTransformCheckType_def xmlSecBinTransformAddAfter_def Let_def)
qed

lemma cipherData_stage:
  assumes "xmlSecCheckNodeName (children_of (h_encNode h) ! i) ''CipherData'' xmlSecEncNs"
  shows "xmlSecEncryptedDataNodeRead_cipherData env h (Some i) =
     xmlSecEncryptedDataNodeRead_encode env (h\<lparr>h_state := (h_state h)\<lparr>st_cipherDataNode := Some i\<rparr>\<rparr>)"
  using assms by (simp add: xmlSecEncryptedDataNodeRead_cipherData_def Let_def)

lemma key_stage_supplied:
  assumes key: "res_key (h_res h) = Some k" "env_addKey env (t_id m) (key_value k)"
    and cur: "cur = Some (case kiIdx of Some c1 \<Rightarrow> c1 | None \<Rightarrow> i)"
    and ki: "case kiIdx of
               Some c1 \<Rightarrow> xmlSecCheckNodeName (children_of (h_encNode h) ! c1) ''KeyInfo'' xmlSecDSigNs \<and>
                          xmlSecGetNextElementNode (children_of (h_encNode h)) (Suc c1) = Some i
             | None \<Rightarrow> \<not> xmlSecCheckNodeName (children_of (h_encNode h) ! i) ''KeyInfo'' xmlSecDSigNs"
    and w: "res_encrypt (h_res h) \<longrightarrow> (\<forall>c1. kiIdx = Some c1 \<longrightarrow>
              env_keyInfoNodeWrite env (children_of (h_encNode h) ! c1) (ctx_keysMngrCtx (h_ctx h)) k
                (id_decKeyType (t_id m)) = Some written)"
  shows "xmlSecEncryptedDataNodeRead_key env h m cur =
     xmlSecEncryptedDataNodeRead_cipherData env
       ((updateTransform (t_uid m) (\<lambda>t. t\<lparr>t_key := Some (key_value k)\<rparr>) h)
          \<lparr>h_encNode := (case kiIdx of
                           Some c1 \<Rightarrow> if res_encrypt (h_res h) then replace_child (h_encNode h) c1 written
                                      else h_encNode h
                         | None \<Rightarrow> h_encNode h)\<rparr>)
       (Some i)"
proof -
  have h1: "(case ctx_getKey (h_ctx h) of
                  None \<Rightarrow> h
                | Some getKey \<Rightarrow>
                    if res_key (h_res h) \<noteq> None then h
                    else X getKey) = h" for X
    using key(1) by (simp split: option.splits)
  show ?thesis
  proof (cases kiIdx)
    case None
    with assms show ?thesis
      unfolding xmlSecEncryptedDataNodeRead_key_def Let_def h1
      by (simp add: xmlSecBinTransformAddKey_def updateTransform_def)
  next
    case (Some c1)
    show ?thesis
    proof (cases "res_encrypt (h_res h)")
      case True
      with Some assms show ?thesis
        unfolding xmlSecEncryptedDataNodeRead_key_def Let_def h1
        by (simp add: xmlSecBinTransformAddKey_def updateTransform_def)
    next
      case False
      with Some assms show ?thesis
        unfolding xmlSecEncryptedDataNodeRead_key_def Let_def h1
        by (simp add: xmlSecBinTransformAddKey_def updateTransform_def)
    qed
  qed
qed

lemma method_stage:
  assumes "env_create env tid" "id_type tid = xmlSecTransformTypeBinary"
    and "st_last (h_state h) = None"
  shows "(case xmlSecTransformCreate env tid h of
            (created, h1) \<Rightarrow> xmlSecEncryptedDataNodeRead_method env h1 created cur) =
     xmlSecEncryptedDataNodeRead_key env
       (h\<lparr>h_nextUid := Suc (h_nextUid h),
          h_state := (h_state h)\<lparr>st_last := Some (h_nextUid h),
                                   st_first := [\<lparr>t_uid = h_nextUid h, t_id = tid,
                                                 t_encrypt = st_encrypt (h_state h), t_key = None, t_buf = []\<rparr>]\<rparr>,
          h_res := (h_res h)\<lparr>res_encryptionMethod := Some tid\<rparr>\<rparr>)
       \<lparr>t_uid = h_nextUid h, t_id = tid, t_encrypt = False, t_key = None, t_buf = []\<rparr> cur"
  using assms
  by (simp add: xmlSecTransformCreate_def xmlSecEncryptedDataNodeRead_method_def
      xmlSecEncStateAddTransform_def xmlSecTransformCheckType_def Let_def
      xmlSecBinTransformSetEncrypt_def updateTransform_def)

lemma nodeRead_start:
  assumes nav: "templateNav (children_of (h_encNode h)) emIdx kiIdx i"
    and m: "methodAt env (h_ctx h) (children_of (h_encNode h)) emIdx = Some tid"
  shows "xmlSecEncryptedDataNodeRead env h =
     (case xmlSecTransformCreate env tid
             (h\<lparr>h_res := (h_res h)\<lparr>res_id := xmlGetProp (h_encNode h) ''Id'',
                                     res_type := xmlGetProp (h_encNode h) ''Type'',
                                     res_mimeType := xmlGetProp (h_encNode h) ''MimeType'',
                                     res_encoding := xmlGetProp (h_encNode h) ''Encoding''\<rparr>\<rparr>) of
        (created, h2) \<Rightarrow>
          xmlSecEncryptedDataNodeRead_method env h2 created
            (Some (case kiIdx of Some c1 \<Rightarrow> c1 | None \<Rightarrow> i)))"
proof (cases emIdx)
  case None
  with assms show ?thesis
    unfolding xmlSecEncryptedDataNodeRead_def xmlSecEncryptedDataNodeRead_default_def
      templateNav_def methodAt_def Let_def
    by simp
next
  case (Some c0)
  with m obtain href where href: "xmlGetProp (children_of (h_encNode h) ! c0) ''Algorithm'' = Some href"
      "env_registry env href = Some tid"
    by (auto simp: methodAt_def split: option.splits)
  with Some nav show ?thesis
    unfolding xmlSecEncryptedDataNodeRead_def xmlSecEncryptedDataNodeRead_default_def
      templateNav_def Let_def xmlSecTransformNodeRead_def
    by simp
qed

lemma stateCreate_decrypt:
  assumes nav: "templateNav (children_of (h_encNode h)) emIdx kiIdx i"
    and m: "methodAt env (h_ctx h) (children_of (h_encNode h)) emIdx = Some tid"
    and env: "env_stateAlloc env" "env_create env tid" "id_type tid = xmlSecTransformTypeBinary"
    and key: "res_key (h_res h) = Some k" "env_addKey env tid (key_value k)"
    and dec: "\<not> res_encrypt (h_res h)"
  shows "xmlSecEncStateCreate env False h =
     (Success,
      h\<lparr>h_res := attrsRead h tid,
        h_state := \<lparr>st_first = [\<lparr>t_uid = h_nextUid h, t_id = tid, t_encrypt = False,
                                  t_key = Some (key_value k), t_buf = []\<rparr>],
                     st_last = Some (h_nextUid h), st_cipherDataNode = Some i, st_encrypt = False\<rparr>,
        h_nextUid := Suc (h_nextUid h)\<rparr>)"
proof -
  let ?h0 = "h\<lparr>h_state := zeroState\<lparr>st_encrypt := False\<rparr>\<rparr>"
  let ?cs = "children_of (h_encNode h)"
  let ?ha = "?h0\<lparr>h_res := (h_res ?h0)\<lparr>res_id := xmlGetProp (h_encNode ?h0) ''Id'',
                                     res_type := xmlGetProp (h_encNode ?h0) ''Type'',
                                     res_mimeType := xmlGetProp (h_encNode ?h0) ''MimeType'',
                                     res_encoding := xmlGetProp (h_encNode ?h0) ''Encoding''\<rparr>\<rparr>"
  let ?m = "\<lparr>t_uid = h_nextUid h, t_id = tid, t_encrypt = False, t_key = None, t_buf = []\<rparr>"
  let ?hm = "?ha\<lparr>h_nextUid := Suc (h_nextUid ?ha),
          h_state := (h_state ?ha)\<lparr>st_last := Some (h_nextUid ?ha),
                                   st_first := [\<lparr>t_uid = h_nextUid ?ha, t_id = tid,
                                                 t_encrypt = st_encrypt (h_state ?ha), t_key = None, t_buf = []\<rparr>]\<rparr>,
          h_res := (h_res ?ha)\<lparr>res_encryptionMethod := Some tid\<rparr>\<rparr>"
  let ?hk = "(updateTransform (t_uid ?m) (\<lambda>t. t\<lparr>t_key := Some (key_value k)\<rparr>) ?hm)
          \<lparr>h_encNode := (case kiIdx of
                           Some c1 \<Rightarrow> if res_encrypt (h_res ?hm) then replace_child (h_encNode ?hm) c1 undefined
                                      else h_encNode ?hm
                         | None \<Rightarrow> h_encNode ?hm)\<rparr>"
  have 1: "xmlSecEncryptedDataNodeRead env ?h0 =
     (case xmlSecTransformCreate env tid ?ha of
        (created, h2) \<Rightarrow>
          xmlSecEncryptedDataNodeRead_method env h2 created
            (Some (case kiIdx of Some c1 \<Rightarrow> c1 | None \<Rightarrow> i)))"
    by (rule nodeRead_start) (use nav m in simp_all)
  have 2: "\<dots> = xmlSecEncryptedDataNodeRead_key env ?hm ?m (Some (case kiIdx of Some c1 \<Rightarrow> c1 | None \<Rightarrow> i))"
    using method_stage[of env tid ?ha "Some (case kiIdx of Some c1 \<Rightarrow> c1 | None \<Rightarrow> i)"] env
    by (simp add: zeroState_def)
  have 3: "\<dots> = xmlSecEncryptedDataNodeRead_cipherData env ?hk (Some i)"
    by (rule key_stage_supplied[where k = k and kiIdx = kiIdx])
       (use key nav dec in \<open>simp_all add: templateNav_def Let_def split: option.splits\<close>)
  have hk_node: "h_encNode ?hk = h_encNode h"
    using dec by (simp add: addTransform_frame split: option.splits)
  have c4: "xmlSecCheckNodeName (children_of (h_encNode ?hk) ! i) ''CipherData'' xmlSecEncNs"
    unfolding hk_node using nav by (simp add: templateNav_def Let_def)
  have 4: "xmlSecEncryptedDataNodeRead_cipherData env ?hk (Some i) =
     xmlSecEncryptedDataNodeRead_encode env (?hk\<lparr>h_state := (h_state ?hk)\<lparr>st_cipherDataNode := Some i\<rparr>\<rparr>)"
    by (rule cipherData_stage[OF c4])
  have 5: "\<dots> = (Success, ?hk\<lparr>h_state := (h_state ?hk)\<lparr>st_cipherDataNode := Some i\<rparr>\<rparr>)"
    by (rule encode_decrypt) (simp add: updateTransform_def zeroState_def)
  have 6: "?hk\<lparr>h_state := (h_state ?hk)\<lparr>st_cipherDataNode := Some i\<rparr>\<rparr> =
      h\<lparr>h_res := attrsRead h tid,
        h_state := \<lparr>st_first = [\<lparr>t_uid = h_nextUid h, t_id = tid, t_encrypt = False,
                                  t_key = Some (key_value k), t_buf = []\<rparr>],
                     st_last = Some (h_nextUid h), st_cipherDataNode = Some i, st_encrypt = False\<rparr>,
        h_nextUid := Suc (h_nextUid h)\<rparr>"
    using dec
    by (cases kiIdx) (simp_all add: updateTransform_def zeroState_def attrsRead_def)
  show ?thesis
    unfolding xmlSecEncStateCreate_def using env(1) 1 2 3 4 5 6 by simp
qed

lemma children_replace_other:
  "i \<noteq> c \<Longrightarrow> children_of (replace_child T c w) ! i = children_of T ! i"
  by (cases T) (simp_all add: replace_child_def)

lemma stateCreate_encrypt:
  assumes nav: "templateNav (children_of (h_encNode h)) emIdx kiIdx i"
    and m: "methodAt env (h_ctx h) (children_of (h_encNode h)) emIdx = Some tid"
    and env: "env_stateAlloc env" "env_create env tid" "id_type tid = xmlSecTransformTypeBinary"
      "env_create env xmlSecEncBase64Encode" "env_create env xmlSecMemBuf"
    and key: "res_key (h_res h) = Some k" "env_addKey env tid (key_value k)"
    and enc: "res_encrypt (h_res h)"
    and kiw: "\<forall>c1. kiIdx = Some c1 \<longrightarrow>
              env_keyInfoNodeWrite env (children_of (h_encNode h) ! c1) (ctx_keysMngrCtx (h_ctx h)) k
                (id_decKeyType tid) = Some written"
  shows "xmlSecEncStateCreate env True h =
     (Success,
      h\<lparr>h_encNode := keyInfoWritten (h_encNode h) kiIdx written,
        h_res := attrsRead h tid,
        h_state := \<lparr>st_first = [\<lparr>t_uid = h_nextUid h, t_id = tid, t_encrypt = True,
                                  t_key = Some (key_value k), t_buf = []\<rparr>,
                                \<lparr>t_uid = Suc (h_nextUid h), t_id = xmlSecEncBase64Encode,
                                  t_encrypt = False, t_key = None, t_buf = []\<rparr>,
                                \<lparr>t_uid = Suc (Suc (h_nextUid h)), t_id = xmlSecMemBuf,
                                  t_encrypt = False, t_key = None, t_buf = []\<rparr>],
                     st_last = Some (Suc (Suc (h_nextUid h))), st_cipherDataNode = Some i,
                     st_encrypt = True\<rparr>,
        h_nextUid := Suc (Suc (Suc (h_nextUid h)))\<rparr>)"
proof -
  let ?h0 = "h\<lparr>h_state := zeroState\<lparr>st_encrypt := True\<rparr>\<rparr>"
  let ?cs = "children_of (h_encNode h)"
  let ?ha = "?h0\<lparr>h_res := (h_res ?h0)\<lparr>res_id := xmlGetProp (h_encNode ?h0) ''Id'',
                                     res_type := xmlGetProp (h_encNode ?h0) ''Type'',
                                     res_mimeType := xmlGetProp (h_encNode ?h0) ''MimeType'',
                                     res_encoding := xmlGetProp (h_encNode ?h0) ''Encoding''\<rparr>\<rparr>"
  let ?m = "\<lparr>t_uid = h_nextUid h, t_id = tid, t_encrypt = False, t_key = None, t_buf = []\<rparr>"
  let ?hm = "?ha\<lparr>h_nextUid := Suc (h_nextUid ?ha),
          h_state := (h_state ?ha)\<lparr>st_last := Some (h_nextUid ?ha),
                                   st_first := [\<lparr>t_uid = h_nextUid ?ha, t_id = tid,
                                                 t_encrypt = st_encrypt (h_state ?ha), t_key = None, t_buf = []\<rparr>]\<rparr>,
          h_res := (h_res ?ha)\<lparr>res_encryptionMethod := Some tid\<rparr>\<rparr>"
  let ?hk = "(updateTransform (t_uid ?m) (\<lambda>t. t\<lparr>t_key := Some (key_value k)\<rparr>) ?hm)
          \<lparr>h_encNode := (case kiIdx of
                           Some c1 \<Rightarrow> if res_encrypt (h_res ?hm) then replace_child (h_encNode ?hm) c1 written
                                      else h_encNode ?hm
                         | None \<Rightarrow> h_encNode ?hm)\<rparr>"
  let ?hc = "?hk\<lparr>h_state := (h_state ?hk)\<lparr>st_cipherDataNode := Some i\<rparr>\<rparr>"
  have 1: "xmlSecEncryptedDataNodeRead env ?h0 =
     (case xmlSecTransformCreate env tid ?ha of
        (created, h2) \<Rightarrow>
          xmlSecEncryptedDataNodeRead_method env h2 created
            (Some (case kiIdx of Some c1 \<Rightarrow> c1 | None \<Rightarrow> i)))"
    by (rule nodeRead_start) (use nav m in simp_all)
  have 2: "\<dots> = xmlSecEncryptedDataNodeRead_key env ?hm ?m (Some (case kiIdx of Some c1 \<Rightarrow> c1 | None \<Rightarrow> i))"
    using method_stage[of env tid ?ha "Some (case kiIdx of Some c1 \<Rightarrow> c1 | None \<Rightarrow> i)"] env
    by (simp add: zeroState_def)
  have 3: "\<dots> = xmlSecEncryptedDataNodeRead_cipherData env ?hk (Some i)"
    by (rule key_stage_supplied[where k = k and kiIdx = kiIdx])
       (use key nav enc kiw in \<open>simp_all add: templateNav_def Let_def split: option.splits\<close>)
  have hk_node: "h_encNode ?hk = keyInfoWritten (h_encNode h) kiIdx written"
    using enc by (simp add: addTransform_frame keyInfoWritten_def split: option.splits)
  have c4: "xmlSecCheckNodeName (children_of (h_encNode ?hk) ! i) ''CipherData'' xmlSecEncNs"
    unfolding hk_node using nav
    by (cases kiIdx) (simp_all add: templateNav_def Let_def keyInfoWritten_def children_replace_other)
  have 4: "xmlSecEncryptedDataNodeRead_cipherData env ?hk (Some i) =
     xmlSecEncryptedDataNodeRead_encode env ?hc"
    by (rule cipherData_stage[OF c4])
  have 5: "\<dots> = (Success,
      ?hc\<lparr>h_nextUid := Suc (Suc (h_nextUid ?hc)),
        h_state := (h_state ?hc)\<lparr>st_first := st_first (h_state ?hc) @
            [\<lparr>t_uid = h_nextUid ?hc, t_id = xmlSecEncBase64Encode, t_encrypt = False, t_key = None, t_buf = []\<rparr>,
             \<lparr>t_uid = Suc (h_nextUid ?hc), t_id = xmlSecMemBuf, t_encrypt = False, t_key = None, t_buf = []\<rparr>],
          st_last := Some (Suc (h_nextUid ?hc))\<rparr>\<rparr>)"
    by (rule encode_encrypt) (use env in \<open>simp_all add: updateTransform_def zeroState_def\<close>)
  have 6: "?hc\<lparr>h_nextUid := Suc (Suc (h_nextUid ?hc)),
        h_state := (h_state ?hc)\<lparr>st_first := st_first (h_state ?hc) @
            [\<lparr>t_uid = h_nextUid ?hc, t_id = xmlSecEncBase64Encode, t_encrypt = False, t_key = None, t_buf = []\<rparr>,
             \<lparr>t_uid = Suc (h_nextUid ?hc), t_id = xmlSecMemBuf, t_encrypt = False, t_key = None, t_buf = []\<rparr>],
          st_last := Some (Suc (h_nextUid ?hc))\<rparr>\<rparr> =
      h\<lparr>h_encNode := keyInfoWritten (h_encNode h) kiIdx written,
        h_res := attrsRead h tid,
        h_state := \<lparr>st_first = [\<lparr>t_uid = h_nextUid h, t_id = tid, t_encrypt = True,
                                  t_key = Some (key_value k), t_buf = []\<rparr>,
                                \<lparr>t_uid = Suc (h_nextUid h), t_id = xmlSecEncBase64Encode,
                                  t_encrypt = False, t_key = None, t_buf = []\<rparr>,
                                \<lparr>t_uid = Suc (Suc (h_nextUid h)), t_id = xmlSecMemBuf,
                                  t_encrypt = False, t_key = None, t_buf = []\<rparr>],
                     st_last = Some (Suc (Suc (h_nextUid h))), st_cipherDataNode = Some i,
                     st_encrypt = True\<rparr>,
        h_nextUid := Suc (Suc (Suc (h_nextUid h)))\<rparr>"
    using enc
    by (cases kiIdx) (simp_all add: updateTransform_def zeroState_def attrsRead_def keyInfoWritten_def)
  show ?thesis
    unfolding xmlSecEncStateCreate_def using env(1) 1 2 3 4 5 6 by simp
qed

lemma findIndex_append_new:
  "findIndex P xs = None \<Longrightarrow> P e \<Longrightarrow> findIndex P (xs @ [e]) = Some (length xs)"
  by (induction xs) (auto split: if_splits)

lemma nextElement0: "xmlSecGetNextElementNode cs 0 = findIndex is_element cs"
  by (simp add: xmlSecGetNextElementNode_def option.map_ident)

lemma writeCipherValue_element:
  "writeCipherValue (XmlElement n s a cs) buf = XmlElement n s a [XmlText (CHR 0x0A # buf @ [CHR 0x0A])]"
  by (cases buf) (simp_all add: writeCipherValue_def)

lemma writeCipherValue_props:
  assumes "is_element c"
  shows "textOf (writeCipherValue c buf) = CHR 0x0A # buf @ [CHR 0x0A]"
    and "xmlSecCheckNodeName (writeCipherValue c buf) name ns = xmlSecCheckNodeName c name ns"
    and "is_element (writeCipherValue c buf)"
    and "xmlNodeGetContent (writeCipherValue c buf) = Some (CHR 0x0A # buf @ [CHR 0x0A])"
  using assms by (cases c; simp add: writeCipherValue_element xmlNodeGetContent_def)+

lemma check_is_element: "xmlSecCheckNodeName c name ns \<Longrightarrow> is_element c"
  by (cases c) auto

lemma cipherDataWrite_wf:
  assumes "is_element cd" "cipherDataNav (children_of cd) cvIdx"
  shows "xmlSecCipherDataNodeWrite cd buf = (Success, [], cipherValueWritten cd cvIdx buf)"
proof -
  from assms(1) obtain n s a cs where cd: "cd = XmlElement n s a cs" by (cases cd) auto
  show ?thesis
  proof (cases cvIdx)
    case None
    with assms(2) show ?thesis
      unfolding cd xmlSecCipherDataNodeWrite_def cipherValueWritten_def cipherDataNav_def
      by (simp add: writeCipherValue_element replace_child_def)
  next
    case (Some v)
    with assms(2) show ?thesis
      unfolding cd xmlSecCipherDataNodeWrite_def cipherValueWritten_def cipherDataNav_def
      by (simp add: Let_def)
  qed
qed

lemma map_is_element_update:
  "(j < length cs \<longrightarrow> is_element y = is_element (cs ! j)) \<Longrightarrow>
   map is_element (cs[j := y]) = map is_element cs"
  by (cases "j < length cs") (simp_all add: map_update list_update_same_conv list_update_beyond)

lemma nextElement_map:
  "xmlSecGetNextElementNode cs p = map_option (\<lambda>k. p + k) (findIndex id (drop p (map is_element cs)))"
  unfolding xmlSecGetNextElementNode_def by (simp add: findIndex_map drop_map)

lemma nextElement_update:
  "(j < length cs \<longrightarrow> is_element y = is_element (cs ! j)) \<Longrightarrow>
   xmlSecGetNextElementNode (cs[j := y]) p = xmlSecGetNextElementNode cs p"
  unfolding nextElement_map by (simp add: map_is_element_update)

lemma nextElement_append_new:
  assumes "xmlSecGetNextElementNode cs 0 = None" "is_element e"
  shows "xmlSecGetNextElementNode (cs @ [e]) 0 = Some (length cs)"
    and "xmlSecGetNextElementNode (cs @ [e]) (Suc (length cs)) = None"
  using assms by (simp_all add: nextElement0 findIndex_append_new) (simp add: xmlSecGetNextElementNode_def)

lemma cipherValueWritten_nav:
  assumes "is_element cd" "cipherDataNav (children_of cd) cvIdx"
  shows "\<exists>v. xmlSecGetNextElementNode (children_of (cipherValueWritten cd cvIdx buf)) 0 = Some v \<and>
             xmlSecCheckNodeName (children_of (cipherValueWritten cd cvIdx buf) ! v) ''CipherValue'' xmlSecEncNs \<and>
             xmlNodeGetContent (children_of (cipherValueWritten cd cvIdx buf) ! v) =
               Some (CHR 0x0A # buf @ [CHR 0x0A]) \<and>
             xmlSecGetNextElementNode (children_of (cipherValueWritten cd cvIdx buf)) (Suc v) = None"
proof -
  from assms(1) obtain n s a cs where cd: "cd = XmlElement n s a cs" by (cases cd) auto
  show ?thesis
  proof (cases cvIdx)
    case None
    with assms(2) have n: "xmlSecGetNextElementNode cs 0 = None"
      by (simp add: cipherDataNav_def cd)
    let ?e = "XmlElement ''CipherValue'' xmlSecEncNs [] [XmlText (CHR 0x0A # buf @ [CHR 0x0A])]"
    have "is_element ?e" by simp
    from nextElement_append_new[OF n this] None show ?thesis
      by (simp add: cd cipherValueWritten_def xmlNodeGetContent_def)
  next
    case (Some v)
    with assms(2) have v: "xmlSecGetNextElementNode cs 0 = Some v"
      "xmlSecCheckNodeName (cs ! v) ''CipherValue'' xmlSecEncNs"
      "xmlSecGetNextElementNode cs (Suc v) = None"
      by (simp_all add: cipherDataNav_def cd)
    from nextElement_Some[OF v(1)] have vl: "v < length cs" "is_element (cs ! v)" by auto
    have u: "xmlSecGetNextElementNode (cs[v := writeCipherValue (cs ! v) buf]) p =
             xmlSecGetNextElementNode cs p" for p
      by (rule nextElement_update) (simp add: writeCipherValue_props vl)
    show ?thesis
      using Some v vl by (simp add: cd cipherValueWritten_def u writeCipherValue_props)
  qed
qed

lemma nav_element:
  assumes "templateNav (children_of T) emIdx kiIdx i"
  shows "is_element T"
  using assms by (cases T) (simp_all add: templateNav_def Let_def)

lemma nav_cd_element:
  assumes "templateNav cs emIdx kiIdx i"
  shows "is_element (cs ! i)"
  using assms by (auto simp: templateNav_def Let_def intro: check_is_element)


lemma keyInfoWritten_cd:
  assumes "templateNav (children_of T) emIdx kiIdx i"
  shows "children_of (keyInfoWritten T kiIdx written) ! i = children_of T ! i"
  using assms
  by (cases kiIdx) (auto simp: keyInfoWritten_def templateNav_def Let_def children_replace_other)

lemma encryptMemory_wf:
  assumes nav: "templateNav (children_of encNode) emIdx kiIdx i"
    and cdn: "cipherDataNav (children_of (children_of encNode ! i)) cvIdx"
    and m: "methodAt env ctx (children_of encNode) emIdx = Some tid"
    and tid: "id_type tid = xmlSecTransformTypeBinary" "tid \<noteq> xmlSecMemBuf"
    and env: "env_resultAlloc env" "env_stateAlloc env" "env_create env tid"
      "env_create env xmlSecEncBase64Encode" "env_create env xmlSecMemBuf"
    and key: "env_keyDuplicate env k = Some d" "env_addKey env tid (key_value d)"
    and kiw: "\<forall>c1. kiIdx = Some c1 \<longrightarrow>
              env_keyInfoNodeWrite env (children_of encNode ! c1) (ctx_keysMngrCtx ctx)
                (d\<lparr>key_origin := key_origin k\<rparr>) (id_decKeyType tid) = Some written"
    and ex: "env_execute env tid True (Some (key_value d)) plaintext = Some c"
      "env_execute env xmlSecEncBase64Encode False None c = Some b"
  shows "fst (xmlSecEncryptMemory env ctx (Some k) encNode plaintext result) = Success \<and>
         h_encNode (snd (xmlSecEncryptMemory env ctx (Some k) encNode plaintext result)) =
           replace_child (keyInfoWritten encNode kiIdx written) i
             (cipherValueWritten (children_of encNode ! i) cvIdx b)"
proof -
  define k' where "k' = d\<lparr>key_origin := key_origin k\<rparr>"
  define h0 where "h0 = (initHeap ctx encNode)\<lparr>h_res := zeroResult\<lparr>res_encrypt := True\<rparr>\<rparr>"
  define h1 where "h1 = h0\<lparr>h_res := (h_res h0)\<lparr>res_key := Some k'\<rparr>\<rparr>"
  define ha where "ha = xmlSecAddIDs h1"
  define tc where "tc = \<lparr>t_uid = h_nextUid ha, t_id = tid, t_encrypt = True,
                                  t_key = Some (key_value k'), t_buf = []\<rparr>"
  define tb where "tb = \<lparr>t_uid = Suc (h_nextUid ha), t_id = xmlSecEncBase64Encode,
                                  t_encrypt = False, t_key = None, t_buf = []\<rparr>"
  define tm where "tm = \<lparr>t_uid = Suc (Suc (h_nextUid ha)), t_id = xmlSecMemBuf,
                                  t_encrypt = False, t_key = None, t_buf = []\<rparr>"
  define h2 where "h2 = ha\<lparr>h_encNode := keyInfoWritten (h_encNode ha) kiIdx written,
        h_res := attrsRead ha tid,
        h_state := \<lparr>st_first = [tc, tb, tm],
                     st_last = Some (Suc (Suc (h_nextUid ha))), st_cipherDataNode = Some i,
                     st_encrypt = True\<rparr>,
        h_nextUid := Suc (Suc (Suc (h_nextUid ha)))\<rparr>"
  have rc: "xmlSecEncResultCreate env True (initHeap ctx encNode) = (Success, h0)"
    using env(1) by (simp add: xmlSecEncResultCreate_def h0_def)
  have sk: "xmlSecEncResultSetKey env (Some k) h0 = (Success, h1)"
    using key(1) by (simp add: xmlSecEncResultSetKey_def h1_def k'_def)
  have ha: "h_encNode ha = encNode" "h_ctx ha = ctx" "res_key (h_res ha) = Some k'"
    "res_encrypt (h_res ha)"
    by (simp_all add: ha_def h1_def h0_def initHeap_def xmlSecAddIDs_def)
  have kv: "key_value k' = key_value d" by (simp add: k'_def)
  have sc: "xmlSecEncStateCreate env True ha = (Success, h2)"
    unfolding h2_def tc_def tb_def tm_def
    by (rule stateCreate_encrypt[where emIdx = emIdx and k = k'])
       (use nav m tid env key kiw in \<open>simp_all add: ha kv k'_def[symmetric]\<close>)
  define chainW where "chainW = [tc\<lparr>t_buf := plaintext\<rparr>, tb, tm]"
  have wr: "xmlSecBinTransformWrite (st_first (h_state h2)) plaintext = Some chainW"
    by (simp add: xmlSecBinTransformWrite_def h2_def chainW_def tc_def)
  define chainF where "chainF = [tc, tb, tm\<lparr>t_buf := b\<rparr>]"
  have fl: "xmlSecBinTransformFlush env chainW = Some chainF"
    using ex tid(2)
    by (simp add: xmlSecBinTransformFlush_def chainW_def chainF_def tc_def tb_def tm_def kv)
  have gb: "xmlSecMemBufTransformGetBuffer (h_state (withChain chainF h2)) =
      (Some b, (h_state (withChain chainF h2))\<lparr>st_first := [tc, tb, tm]\<rparr>)"
    using tid(2)
    by (simp add: xmlSecMemBufTransformGetBuffer_def withChain_def h2_def chainF_def tc_def tb_def tm_def)
  have cdi: "children_of (h_encNode h2) ! i = children_of encNode ! i"
    using keyInfoWritten_cd[OF nav] by (simp add: h2_def ha)
  have cw: "xmlSecCipherDataNodeWrite (children_of encNode ! i) b =
      (Success, [], cipherValueWritten (children_of encNode ! i) cvIdx b)"
    by (rule cipherDataWrite_wf[OF nav_cd_element[OF nav] cdn])
  have wres: "fst (xmlSecEncStateWriteResult (withChain chainF h2)) = Success \<and>
      h_encNode (snd (xmlSecEncStateWriteResult (withChain chainF h2))) =
        replace_child (keyInfoWritten encNode kiIdx written) i
             (cipherValueWritten (children_of encNode ! i) cvIdx b)"
    unfolding xmlSecEncStateWriteResult_def gb
    using cdi cw by (simp add: withChain_def h2_def ha)
  obtain r3 h3 where w3: "xmlSecEncStateWriteResult (withChain chainF h2) = (r3, h3)" by fastforce
  with wres have r3: "r3 = Success" and h3: "h_encNode h3 = replace_child (keyInfoWritten encNode kiIdx written) i
             (cipherValueWritten (children_of encNode ! i) cvIdx b)" by simp_all
  have "xmlSecEncryptMemory env ctx (Some k) encNode plaintext result = cleanup result h3"
    unfolding xmlSecEncryptMemory_def rc
    by (simp add: sk ha_def[symmetric] sc wr fl w3 r3)
  then show ?thesis
    using h3 by (simp add: cleanup_def)
qed

lemma cleanup_out:
  "h_out (snd (cleanup True h)) = Some (h_res h)"
  by (simp add: cleanup_def stateDestroy_frame)

lemma decrypt_wf:
  assumes nav: "templateNav (children_of T) emIdx kiIdx i"
    and cv: "xmlSecGetNextElementNode (children_of (children_of T ! i)) 0 = Some v"
      "xmlSecCheckNodeName (children_of (children_of T ! i) ! v) ''CipherValue'' xmlSecEncNs"
      "xmlNodeGetContent (children_of (children_of T ! i) ! v) = Some content"
      "xmlSecGetNextElementNode (children_of (children_of T ! i)) (Suc v) = None"
    and m: "methodAt env ctx (children_of T) emIdx = Some tid"
    and tid: "id_type tid = xmlSecTransformTypeBinary" "tid \<noteq> xmlSecMemBuf"
    and env: "env_resultAlloc env" "env_stateAlloc env" "env_create env tid"
      "env_create env xmlSecEncBase64Decode" "env_create env xmlSecMemBuf"
    and key: "env_keyDuplicate env k = Some d" "env_addKey env tid (key_value d)"
    and ex: "env_execute env xmlSecEncBase64Decode False None content = Some c"
      "env_execute env tid False (Some (key_value d)) c = Some p"
    and splice: "\<not> ctx_ignoreType ctx \<and>
        (xmlGetProp T ''Type'' = Some xmlSecEncTypeElement \<or>
         xmlGetProp T ''Type'' = Some xmlSecEncTypeContent) \<longrightarrow> env_parse env p \<noteq> None"
  shows "fst (xmlSecDecrypt env ctx (Some k) T True) = Success \<and>
         map_option res_buffer (h_out (snd (xmlSecDecrypt env ctx (Some k) T True))) = Some (Some p)"
proof -
  define k' where "k' = d\<lparr>key_origin := key_origin k\<rparr>"
  define h0 where "h0 = (initHeap ctx T)\<lparr>h_res := zeroResult\<lparr>res_encrypt := False\<rparr>\<rparr>"
  define h1 where "h1 = h0\<lparr>h_res := (h_res h0)\<lparr>res_key := Some k'\<rparr>\<rparr>"
  define ha where "ha = xmlSecAddIDs h1"
  define tc where "tc = \<lparr>t_uid = h_nextUid ha, t_id = tid, t_encrypt = False,
                                  t_key = Some (key_value k'), t_buf = []\<rparr>"
  define h2 where "h2 = ha\<lparr>h_res := attrsRead ha tid,
        h_state := \<lparr>st_first = [tc],
                     st_last = Some (h_nextUid ha), st_cipherDataNode = Some i, st_encrypt = False\<rparr>,
        h_nextUid := Suc (h_nextUid ha)\<rparr>"
  have rc: "xmlSecEncResultCreate env False (initHeap ctx T) = (Success, h0)"
    using env(1) by (simp add: xmlSecEncResultCreate_def h0_def)
  have sk: "xmlSecEncResultSetKey env (Some k) h0 = (Success, h1)"
    using key(1) by (simp add: xmlSecEncResultSetKey_def h1_def k'_def)
  have ha: "h_encNode ha = T" "h_ctx ha = ctx" "res_key (h_res ha) = Some k'"
    "\<not> res_encrypt (h_res ha)" "h_nextUid ha = 0"
    by (simp_all add: ha_def h1_def h0_def initHeap_def xmlSecAddIDs_def zeroResult_def)
  have kv: "key_value k' = key_value d" by (simp add: k'_def)
  have sc: "xmlSecEncStateCreate env False ha = (Success, h2)"
    unfolding h2_def tc_def
    by (rule stateCreate_decrypt[where emIdx = emIdx and kiIdx = kiIdx and k = k'])
       (use nav m tid env key in \<open>simp_all add: ha kv\<close>)
  have cdn: "st_cipherDataNode (h_state h2) = Some i" by (simp add: h2_def)
  define tb where "tb = \<lparr>t_uid = Suc 0, t_id = xmlSecEncBase64Decode,
                                  t_encrypt = False, t_key = None, t_buf = []\<rparr>"
  define tm where "tm = \<lparr>t_uid = Suc (Suc 0), t_id = xmlSecMemBuf,
                                  t_encrypt = False, t_key = None, t_buf = []\<rparr>"
  define h5 where "h5 = h2\<lparr>h_nextUid := Suc (Suc (Suc 0)),
       h_state := (h_state h2)\<lparr>st_first := [tb, tc, tm], st_last := Some (Suc (Suc 0))\<rparr>,
       h_res := (h_res h2)\<lparr>res_buffer := Some p\<rparr>\<rparr>"
  have vr: "xmlSecCipherValueNodeRead env (children_of (children_of T ! i) ! v) h2 =
      (Success, release ContentObj h5)"
    using env ex tid(2) cv(3)
    unfolding xmlSecCipherValueNodeRead_def
    by (simp add: xmlSecTransformCreate_def xmlSecEncStateAddFirstTransform_def
        xmlSecEncStateAddTransform_def xmlSecTransformCheckType_def xmlSecBinTransformAddBefore_def
        xmlSecBinTransformAddAfter_def Let_def h2_def tc_def tb_def tm_def h5_def ha
        xmlSecBinTransformWrite_def xmlSecBinTransformFlush_def xmlSecMemBufTransformGetBuffer_def kv)
  have cr: "xmlSecCipherDataNodeRead env (children_of T ! i) h2 = (Success, release ContentObj h5)"
    unfolding xmlSecCipherDataNodeRead_def using cv vr by (simp add: Let_def)
  have b5: "res_buffer (h_res (release ContentObj h5)) = Some p"
    by (simp add: h5_def release_def)
  have n2: "h_encNode h2 = T" by (simp add: h2_def ha)
  have ty: "res_type (h_res (release ContentObj h5)) = xmlGetProp T ''Type''"
    "h_ctx (release ContentObj h5) = ctx"
    by (simp_all add: h5_def h2_def release_def attrsRead_def ha)
  have rp: "fst (xmlSecDecrypt_replace env (release ContentObj h5) p True) = Success \<and>
      map_option res_buffer (h_out (snd (xmlSecDecrypt_replace env (release ContentObj h5) p True))) =
        Some (Some p)"
    using splice b5 ty
    unfolding xmlSecDecrypt_replace_def xmlSecReplaceNodeBuffer_def
    by (auto simp: cleanup_out split: option.splits)
  have "xmlSecDecrypt env ctx (Some k) T True =
      xmlSecDecrypt_replace env (release ContentObj h5) p True"
    unfolding xmlSecDecrypt_def rc
    by (simp add: sk ha_def[symmetric] sc cdn n2 cr b5)
  with rp show ?thesis by simp
qed

lemma same_name:
  assumes "xmlSecCheckNodeName x n0 s0" "xmlSecCheckNodeName y n0 s0"
  shows "xmlSecCheckNodeName y name ns = xmlSecCheckNodeName x name ns"
    and "is_element y = is_element x"
  using assms by (cases x; cases y; simp)+

lemma check_with_children [simp]:
  "xmlSecCheckNodeName (with_children c cs) name ns = xmlSecCheckNodeName c name ns"
  "xmlSecCheckNodeName (replace_child c j w) name ns = xmlSecCheckNodeName c name ns"
  by (cases c; simp add: replace_child_def)+

lemma cipherValueWritten_name [simp]:
  "xmlSecCheckNodeName (cipherValueWritten cd cvIdx b) name ns = xmlSecCheckNodeName cd name ns"
  by (cases cvIdx) (simp_all add: cipherValueWritten_def)

lemma templateNav_update:
  assumes nav: "templateNav cs emIdx kiIdx i"
    and y: "xmlSecCheckNodeName (cs ! j) n0 s0" "xmlSecCheckNodeName y n0 s0"
  shows "templateNav (cs[j := y]) emIdx kiIdx i"
proof -
  have ne: "xmlSecGetNextElementNode (cs[j := y]) p = xmlSecGetNextElementNode cs p" for p
    by (rule nextElement_update) (simp add: same_name(2)[OF y])
  have ck: "xmlSecCheckNodeName (cs[j := y] ! c) name ns = xmlSecCheckNodeName (cs ! c) name ns"
    for c name ns
  proof (cases "c = j \<and> j < length cs")
    case True
    then show ?thesis by (simp add: same_name(1)[OF y])
  next
    case False
    then show ?thesis by (cases "j < length cs") (auto simp: list_update_beyond)
  qed
  from nav show ?thesis
    unfolding templateNav_def by (cases emIdx; cases kiIdx; simp add: ne ck Let_def)
qed

lemma nav_order:
  assumes "templateNav cs emIdx kiIdx i"
  shows "\<forall>c0 c1. emIdx = Some c0 \<longrightarrow> kiIdx = Some c1 \<longrightarrow> c0 < c1"
    and "\<forall>c0. emIdx = Some c0 \<longrightarrow> c0 < i"
    and "\<forall>c1. kiIdx = Some c1 \<longrightarrow> c1 < i"
  using assms
  by (auto simp: templateNav_def Let_def split: option.splits dest!: nextElement_Some)

lemma encrypted_template:
  assumes nav: "templateNav (children_of T) emIdx kiIdx i"
    and wk: "\<forall>c1. kiIdx = Some c1 \<longrightarrow> xmlSecCheckNodeName written ''KeyInfo'' xmlSecDSigNs"
    and cd: "xmlSecCheckNodeName cd' ''CipherData'' xmlSecEncNs"
  shows "templateNav (children_of (replace_child (keyInfoWritten T kiIdx written) i cd')) emIdx kiIdx i"
    and "methodAt env ctx (children_of (replace_child (keyInfoWritten T kiIdx written) i cd')) emIdx =
         methodAt env ctx (children_of T) emIdx"
    and "children_of (replace_child (keyInfoWritten T kiIdx written) i cd') ! i = cd'"
    and "xmlGetProp (replace_child (keyInfoWritten T kiIdx written) i cd') name = xmlGetProp T name"
proof -
  from nav_element[OF nav] obtain n s a cs where T: "T = XmlElement n s a cs" by (cases T) auto
  from nav have nav': "templateNav cs emIdx kiIdx i" by (simp add: T)
  then have il: "i < length cs" and icd: "xmlSecCheckNodeName (cs ! i) ''CipherData'' xmlSecEncNs"
    by (simp_all add: templateNav_def Let_def)
  note ord = nav_order[OF nav']
  define cs1 where "cs1 = (case kiIdx of Some c1 \<Rightarrow> cs[c1 := written] | None \<Rightarrow> cs)"
  have k: "keyInfoWritten T kiIdx written = XmlElement n s a cs1"
    by (cases kiIdx) (simp_all add: keyInfoWritten_def T cs1_def replace_child_def)
  have nav1: "templateNav cs1 emIdx kiIdx i"
  proof (cases kiIdx)
    case None
    then show ?thesis using nav' by (simp add: cs1_def)
  next
    case (Some c1)
    with nav' have "xmlSecCheckNodeName (cs ! c1) ''KeyInfo'' xmlSecDSigNs"
      by (simp add: templateNav_def Let_def)
    from templateNav_update[OF nav' this] wk Some show ?thesis by (simp add: cs1_def)
  qed
  have i1: "cs1 ! i = cs ! i" "length cs1 = length cs"
    using ord(3) by (cases kiIdx; simp add: cs1_def)+
  have e1: "\<forall>c0. emIdx = Some c0 \<longrightarrow> cs1 ! c0 = cs ! c0"
    using ord(1) by (cases kiIdx) (auto simp: cs1_def)
  have R: "replace_child (keyInfoWritten T kiIdx written) i cd' = XmlElement n s a (cs1[i := cd'])"
    by (simp add: k replace_child_def)
  show "templateNav (children_of (replace_child (keyInfoWritten T kiIdx written) i cd')) emIdx kiIdx i"
    unfolding R using templateNav_update[OF nav1 _ cd, of i] icd i1 by simp
  show "methodAt env ctx (children_of (replace_child (keyInfoWritten T kiIdx written) i cd')) emIdx =
         methodAt env ctx (children_of T) emIdx"
    unfolding R using e1 ord(2) by (cases emIdx) (auto simp: methodAt_def T)
  show "children_of (replace_child (keyInfoWritten T kiIdx written) i cd') ! i = cd'"
    unfolding R using il i1 by simp
  show "xmlGetProp (replace_child (keyInfoWritten T kiIdx written) i cd') name = xmlGetProp T name"
    unfolding R by (simp add: T)
qed

lemma getBuffer_cipherDataNode:
  "xmlSecMemBufTransformGetBuffer state = (buffer, state') \<Longrightarrow>
   st_cipherDataNode state' = st_cipherDataNode state"
  by (auto simp: xmlSecMemBufTransformGetBuffer_def Let_def split: option.splits if_splits)

section \<open>What depends on the \<open>Type\<close> attribute\<close>

lemma framed_refl [simp]: "framed h h"
  by (simp add: framed_def)

lemma framed_prims [simp]:
  "framed h (xmlSecError e h') = framed h h'"
  "framed h (release obj h') = framed h h'"
  "framed h (releaseIf b obj h') = framed h h'"
  "framed h (xmlSecAddIDs h') = framed h h'"
  "framed h (xmlSecTransformDestroy t h') = framed h h'"
  "framed h (xmlSecBinTransformDestroyAll ts h') = framed h h'"
  "framed h (xmlSecEncStateDestroy h') = framed h h'"
  "framed h (updateTransform u f h') = framed h h'"
  "framed h (xmlSecBinTransformSetEncrypt t e' h') = framed h h'"
  "framed h (withChain chain h') = framed h h'"
  "framed h (h'\<lparr>h_state := s\<rparr>) = framed h h'"
  "framed h (h'\<lparr>h_encNode := n\<rparr>) = framed h h'"
  "framed h (h'\<lparr>h_reports := rs\<rparr>) = framed h h'"
  "framed h (h'\<lparr>h_nextUid := u\<rparr>) = framed h h'"
  "framed h (h'\<lparr>h_res := (h_res h')\<lparr>res_buffer := bf\<rparr>\<rparr>) = framed h h'"
  "framed h (h'\<lparr>h_res := (h_res h')\<lparr>res_key := ky\<rparr>\<rparr>) = framed h h'"
  "framed h (h'\<lparr>h_res := (h_res h')\<lparr>res_encryptionMethod := m\<rparr>\<rparr>) = framed h h'"
  "framed h (h'\<lparr>h_ctx := (h_ctx h')\<lparr>ctx_keysMngrCtx := kc\<rparr>,
               h_res := (h_res h')\<lparr>res_key := ky\<rparr>\<rparr>) = framed h h'"
  "framed h (h'\<lparr>h_state := s, h_res := (h_res h')\<lparr>res_buffer := bf\<rparr>\<rparr>) = framed h h'"
  by (simp_all add: framed_def stateDestroy_frame destroyAll_frame xmlSecError_def release_def
      releaseIf_def xmlSecAddIDs_def xmlSecTransformDestroy_def updateTransform_def
      xmlSecBinTransformSetEncrypt_def withChain_def)

lemma framed_done [simp]:
  "framed h (xmlSecTransformStateDestroy tst h') = framed h h'"
  "framed h (xmlSecCipherReferenceNodeRead_done uri tso h') = framed h h'"
  by (simp_all add: xmlSecTransformStateDestroy_def xmlSecCipherReferenceNodeRead_done_def Let_def
      split: option.splits)

lemma framed_pairs:
  "xmlSecTransformCreate env tid h' = (c, h1) \<Longrightarrow> framed h h1 = framed h h'"
  "xmlSecTransformNodeRead env node h' = (c, h1) \<Longrightarrow> framed h h1 = framed h h'"
  "xmlSecEncStateAddTransform t h' = (r, h1) \<Longrightarrow> framed h h1 = framed h h'"
  "xmlSecEncStateAddFirstTransform t h' = (r, h1) \<Longrightarrow> framed h h1 = framed h h'"
  "xmlSecBinTransformAddKey env t v h' = (r, h1) \<Longrightarrow> framed h h1 = framed h h'"
  by (auto simp: xmlSecTransformCreate_def xmlSecTransformNodeRead_def xmlSecEncStateAddTransform_def
      xmlSecEncStateAddFirstTransform_def xmlSecBinTransformAddKey_def Let_def framed_def
      updateTransform_def xmlSecError_def
      split: if_splits option.splits)

lemma encode_framed:
  "xmlSecEncryptedDataNodeRead_encode env h' = (r, h1) \<Longrightarrow> framed h h1 = framed h h'"
  unfolding xmlSecEncryptedDataNodeRead_encode_def
  by (auto simp: framed_pairs split: if_splits option.splits prod.splits)

lemma cipherData_framed:
  "xmlSecEncryptedDataNodeRead_cipherData env h' cur = (r, h1) \<Longrightarrow> framed h h1 = framed h h'"
  unfolding xmlSecEncryptedDataNodeRead_cipherData_def Let_def
  by (auto simp: encode_framed split: if_splits option.splits)

lemma key_framed:
  "xmlSecEncryptedDataNodeRead_key env h' m cur = (r, h1) \<Longrightarrow> framed h h1 = framed h h'"
  unfolding xmlSecEncryptedDataNodeRead_key_def Let_def
  by (auto simp: framed_pairs cipherData_framed split: option.splits prod.splits if_splits)

lemma method_framed:
  "xmlSecEncryptedDataNodeRead_method env h' created cur = (r, h1) \<Longrightarrow> framed h h1 = framed h h'"
  unfolding xmlSecEncryptedDataNodeRead_method_def Let_def
  by (auto simp: framed_pairs key_framed split: option.splits prod.splits if_splits)

lemma default_framed:
  "xmlSecEncryptedDataNodeRead_default env h' cur = (r, h1) \<Longrightarrow> framed h h1 = framed h h'"
  unfolding xmlSecEncryptedDataNodeRead_default_def
  by (auto simp: framed_pairs method_framed split: option.splits prod.splits if_splits)

lemma ignoringType_fields [simp]:
  "h_encNode (ignoringType h) = h_encNode h"
  "h_res (ignoringType h) = h_res h"
  "h_state (ignoringType h) = h_state h"
  "h_nextUid (ignoringType h) = h_nextUid h"
  "h_ids (ignoringType h) = h_ids h"
  "h_spliced (ignoringType h) = h_spliced h"
  "h_out (ignoringType h) = h_out h"
  "h_reports (ignoringType h) = h_reports h"
  "h_freed (ignoringType h) = h_freed h"
  "ctx_getKey (h_ctx (ignoringType h)) = ctx_getKey (h_ctx h)"
  "ctx_keysMngrCtx (h_ctx (ignoringType h)) = ctx_keysMngrCtx (h_ctx h)"
  "ctx_encryptionMethod (h_ctx (ignoringType h)) = ctx_encryptionMethod (h_ctx h)"
  "ctx_ignoreType (h_ctx (ignoringType h))"
  by (simp_all add: ignoringType_def)

lemma case_apsnd [simp]:
  "(case apsnd g p of (a, b) \<Rightarrow> F a b) = (case p of (a, b) \<Rightarrow> F a (g b))"
  by (cases p) simp

lemma ignoringType_updates [simp]:
  "(ignoringType h)\<lparr>h_state := s\<rparr> = ignoringType (h\<lparr>h_state := s\<rparr>)"
  "(ignoringType h)\<lparr>h_encNode := n\<rparr> = ignoringType (h\<lparr>h_encNode := n\<rparr>)"
  "(ignoringType h)\<lparr>h_res := r\<rparr> = ignoringType (h\<lparr>h_res := r\<rparr>)"
  "(ignoringType h)\<lparr>h_reports := rs\<rparr> = ignoringType (h\<lparr>h_reports := rs\<rparr>)"
  "(ignoringType h)\<lparr>h_freed := fs\<rparr> = ignoringType (h\<lparr>h_freed := fs\<rparr>)"
  "(ignoringType h)\<lparr>h_nextUid := u\<rparr> = ignoringType (h\<lparr>h_nextUid := u\<rparr>)"
  "(ignoringType h)\<lparr>h_ids := is\<rparr> = ignoringType (h\<lparr>h_ids := is\<rparr>)"
  "(ignoringType h)\<lparr>h_out := ou\<rparr> = ignoringType (h\<lparr>h_out := ou\<rparr>)"
  "(ignoringType h)\<lparr>h_spliced := sp\<rparr> = ignoringType (h\<lparr>h_spliced := sp\<rparr>)"
  "(ignoringType h)\<lparr>h_ctx := (h_ctx (ignoringType h))\<lparr>ctx_keysMngrCtx := kc\<rparr>\<rparr> =
     ignoringType (h\<lparr>h_ctx := (h_ctx h)\<lparr>ctx_keysMngrCtx := kc\<rparr>\<rparr>)"
  by (simp_all add: ignoringType_def)

lemma ignoringType_prims [simp]:
  "xmlSecError e (ignoringType h) = ignoringType (xmlSecError e h)"
  "release obj (ignoringType h) = ignoringType (release obj h)"
  "releaseIf c obj (ignoringType h) = ignoringType (releaseIf c obj h)"
  "xmlSecAddIDs (ignoringType h) = ignoringType (xmlSecAddIDs h)"
  "xmlSecTransformDestroy t (ignoringType h) = ignoringType (xmlSecTransformDestroy t h)"
  "updateTransform u f (ignoringType h) = ignoringType (updateTransform u f h)"
  "xmlSecBinTransformSetEncrypt t e' (ignoringType h) = ignoringType (xmlSecBinTransformSetEncrypt t e' h)"
  "withChain chain (ignoringType h) = ignoringType (withChain chain h)"
  by (simp_all add: xmlSecError_def release_def releaseIf_def xmlSecAddIDs_def
      xmlSecTransformDestroy_def updateTransform_def xmlSecBinTransformSetEncrypt_def withChain_def)

lemma ignoringType_destroyAll [simp]:
  "xmlSecBinTransformDestroyAll ts (ignoringType h) = ignoringType (xmlSecBinTransformDestroyAll ts h)"
  unfolding xmlSecBinTransformDestroyAll_def
  by (induction ts arbitrary: h) simp_all

lemma ignoringType_destroy [simp]:
  "xmlSecEncStateDestroy (ignoringType h) = ignoringType (xmlSecEncStateDestroy h)"
  "xmlSecEncResultDestroy (ignoringType h) = ignoringType (xmlSecEncResultDestroy h)"
  "xmlSecTransformStateDestroy tst (ignoringType h) = ignoringType (xmlSecTransformStateDestroy tst h)"
  "xmlSecCipherReferenceNodeRead_done uri tso (ignoringType h) =
     ignoringType (xmlSecCipherReferenceNodeRead_done uri tso h)"
  by (simp_all add: xmlSecEncStateDestroy_def xmlSecEncResultDestroy_def Let_def
      xmlSecTransformStateDestroy_def xmlSecCipherReferenceNodeRead_done_def split: option.splits)

lemma ignoringType_pairs [simp]:
  "xmlSecTransformCreate env tid (ignoringType h) = apsnd ignoringType (xmlSecTransformCreate env tid h)"
  "xmlSecTransformNodeRead env node (ignoringType h) = apsnd ignoringType (xmlSecTransformNodeRead env node h)"
  "xmlSecEncStateAddTransform t (ignoringType h) = apsnd ignoringType (xmlSecEncStateAddTransform t h)"
  "xmlSecEncStateAddFirstTransform t (ignoringType h) = apsnd ignoringType (xmlSecEncStateAddFirstTransform t h)"
  "xmlSecBinTransformAddKey env t v (ignoringType h) = apsnd ignoringType (xmlSecBinTransformAddKey env t v h)"
  "xmlSecEncResultCreate env e (ignoringType h) = apsnd ignoringType (xmlSecEncResultCreate env e h)"
  "xmlSecEncResultSetKey env key (ignoringType h) = apsnd ignoringType (xmlSecEncResultSetKey env key h)"
  by (auto simp: xmlSecTransformCreate_def xmlSecTransformNodeRead_def xmlSecEncStateAddTransform_def
      xmlSecEncStateAddFirstTransform_def xmlSecBinTransformAddKey_def Let_def
      xmlSecEncResultCreate_def xmlSecEncResultSetKey_def
      split: if_splits option.splits)

lemma ignoringType_encode [simp]:
  "xmlSecEncryptedDataNodeRead_encode env (ignoringType h) =
     apsnd ignoringType (xmlSecEncryptedDataNodeRead_encode env h)"
  unfolding xmlSecEncryptedDataNodeRead_encode_def
  by (auto split: if_splits option.splits prod.splits)

lemma ignoringType_cipherData [simp]:
  "xmlSecEncryptedDataNodeRead_cipherData env (ignoringType h) cur =
     apsnd ignoringType (xmlSecEncryptedDataNodeRead_cipherData env h cur)"
  unfolding xmlSecEncryptedDataNodeRead_cipherData_def Let_def
  by (auto split: if_splits option.splits)

lemma ignoringType_key [simp]:
  "xmlSecEncryptedDataNodeRead_key env (ignoringType h) m cur =
     apsnd ignoringType (xmlSecEncryptedDataNodeRead_key env h m cur)"
  by (cases cur; cases "res_encrypt (h_res h)"; cases "ctx_getKey (h_ctx h)";
      cases "res_key (h_res h)";
      cases "xmlSecCheckNodeName (children_of (h_encNode h) ! (the cur)) ''KeyInfo'' xmlSecDSigNs";
      simp add: xmlSecEncryptedDataNodeRead_key_def Let_def xmlSecBinTransformAddKey_def
        split: option.splits)

lemma ignoringType_method [simp]:
  "xmlSecEncryptedDataNodeRead_method env (ignoringType h) created cur =
     apsnd ignoringType (xmlSecEncryptedDataNodeRead_method env h created cur)"
  unfolding xmlSecEncryptedDataNodeRead_method_def Let_def
  by (simp split: option.splits prod.splits)

lemma ignoringType_default [simp]:
  "xmlSecEncryptedDataNodeRead_default env (ignoringType h) cur =
     apsnd ignoringType (xmlSecEncryptedDataNodeRead_default env h cur)"
  unfolding xmlSecEncryptedDataNodeRead_default_def
  by (simp split: option.splits prod.splits)

lemma ignoringType_nodeRead [simp]:
  "xmlSecEncryptedDataNodeRead env (ignoringType h) =
     apsnd ignoringType (xmlSecEncryptedDataNodeRead env h)"
  unfolding xmlSecEncryptedDataNodeRead_def Let_def
  by (simp split: option.splits prod.splits)

lemma ignoringType_stateCreate [simp]:
  "xmlSecEncStateCreate env e (ignoringType h) = apsnd ignoringType (xmlSecEncStateCreate env e h)"
  unfolding xmlSecEncStateCreate_def
  by (simp split: option.splits prod.splits)

lemma ignoringType_exits [simp]:
  "failBoth (ignoringType h) = apsnd ignoringType (failBoth h)"
  "failBothStateFirst (ignoringType h) = apsnd ignoringType (failBothStateFirst h)"
  "cleanup result (ignoringType h) = apsnd ignoringType (cleanup result h)"
  by (simp_all add: failBoth_def failBothStateFirst_def cleanup_def)

lemma ignoringType_cipherValueRead [simp]:
  "xmlSecCipherValueNodeRead env node (ignoringType h) =
     apsnd ignoringType (xmlSecCipherValueNodeRead env node h)"
  unfolding xmlSecCipherValueNodeRead_def Let_def
  by (simp split: option.splits prod.splits)

lemma ignoringType_cipherReferenceRead [simp]:
  "xmlSecCipherReferenceNodeRead env node (ignoringType h) =
     apsnd ignoringType (xmlSecCipherReferenceNodeRead env node h)"
  unfolding xmlSecCipherReferenceNodeRead_def Let_def
  by (simp split: option.splits prod.splits)

lemma ignoringType_cipherDataRead [simp]:
  "xmlSecCipherDataNodeRead env node (ignoringType h) =
     apsnd ignoringType (xmlSecCipherDataNodeRead env node h)"
  unfolding xmlSecCipherDataNodeRead_def Let_def
  by (auto split: option.splits prod.splits)

lemma framedD:
  "framed h h1 \<Longrightarrow> h_spliced h1 = h_spliced h"
  "framed h h1 \<Longrightarrow> h_out h1 = h_out h"
  "framed h h1 \<Longrightarrow> ctx_ignoreType (h_ctx h1) = ctx_ignoreType (h_ctx h)"
  "framed h h1 \<Longrightarrow> res_type (h_res h1) = res_type (h_res h)"
  "framed h h1 \<Longrightarrow> res_replaced (h_res h1) = res_replaced (h_res h)"
  by (simp_all add: framed_def)

lemma framed_snd:
  "framed h (snd (xmlSecEncryptedDataNodeRead_default env h' cur)) = framed h h'"
  "framed h (snd (xmlSecEncryptedDataNodeRead_method env h' created cur)) = framed h h'"
  "framed h (snd (xmlSecTransformNodeRead env node h')) = framed h h'"
proof -
  show "framed h (snd (xmlSecEncryptedDataNodeRead_default env h' cur)) = framed h h'"
    by (cases "xmlSecEncryptedDataNodeRead_default env h' cur") (simp add: default_framed)
  show "framed h (snd (xmlSecEncryptedDataNodeRead_method env h' created cur)) = framed h h'"
    by (cases "xmlSecEncryptedDataNodeRead_method env h' created cur") (simp add: method_framed)
  show "framed h (snd (xmlSecTransformNodeRead env node h')) = framed h h'"
    by (cases "xmlSecTransformNodeRead env node h'") (simp add: framed_pairs)
qed

lemma nodeRead_framed:
  "framed (h\<lparr>h_res := (h_res h)\<lparr>res_id := xmlGetProp (h_encNode h) ''Id'',
                                  res_type := xmlGetProp (h_encNode h) ''Type'',
                                  res_mimeType := xmlGetProp (h_encNode h) ''MimeType'',
                                  res_encoding := xmlGetProp (h_encNode h) ''Encoding''\<rparr>\<rparr>)
          (snd (xmlSecEncryptedDataNodeRead env h))"
  unfolding xmlSecEncryptedDataNodeRead_def Let_def
  by (simp add: framed_snd split_beta split: option.splits)

lemma stateCreate_framed:
  "h_spliced (snd (xmlSecEncStateCreate env e h)) = h_spliced h"
  "h_out (snd (xmlSecEncStateCreate env e h)) = h_out h"
  "ctx_ignoreType (h_ctx (snd (xmlSecEncStateCreate env e h))) = ctx_ignoreType (h_ctx h)"
  "res_replaced (h_res (snd (xmlSecEncStateCreate env e h))) = res_replaced (h_res h)"
  "fst (xmlSecEncStateCreate env e h) = Success \<Longrightarrow>
     res_type (h_res (snd (xmlSecEncStateCreate env e h))) = xmlGetProp (h_encNode h) ''Type''"
  using nodeRead_framed[of "h\<lparr>h_state := zeroState\<lparr>st_encrypt := e\<rparr>\<rparr>" env]
  unfolding xmlSecEncStateCreate_def
  by (auto simp: framed_def xmlSecError_def split: prod.splits if_splits)

lemma cipherValueRead_framed:
  "xmlSecCipherValueNodeRead env node h' = (r, h1) \<Longrightarrow> framed h h1 = framed h h'"
  unfolding xmlSecCipherValueNodeRead_def Let_def
  by (auto simp: framed_pairs split: option.splits prod.splits if_splits)

lemma cipherReferenceRead_framed:
  "xmlSecCipherReferenceNodeRead env node h' = (r, h1) \<Longrightarrow> framed h h1 = framed h h'"
  unfolding xmlSecCipherReferenceNodeRead_def Let_def
  by (auto simp: framed_pairs split: option.splits prod.splits if_splits)

lemma cipherDataRead_framed:
  "framed h (snd (xmlSecCipherDataNodeRead env node h))"
  unfolding xmlSecCipherDataNodeRead_def Let_def
  by (auto simp: cipherValueRead_framed cipherReferenceRead_framed split: option.splits prod.splits if_splits)

lemma writeResult_framed:
  "h_spliced (snd (xmlSecEncStateWriteResult h)) = h_spliced h"
  "h_out (snd (xmlSecEncStateWriteResult h)) = h_out h"
  "ctx_ignoreType (h_ctx (snd (xmlSecEncStateWriteResult h))) = ctx_ignoreType (h_ctx h)"
  "fst (xmlSecEncStateWriteResult h) = Success \<Longrightarrow>
     res_type (h_res (snd (xmlSecEncStateWriteResult h))) = res_type (h_res h) \<and>
     res_replaced (h_res (snd (xmlSecEncStateWriteResult h))) = res_replaced (h_res h)"
  unfolding xmlSecEncStateWriteResult_def Let_def
  by (auto split: option.splits prod.splits if_splits)

lemma decrypt_replace_unknown:
  "res_type (h_res h) = Some t \<Longrightarrow> t \<noteq> xmlSecEncTypeElement \<Longrightarrow> t \<noteq> xmlSecEncTypeContent \<Longrightarrow>
   xmlSecDecrypt_replace env h buffer result = cleanup result h"
  by (simp add: xmlSecDecrypt_replace_def)

lemma decrypt_replace_ignoring:
  "xmlSecDecrypt_replace env (ignoringType h) buffer result = cleanup result (ignoringType h)"
  by (simp add: xmlSecDecrypt_replace_def)

lemma initHeap_ignoring:
  "initHeap (ctx\<lparr>ctx_ignoreType := True\<rparr>) encNode = ignoringType (initHeap ctx encNode)"
  by (simp add: initHeap_def ignoringType_def)

lemma decrypt_chain:
  assumes "rc = xmlSecEncResultCreate env False (initHeap ctx encNode)"
    and "sk = xmlSecEncResultSetKey env key (snd rc)"
    and "sc = xmlSecEncStateCreate env False (xmlSecAddIDs (snd sk))"
    and "rd = xmlSecCipherDataNodeRead env
                (children_of (h_encNode (snd sc)) ! the (st_cipherDataNode (h_state (snd sc)))) (snd sc)"
  shows "xmlSecDecrypt env ctx key encNode result =
     (if fst rc \<noteq> Success then (Failure, xmlSecError XMLSEC_ERRORS_R_XMLSEC_FAILED (snd rc))
      else if fst sk \<noteq> Success then sk
      else if fst sc \<noteq> Success
      then (Failure, xmlSecEncResultDestroy (xmlSecError XMLSEC_ERRORS_R_XMLSEC_FAILED (snd sc)))
      else if st_cipherDataNode (h_state (snd sc)) = None
      then (Failure,
            xmlSecEncStateDestroy
              (xmlSecEncResultDestroy (xmlSecError XMLSEC_ERRORS_R_NODE_NOT_FOUND (snd sc))))
      else if fst rd \<noteq> Success \<or> res_buffer (h_res (snd rd)) = None then failBoth (snd rd)
      else xmlSecDecrypt_replace env (snd rd) (the (res_buffer (h_res (snd rd)))) result)"
  unfolding assms xmlSecDecrypt_def
  by (simp add: split_beta split: option.splits)

lemma encryptXmlNode_chain:
  assumes "rc = xmlSecEncResultCreate env True (initHeap ctx encNode)"
    and "sk = xmlSecEncResultSetKey env key (snd rc)"
    and "sc = xmlSecEncStateCreate env True (xmlSecAddIDs (snd sk))"
    and "dump = xmlSecEncryptXmlNode_dump env (snd sc) src"
    and "wr = xmlSecBinTransformWrite (st_first (h_state (snd sc))) (the dump)"
    and "fl = xmlSecBinTransformFlush env (the wr)"
    and "res = xmlSecEncStateWriteResult (withChain (the fl) (release XmlBufferObj (snd sc)))"
  shows "xmlSecEncryptXmlNode env ctx key encNode src result =
     (if fst rc \<noteq> Success then (Failure, xmlSecError XMLSEC_ERRORS_R_XMLSEC_FAILED (snd rc))
      else if fst sk \<noteq> Success then sk
      else if fst sc \<noteq> Success
      then (Failure, xmlSecEncResultDestroy (xmlSecError XMLSEC_ERRORS_R_XMLSEC_FAILED (snd sc)))
      else if \<not> env_bufferAlloc env then failBoth (snd sc)
      else if dump = None
      then (Failure,
            xmlSecEncStateDestroy
              (xmlSecEncResultDestroy
                 (release XmlBufferObj (xmlSecError XMLSEC_ERRORS_R_INVALID_TYPE (snd sc)))))
      else if wr = None then failBoth (release XmlBufferObj (snd sc))
      else if fl = None then failBoth (withChain (the wr) (release XmlBufferObj (snd sc)))
      else if fst res \<noteq> Success then failBothStateFirst (snd res)
      else xmlSecEncryptXmlNode_replace (snd res) src result)"
  unfolding assms xmlSecEncryptXmlNode_def
  by (simp add: split_beta split: option.splits)

lemma prologue_type:
  assumes "rc = xmlSecEncResultCreate env e (initHeap ctx encNode)"
    and "sk = xmlSecEncResultSetKey env key (snd rc)"
    and "sc = xmlSecEncStateCreate env e (xmlSecAddIDs (snd sk))"
  shows "h_spliced (snd rc) = None" "h_out (snd rc) = None"
    "h_spliced (snd sk) = None" "h_out (snd sk) = None"
    "h_spliced (snd sc) = None" "h_out (snd sc) = None"
    "ctx_ignoreType (h_ctx (snd sc)) = ctx_ignoreType ctx"
    "\<not> res_replaced (h_res (snd sc))"
    "fst sc = Success \<Longrightarrow> res_type (h_res (snd sc)) = xmlGetProp encNode ''Type''"
proof -
  have rc: "h_spliced (snd rc) = None" "h_out (snd rc) = None" "h_ctx (snd rc) = ctx"
    "h_encNode (snd rc) = encNode" "\<not> res_replaced (h_res (snd rc))"
    unfolding assms(1) by (simp_all add: xmlSecEncResultCreate_def initHeap_def zeroResult_def xmlSecError_def)
  have sk: "h_spliced (snd sk) = None" "h_out (snd sk) = None" "h_ctx (snd sk) = ctx"
    "h_encNode (snd sk) = encNode" "\<not> res_replaced (h_res (snd sk))"
    unfolding assms(2) using rc by (simp_all add: xmlSecEncResultSetKey_def split: option.splits)
  show "h_spliced (snd rc) = None" "h_out (snd rc) = None"
    "h_spliced (snd sk) = None" "h_out (snd sk) = None"
    by (rule rc sk)+
  show "h_spliced (snd sc) = None" "h_out (snd sc) = None"
    "ctx_ignoreType (h_ctx (snd sc)) = ctx_ignoreType ctx"
    "\<not> res_replaced (h_res (snd sc))"
    unfolding assms(3) using sk by (simp_all add: stateCreate_framed xmlSecAddIDs_def)
  show "fst sc = Success \<Longrightarrow> res_type (h_res (snd sc)) = xmlGetProp encNode ''Type''"
    unfolding assms(3) using sk by (simp add: stateCreate_framed)
qed

lemma encryptXmlNode_replace_unknown:
  "res_type (h_res h) = Some t \<Longrightarrow> t \<noteq> xmlSecEncTypeElement \<Longrightarrow> t \<noteq> xmlSecEncTypeContent \<Longrightarrow>
   xmlSecEncryptXmlNode_replace h src result = cleanup result h"
  by (simp add: xmlSecEncryptXmlNode_replace_def)

lemma exits_frame:
  "h_spliced (snd (failBoth h)) = h_spliced h" "h_out (snd (failBoth h)) = h_out h"
  "fst (failBoth h) = Failure"
  "h_spliced (snd (failBothStateFirst h)) = h_spliced h"
  "h_out (snd (failBothStateFirst h)) = h_out h"
  "fst (failBothStateFirst h) = Failure"
  "h_spliced (snd (cleanup result h)) = h_spliced h"
  "fst (cleanup result h) = Success"
  by (simp_all add: failBoth_def failBothStateFirst_def cleanup_def)

lemma sessionCreated_chain:
  assumes "rc = xmlSecEncResultCreate env e (initHeap ctx encNode)"
    and "sk = xmlSecEncResultSetKey env key (snd rc)"
    and "sc = xmlSecEncStateCreate env e (xmlSecAddIDs (snd sk))"
  shows "sessionCreated env ctx key encNode e =
           (fst rc = Success \<and> fst sk = Success \<and> fst sc = Success)"
  unfolding assms sessionCreated_def by (simp add: split_beta)

section \<open>Key resolution and the write, in the operations\<close>

lemma key_stage_callback:
  assumes "res_key (h_res h) = None" and "ctx_getKey (h_ctx h) = Some getKey"
  shows "ctx_keysMngrCtx (h_ctx (snd (xmlSecEncryptedDataNodeRead_key env h encryptionMethod cur))) =
           keyHints (h_ctx h) (res_encrypt (h_res h)) (t_id encryptionMethod) \<and>
         res_key (h_res (snd (xmlSecEncryptedDataNodeRead_key env h encryptionMethod cur))) =
           getKey (keyInfoAt (h_encNode h) cur) (keyHints (h_ctx h) (res_encrypt (h_res h)) (t_id encryptionMethod)) \<and>
         (getKey (keyInfoAt (h_encNode h) cur) (keyHints (h_ctx h) (res_encrypt (h_res h)) (t_id encryptionMethod)) = None \<longrightarrow>
            fst (xmlSecEncryptedDataNodeRead_key env h encryptionMethod cur) = Failure \<and>
            h_reports (snd (xmlSecEncryptedDataNodeRead_key env h encryptionMethod cur)) =
              h_reports h @ [XMLSEC_ERRORS_R_KEY_NOT_FOUND] \<and>
            h_encNode (snd (xmlSecEncryptedDataNodeRead_key env h encryptionMethod cur)) = h_encNode h)"
proof -
  let ?hints = "keyHints (h_ctx h) (res_encrypt (h_res h)) (t_id encryptionMethod)"
  let ?ki = "keyInfoAt (h_encNode h) cur"
  let ?h1 = "h\<lparr>h_ctx := (h_ctx h)\<lparr>ctx_keysMngrCtx := ?hints\<rparr>,
               h_res := (h_res h)\<lparr>res_key := getKey ?ki ?hints\<rparr>\<rparr>"
  have k: "keyInfoAt (h_encNode h) cur = map_option ((!) (children_of (h_encNode h)))
      (if (case cur of None \<Rightarrow> False
           | Some c \<Rightarrow> xmlSecCheckNodeName (children_of (h_encNode h) ! c) ''KeyInfo'' xmlSecDSigNs)
       then cur else None)"
    by (cases cur) (simp_all add: keyInfoAt_def)
  have hints: "?hints = (if res_encrypt (h_res h)
                 then (ctx_keysMngrCtx (h_ctx h))\<lparr>keyType := id_encKeyType (t_id encryptionMethod),
                                                 keyUsage := xmlSecKeyUsageEncrypt\<rparr>
                 else (ctx_keysMngrCtx (h_ctx h))\<lparr>keyType := id_decKeyType (t_id encryptionMethod),
                                                 keyUsage := xmlSecKeyUsageDecrypt\<rparr>)
               \<lparr>keyId := id_keyId (t_id encryptionMethod)\<rparr>"
    by (simp add: keyHints_def)
  show ?thesis
  proof (cases "getKey ?ki ?hints")
    case None
    with assms show ?thesis
      unfolding xmlSecEncryptedDataNodeRead_key_def Let_def k[symmetric] hints[symmetric]
      by (simp add: addTransform_frame)
  next
    case (Some key)
    with assms show ?thesis
      unfolding xmlSecEncryptedDataNodeRead_key_def Let_def k[symmetric] hints[symmetric]
        xmlSecBinTransformAddKey_def
      by (simp add: cipherData_frame addTransform_frame split: option.splits)
  qed
qed


lemma nodeRead_dispatch:
  assumes m: "methodOf env (h_ctx h) (h_encNode h) = Some tid"
  shows "xmlSecEncryptedDataNodeRead env h =
     (case xmlSecTransformCreate env tid
             (h\<lparr>h_res := (h_res h)\<lparr>res_id := xmlGetProp (h_encNode h) ''Id'',
                                     res_type := xmlGetProp (h_encNode h) ''Type'',
                                     res_mimeType := xmlGetProp (h_encNode h) ''MimeType'',
                                     res_encoding := xmlGetProp (h_encNode h) ''Encoding''\<rparr>\<rparr>) of
        (created, h2) \<Rightarrow>
          xmlSecEncryptedDataNodeRead_method env h2 created (afterMethod (h_encNode h)))"
proof (cases "xmlSecGetNextElementNode (children_of (h_encNode h)) 0")
  case None
  with m show ?thesis
    unfolding xmlSecEncryptedDataNodeRead_def xmlSecEncryptedDataNodeRead_default_def
      methodOf_def afterMethod_def Let_def
    by simp
next
  case (Some c)
  show ?thesis
  proof (cases "xmlSecCheckNodeName (children_of (h_encNode h) ! c) ''EncryptionMethod'' xmlSecEncNs")
    case True
    with m Some obtain href where
      href: "xmlGetProp (children_of (h_encNode h) ! c) ''Algorithm'' = Some href"
        "env_registry env href = Some tid"
      by (auto simp: methodOf_def Let_def split: option.splits)
    with Some True show ?thesis
      unfolding xmlSecEncryptedDataNodeRead_def afterMethod_def Let_def xmlSecTransformNodeRead_def
      by simp
  next
    case False
    with m Some show ?thesis
      unfolding xmlSecEncryptedDataNodeRead_def xmlSecEncryptedDataNodeRead_default_def
        methodOf_def afterMethod_def Let_def
      by simp
  qed
qed












lemma stateCreate_callback:
  assumes nk: "res_key (h_res h) = None"
    and cb: "ctx_getKey (h_ctx h) = Some getKey"
    and al: "env_stateAlloc env"
    and m: "methodOf env (h_ctx h) (h_encNode h) = Some tid"
    and cr: "env_create env tid" "id_type tid = xmlSecTransformTypeBinary"
  shows "ctx_keysMngrCtx (h_ctx (snd (xmlSecEncStateCreate env e h))) =
           keyHints (h_ctx h) (res_encrypt (h_res h)) tid"
    and "res_key (h_res (snd (xmlSecEncStateCreate env e h))) =
           getKey (keyInfoAt (h_encNode h) (afterMethod (h_encNode h)))
             (keyHints (h_ctx h) (res_encrypt (h_res h)) tid)"
    and "getKey (keyInfoAt (h_encNode h) (afterMethod (h_encNode h)))
             (keyHints (h_ctx h) (res_encrypt (h_res h)) tid) = None \<Longrightarrow>
         fst (xmlSecEncStateCreate env e h) = Failure \<and>
         h_reports (snd (xmlSecEncStateCreate env e h)) =
           h_reports h @ [XMLSEC_ERRORS_R_KEY_NOT_FOUND, XMLSEC_ERRORS_R_XMLSEC_FAILED] \<and>
         h_encNode (snd (xmlSecEncStateCreate env e h)) = h_encNode h"
proof -
  let ?cur = "afterMethod (h_encNode h)"
  define h0 where "h0 = h\<lparr>h_state := zeroState\<lparr>st_encrypt := e\<rparr>\<rparr>"
  define h1 where "h1 = h0\<lparr>h_res := (h_res h0)\<lparr>res_id := xmlGetProp (h_encNode h0) ''Id'',
                                     res_type := xmlGetProp (h_encNode h0) ''Type'',
                                     res_mimeType := xmlGetProp (h_encNode h0) ''MimeType'',
                                     res_encoding := xmlGetProp (h_encNode h0) ''Encoding''\<rparr>\<rparr>"
  define T where "T = \<lparr>t_uid = h_nextUid h1, t_id = tid, t_encrypt = False, t_key = None, t_buf = []\<rparr>"
  define h3 where "h3 = h1\<lparr>h_nextUid := Suc (h_nextUid h1),
          h_state := (h_state h1)\<lparr>st_last := Some (h_nextUid h1),
                                   st_first := [\<lparr>t_uid = h_nextUid h1, t_id = tid,
                                                 t_encrypt = st_encrypt (h_state h1), t_key = None, t_buf = []\<rparr>]\<rparr>,
          h_res := (h_res h1)\<lparr>res_encryptionMethod := Some tid\<rparr>\<rparr>"
  have m0: "methodOf env (h_ctx h0) (h_encNode h0) = Some tid" using m by (simp add: h0_def)
  have l: "st_last (h_state h1) = None" by (simp add: h1_def h0_def zeroState_def)
  have nr: "xmlSecEncryptedDataNodeRead env h0 = xmlSecEncryptedDataNodeRead_key env h3 T ?cur"
    unfolding nodeRead_dispatch[OF m0] h1_def[symmetric]
    unfolding method_stage[OF cr l] h3_def T_def
    by (simp add: h0_def)
  have f: "res_key (h_res h3) = None" "ctx_getKey (h_ctx h3) = Some getKey"
    "h_ctx h3 = h_ctx h" "res_encrypt (h_res h3) = res_encrypt (h_res h)"
    "h_encNode h3 = h_encNode h" "h_reports h3 = h_reports h" "t_id T = tid"
    using nk cb by (simp_all add: h3_def h1_def h0_def T_def)
  note k = key_stage_callback[OF f(1) f(2), of env T ?cur, unfolded f(3-7)]
  have sc: "xmlSecEncStateCreate env e h =
              (if fst (xmlSecEncryptedDataNodeRead_key env h3 T ?cur) \<noteq> Success
               then (Failure,
                     xmlSecEncStateDestroy
                       (xmlSecError XMLSEC_ERRORS_R_XMLSEC_FAILED
                          (snd (xmlSecEncryptedDataNodeRead_key env h3 T ?cur))))
               else (Success, snd (xmlSecEncryptedDataNodeRead_key env h3 T ?cur)))"
    unfolding xmlSecEncStateCreate_def h0_def[symmetric] nr using al by (simp add: split_beta)
  show "ctx_keysMngrCtx (h_ctx (snd (xmlSecEncStateCreate env e h))) =
           keyHints (h_ctx h) (res_encrypt (h_res h)) tid"
    unfolding sc using k by simp
  show "res_key (h_res (snd (xmlSecEncStateCreate env e h))) =
           getKey (keyInfoAt (h_encNode h) ?cur) (keyHints (h_ctx h) (res_encrypt (h_res h)) tid)"
    unfolding sc using k by (simp add: addTransform_frame)
  show "fst (xmlSecEncStateCreate env e h) = Failure \<and>
         h_reports (snd (xmlSecEncStateCreate env e h)) =
           h_reports h @ [XMLSEC_ERRORS_R_KEY_NOT_FOUND, XMLSEC_ERRORS_R_XMLSEC_FAILED] \<and>
         h_encNode (snd (xmlSecEncStateCreate env e h)) = h_encNode h"
    if "getKey (keyInfoAt (h_encNode h) ?cur) (keyHints (h_ctx h) (res_encrypt (h_res h)) tid) = None"
    unfolding sc using k that by simp
qed

lemma addFirst_frame:
  "h_ctx (snd (xmlSecEncStateAddFirstTransform t h)) = h_ctx h"
  "h_res (snd (xmlSecEncStateAddFirstTransform t h)) = h_res h"
  "h_encNode (snd (xmlSecEncStateAddFirstTransform t h)) = h_encNode h"
  "st_cipherDataNode (h_state (snd (xmlSecEncStateAddFirstTransform t h))) =
     st_cipherDataNode (h_state h)"
  "st_cipherDataNode (h_state (snd (xmlSecTransformCreate env tid h))) =
     st_cipherDataNode (h_state h)"
  by (simp_all add: xmlSecEncStateAddFirstTransform_def xmlSecTransformCreate_def Let_def
      xmlSecError_def split: option.splits)

lemma writeResult_outcome:
  "h_ctx (snd (xmlSecEncStateWriteResult h)) = h_ctx h"
  "fst (xmlSecEncStateWriteResult h) = Success \<Longrightarrow>
     res_key (h_res (snd (xmlSecEncStateWriteResult h))) = res_key (h_res h)"
  "fst (xmlSecEncStateWriteResult h) = Success \<Longrightarrow>
     \<exists>i octets.
        st_cipherDataNode (h_state h) = Some i \<and>
        res_buffer (h_res (snd (xmlSecEncStateWriteResult h))) = Some octets \<and>
        fst (xmlSecCipherDataNodeWrite (children_of (h_encNode h) ! i) octets) = Success \<and>
        h_encNode (snd (xmlSecEncStateWriteResult h)) =
          replace_child (h_encNode h) i
            (snd (snd (xmlSecCipherDataNodeWrite (children_of (h_encNode h) ! i) octets)))"
  unfolding xmlSecEncStateWriteResult_def
  by (auto simp: Let_def getBuffer_cipherDataNode split: prod.splits option.splits if_splits)

lemma exits_ctx:
  "h_ctx (snd (failBoth h)) = h_ctx h"
  "h_ctx (snd (failBothStateFirst h)) = h_ctx h"
  "h_ctx (snd (cleanup result h)) = h_ctx h"
  "h_encNode (snd (cleanup result h)) = h_encNode h"
  "h_ctx (snd (xmlSecEncryptXmlNode_replace h src result)) = h_ctx h"
  "h_ctx (snd (xmlSecDecrypt_replace env h buffer result)) = h_ctx h"
  "h_encNode (snd (xmlSecEncryptXmlNode_replace h src result)) = h_encNode h"
  by (simp_all add: failBoth_def failBothStateFirst_def cleanup_def
      xmlSecEncryptXmlNode_replace_def xmlSecDecrypt_replace_def split: option.splits)

lemma replace_out:
  "fst (xmlSecEncryptXmlNode_replace h src True) = Success \<Longrightarrow>
     \<exists>r. h_out (snd (xmlSecEncryptXmlNode_replace h src True)) = Some r \<and>
         res_key r = res_key (h_res h) \<and> res_buffer r = res_buffer (h_res h)"
  "fst (xmlSecDecrypt_replace env h buffer True) = Success \<Longrightarrow>
     \<exists>r. h_out (snd (xmlSecDecrypt_replace env h buffer True)) = Some r \<and>
         res_key r = res_key (h_res h)"
  by (auto simp: xmlSecEncryptXmlNode_replace_def xmlSecDecrypt_replace_def cleanup_out
      failBoth_def failBothStateFirst_def split: option.splits if_splits)

lemma tail_props:
  assumes ex: "sessionExit result src hs outcome"
  shows "h_ctx (snd outcome) = h_ctx hs"
    and "fst outcome = Success \<Longrightarrow>
         \<exists>i octets.
            st_cipherDataNode (h_state hs) = Some i \<and>
            fst (xmlSecCipherDataNodeWrite (children_of (h_encNode hs) ! i) octets) = Success \<and>
            h_encNode (snd outcome) =
              replace_child (h_encNode hs) i
                (snd (snd (xmlSecCipherDataNodeWrite (children_of (h_encNode hs) ! i) octets))) \<and>
            (result \<longrightarrow>
               (\<exists>r. h_out (snd outcome) = Some r \<and> res_key r = res_key (h_res hs) \<and>
                    res_buffer r = Some octets))"
proof -
  show "h_ctx (snd outcome) = h_ctx hs"
    using ex unfolding sessionExit_def by (auto simp: exits_ctx writeResult_outcome)
  assume ok: "fst outcome = Success"
  with ex[unfolded sessionExit_def] obtain hw where
    hw: "h_ctx hw = h_ctx hs" "h_res hw = h_res hs" "h_encNode hw = h_encNode hs"
        "st_cipherDataNode (h_state hw) = st_cipherDataNode (h_state hs)"
    and o: "outcome = (if fst (xmlSecEncStateWriteResult hw) \<noteq> Success
                             then failBothStateFirst (snd (xmlSecEncStateWriteResult hw))
                             else cleanup result (snd (xmlSecEncStateWriteResult hw))) \<or>
            outcome = (if fst (xmlSecEncStateWriteResult hw) \<noteq> Success
                             then failBothStateFirst (snd (xmlSecEncStateWriteResult hw))
                             else xmlSecEncryptXmlNode_replace (snd (xmlSecEncStateWriteResult hw))
                                    src result)"
    by blast
  let ?w = "xmlSecEncStateWriteResult hw"
  from ok o have w: "fst ?w = Success"
    by (auto simp: failBothStateFirst_def split: if_splits)
  from writeResult_outcome(3)[OF w] obtain i octets where
    io: "st_cipherDataNode (h_state hw) = Some i"
        "res_buffer (h_res (snd ?w)) = Some octets"
        "fst (xmlSecCipherDataNodeWrite (children_of (h_encNode hw) ! i) octets) = Success"
        "h_encNode (snd ?w) =
          replace_child (h_encNode hw) i
            (snd (snd (xmlSecCipherDataNodeWrite (children_of (h_encNode hw) ! i) octets)))"
    by blast
  note k = writeResult_outcome(2)[OF w]
  from o w have en: "h_encNode (snd outcome) = h_encNode (snd ?w)"
    by (auto simp: exits_ctx)
  have out: "result \<longrightarrow>
               (\<exists>r. h_out (snd outcome) = Some r \<and> res_key r = res_key (h_res hs) \<and>
                    res_buffer r = Some octets)"
  proof
    assume result
    from o show "\<exists>r. h_out (snd outcome) = Some r \<and> res_key r = res_key (h_res hs) \<and>
                    res_buffer r = Some octets"
    proof
      assume "outcome = (if fst ?w \<noteq> Success then failBothStateFirst (snd ?w)
                         else cleanup result (snd ?w))"
      with w \<open>result\<close> show ?thesis using k io(2) hw(2) by (simp add: cleanup_out)
    next
      assume a: "outcome = (if fst ?w \<noteq> Success then failBothStateFirst (snd ?w)
                         else xmlSecEncryptXmlNode_replace (snd ?w) src result)"
      with w \<open>result\<close> have e: "outcome = xmlSecEncryptXmlNode_replace (snd ?w) src True" by simp
      from replace_out(1)[OF ok[unfolded e]] show ?thesis
        unfolding e using k io(2) hw(2) by auto
    qed
  qed
  from io en out hw show "\<exists>i octets.
            st_cipherDataNode (h_state hs) = Some i \<and>
            fst (xmlSecCipherDataNodeWrite (children_of (h_encNode hs) ! i) octets) = Success \<and>
            h_encNode (snd outcome) =
              replace_child (h_encNode hs) i
                (snd (snd (xmlSecCipherDataNodeWrite (children_of (h_encNode hs) ! i) octets))) \<and>
            (result \<longrightarrow>
               (\<exists>r. h_out (snd outcome) = Some r \<and> res_key r = res_key (h_res hs) \<and>
                    res_buffer r = Some octets))"
    by auto
qed

lemma sessionExit_failure:
  "fst outcome \<noteq> Success \<Longrightarrow> h_ctx (snd outcome) = h_ctx hs \<Longrightarrow> sessionExit result src hs outcome"
  by (simp add: sessionExit_def)

lemma sessionExit_write:
  assumes "h_ctx hw = h_ctx hs" "h_res hw = h_res hs" "h_encNode hw = h_encNode hs"
    "st_cipherDataNode (h_state hw) = st_cipherDataNode (h_state hs)"
  shows "sessionExit result src hs
           (if fst (xmlSecEncStateWriteResult hw) \<noteq> Success
            then failBothStateFirst (snd (xmlSecEncStateWriteResult hw))
            else cleanup result (snd (xmlSecEncStateWriteResult hw)))"
    and "sessionExit result src hs
           (if fst (xmlSecEncStateWriteResult hw) \<noteq> Success
            then failBothStateFirst (snd (xmlSecEncStateWriteResult hw))
            else xmlSecEncryptXmlNode_replace (snd (xmlSecEncStateWriteResult hw)) src result)"
  unfolding sessionExit_def using assms by blast+

lemma failBoth_exit:
  "h_ctx hw = h_ctx hs \<Longrightarrow> sessionExit result src hs (failBoth hw)"
  by (rule sessionExit_failure) (simp_all add: failBoth_def)

lemma encryptMemory_exit:
  "sessionExit result src h2
     (case xmlSecBinTransformWrite (st_first (h_state h2)) buf of
        None \<Rightarrow> failBoth h2
      | Some written \<Rightarrow>
          (case xmlSecBinTransformFlush env written of
             None \<Rightarrow> failBoth (withChain written h2)
           | Some flushed \<Rightarrow>
               (case xmlSecEncStateWriteResult (withChain flushed h2) of
                  (r3, h3) \<Rightarrow>
                    if r3 \<noteq> Success then failBothStateFirst h3
                    else cleanup result h3)))"
proof (cases "xmlSecBinTransformWrite (st_first (h_state h2)) buf")
  case None
  then show ?thesis by (simp add: failBoth_exit)
next
  case (Some written)
  show ?thesis
  proof (cases "xmlSecBinTransformFlush env written")
    case None
    with Some show ?thesis by (simp add: failBoth_exit withChain_def)
  next
    case (Some flushed)
    have "sessionExit result src h2
             (if fst (xmlSecEncStateWriteResult (withChain flushed h2)) \<noteq> Success
              then failBothStateFirst (snd (xmlSecEncStateWriteResult (withChain flushed h2)))
              else cleanup result (snd (xmlSecEncStateWriteResult (withChain flushed h2))))"
      by (rule sessionExit_write(1)) (simp_all add: withChain_def)
    then show ?thesis using Some \<open>xmlSecBinTransformWrite (st_first (h_state h2)) buf = Some written\<close>
      by (simp add: split_beta split del: if_split)
  qed
qed

lemma encryptXmlNode_exit:
  "sessionExit result src h2
     (if \<not> env_bufferAlloc env then failBoth h2
      else (case xmlSecEncryptXmlNode_dump env h2 src of
              None \<Rightarrow>
                (Failure,
                 xmlSecEncStateDestroy
                   (xmlSecEncResultDestroy
                      (release XmlBufferObj (xmlSecError XMLSEC_ERRORS_R_INVALID_TYPE h2))))
            | Some buffer \<Rightarrow>
                (case xmlSecBinTransformWrite (st_first (h_state h2)) buffer of
                   None \<Rightarrow> failBoth (release XmlBufferObj h2)
                 | Some written \<Rightarrow>
                     (case xmlSecBinTransformFlush env written of
                        None \<Rightarrow> failBoth (withChain written (release XmlBufferObj h2))
                      | Some flushed \<Rightarrow>
                          (case xmlSecEncStateWriteResult
                                  (withChain flushed (release XmlBufferObj h2)) of
                             (r3, h3) \<Rightarrow>
                               if r3 \<noteq> Success then failBothStateFirst h3
                               else xmlSecEncryptXmlNode_replace h3 src result)))))"
proof -
  let ?hb = "release XmlBufferObj h2"
  have w: "sessionExit result src h2
             (if fst (xmlSecEncStateWriteResult (withChain flushed ?hb)) \<noteq> Success
              then failBothStateFirst (snd (xmlSecEncStateWriteResult (withChain flushed ?hb)))
              else xmlSecEncryptXmlNode_replace (snd (xmlSecEncStateWriteResult (withChain flushed ?hb)))
                     src result)" for flushed
    by (rule sessionExit_write(2)) (simp_all add: withChain_def release_def)
  have f: "sessionExit result src h2
             (Failure,
                 xmlSecEncStateDestroy
                   (xmlSecEncResultDestroy
                      (release XmlBufferObj (xmlSecError XMLSEC_ERRORS_R_INVALID_TYPE h2))))"
    by (rule sessionExit_failure) simp_all
  have b: "sessionExit result src h2 (failBoth (release XmlBufferObj h2))"
    "sessionExit result src h2 (failBoth (withChain written (release XmlBufferObj h2)))" for written
    by (rule failBoth_exit, simp add: withChain_def release_def)+
  show ?thesis
  proof (cases "env_bufferAlloc env")
    case False
    then show ?thesis by (simp add: failBoth_exit)
  next
    case True
    show ?thesis
    proof (cases "xmlSecEncryptXmlNode_dump env h2 src")
      case None
      with True f show ?thesis by simp
    next
      case (Some buffer)
      show ?thesis
      proof (cases "xmlSecBinTransformWrite (st_first (h_state h2)) buffer")
        case None
        with True Some b show ?thesis by simp
      next
        case (Some written)
        show ?thesis
        proof (cases "xmlSecBinTransformFlush env written")
          case None
          with True Some \<open>xmlSecEncryptXmlNode_dump env h2 src = Some buffer\<close> b
          show ?thesis by simp
        next
          case (Some flushed)
          with True \<open>xmlSecBinTransformWrite (st_first (h_state h2)) buffer = Some written\<close>
            \<open>xmlSecEncryptXmlNode_dump env h2 src = Some buffer\<close> w[of flushed]
          show ?thesis by (simp add: split_beta split del: if_split)
        qed
      qed
    qed
  qed
qed

lemma encryptUri_exit:
  assumes "(case xmlSecTransformCreate env xmlSecInputUri h2 of
              (None, h3) \<Rightarrow> Some (failBoth h3)
            | (Some inputUri, h3) \<Rightarrow>
                (case xmlSecInputUriTransformOpen env inputUri uri of
                   None \<Rightarrow> Some (failBoth (xmlSecTransformDestroy inputUri h3))
                 | Some opened \<Rightarrow>
                     (case xmlSecEncStateAddFirstTransform opened h3 of
                        (r4, h4) \<Rightarrow>
                          if r4 \<noteq> Success
                          then Some (failBoth (xmlSecTransformDestroy opened h4))
                          else (case xmlSecEncryptUri_read env (st_first (h_state h4)) of
                                  None \<Rightarrow> None
                                | Some (ret, chain) \<Rightarrow>
                                    if ret < 0 then Some (failBoth (withChain chain h4))
                                    else (case xmlSecEncStateWriteResult (withChain chain h4) of
                                            (r5, h5) \<Rightarrow>
                                              if r5 \<noteq> Success
                                              then Some (failBothStateFirst h5)
                                              else Some (cleanup result h5)))))) = Some outcome"
  shows "sessionExit result src h2 outcome"
proof -
  let ?tc = "xmlSecTransformCreate env xmlSecInputUri h2"
  have tc: "h_ctx (snd ?tc) = h_ctx h2" "h_res (snd ?tc) = h_res h2" "h_encNode (snd ?tc) = h_encNode h2"
    "st_cipherDataNode (h_state (snd ?tc)) = st_cipherDataNode (h_state h2)"
    by (simp_all add: addTransform_frame addFirst_frame)
  show ?thesis
  proof (cases "fst ?tc")
    case None
    with assms have "outcome = failBoth (snd ?tc)" by (simp add: split_beta)
    then show ?thesis using tc by (simp add: failBoth_exit)
  next
    case (Some inputUri)
    show ?thesis
    proof (cases "xmlSecInputUriTransformOpen env inputUri uri")
      case None
      with Some assms have "outcome = failBoth (xmlSecTransformDestroy inputUri (snd ?tc))"
        by (simp add: split_beta)
      then show ?thesis using tc by (simp add: failBoth_exit addTransform_frame)
    next
      case (Some opened)
      let ?af = "xmlSecEncStateAddFirstTransform opened (snd ?tc)"
      have af: "h_ctx (snd ?af) = h_ctx h2" "h_res (snd ?af) = h_res h2"
        "h_encNode (snd ?af) = h_encNode h2"
        "st_cipherDataNode (h_state (snd ?af)) = st_cipherDataNode (h_state h2)"
        using tc by (simp_all add: addFirst_frame)
      note a = assms[unfolded split_beta] \<open>fst ?tc = Some inputUri\<close> Some
      show ?thesis
      proof (cases "fst ?af \<noteq> Success")
        case True
        with a have "outcome = failBoth (xmlSecTransformDestroy opened (snd ?af))"
          by simp
        then show ?thesis using af by (simp add: failBoth_exit addTransform_frame)
      next
        case False
        with a obtain ret chain where
          rd: "xmlSecEncryptUri_read env (st_first (h_state (snd ?af))) = Some (ret, chain)"
          by (cases "xmlSecEncryptUri_read env (st_first (h_state (snd ?af)))") auto
        show ?thesis
        proof (cases "ret < 0")
          case True
          with a rd \<open>\<not> fst ?af \<noteq> Success\<close> have "outcome = failBoth (withChain chain (snd ?af))"
            by simp
          then show ?thesis using af by (simp add: failBoth_exit withChain_def)
        next
          case False
          with a rd \<open>\<not> fst ?af \<noteq> Success\<close>
          have "outcome =
                 (if fst (xmlSecEncStateWriteResult (withChain chain (snd ?af))) \<noteq> Success
                  then failBothStateFirst (snd (xmlSecEncStateWriteResult (withChain chain (snd ?af))))
                  else cleanup result (snd (xmlSecEncStateWriteResult (withChain chain (snd ?af)))))"
            by (auto split: if_splits)
          moreover have "sessionExit result src h2
                 (if fst (xmlSecEncStateWriteResult (withChain chain (snd ?af))) \<noteq> Success
                  then failBothStateFirst (snd (xmlSecEncStateWriteResult (withChain chain (snd ?af))))
                  else cleanup result (snd (xmlSecEncStateWriteResult (withChain chain (snd ?af)))))"
            by (rule sessionExit_write(1)) (simp_all add: af withChain_def)
          ultimately show ?thesis by simp
        qed
      qed
    qed
  qed
qed






lemma cipherValueRead_key:
  "h_ctx (snd (xmlSecCipherValueNodeRead env node h)) = h_ctx h"
  "res_key (h_res (snd (xmlSecCipherValueNodeRead env node h))) = res_key (h_res h)"
  unfolding xmlSecCipherValueNodeRead_def Let_def
  by (simp_all add: split_beta addTransform_frame addFirst_frame release_def xmlSecError_def
      xmlSecTransformDestroy_def split: option.splits)

lemma done_frame:
  "h_ctx (xmlSecCipherReferenceNodeRead_done uri tso h) = h_ctx h"
  "h_res (xmlSecCipherReferenceNodeRead_done uri tso h) = h_res h"
  by (simp_all add: xmlSecCipherReferenceNodeRead_done_def xmlSecTransformStateDestroy_def Let_def
      release_def releaseIf_def split: option.splits)

lemma cipherReferenceRead_key:
  "h_ctx (snd (xmlSecCipherReferenceNodeRead env node h)) = h_ctx h"
  "res_key (h_res (snd (xmlSecCipherReferenceNodeRead env node h))) = res_key (h_res h)"
  unfolding xmlSecCipherReferenceNodeRead_def Let_def
  by (simp_all add: split_beta done_frame addTransform_frame release_def xmlSecError_def
      xmlSecTransformDestroy_def split: option.splits)

lemma cipherDataRead_key:
  "h_ctx (snd (xmlSecCipherDataNodeRead env node h)) = h_ctx h"
  "res_key (h_res (snd (xmlSecCipherDataNodeRead env node h))) = res_key (h_res h)"
  unfolding xmlSecCipherDataNodeRead_def Let_def
  by (simp_all add: split_beta cipherValueRead_key cipherReferenceRead_key addTransform_frame
      release_def xmlSecError_def split: option.splits)

lemma decrypt_exit_key:
  fixes h2 :: xmlSecHeap and env :: xmlSecEnv and result :: bool
  defines "outc \<equiv> (case st_cipherDataNode (h_state h2) of
                  None \<Rightarrow>
                    (Failure,
                     xmlSecEncStateDestroy
                       (xmlSecEncResultDestroy (xmlSecError XMLSEC_ERRORS_R_NODE_NOT_FOUND h2)))
                | Some i \<Rightarrow>
                    (case xmlSecCipherDataNodeRead env (children_of (h_encNode h2) ! i) h2 of
                       (r3, h3) \<Rightarrow>
                         (case (if r3 \<noteq> Success then None else res_buffer (h_res h3)) of
                            None \<Rightarrow> failBoth h3
                          | Some buffer \<Rightarrow> xmlSecDecrypt_replace env h3 buffer result)))"
  shows "h_ctx (snd outc) = h_ctx h2"
    and "fst outc = Success \<Longrightarrow> result \<Longrightarrow> map_option res_key (h_out (snd outc)) = Some (res_key (h_res h2))"
proof -
  show "h_ctx (snd outc) = h_ctx h2"
    unfolding outc_def
    by (simp add: split_beta exits_ctx cipherDataRead_key split: option.splits)
  assume ok: "fst outc = Success" and r: result
  from ok obtain i where i: "st_cipherDataNode (h_state h2) = Some i"
    unfolding outc_def by (cases "st_cipherDataNode (h_state h2)") auto
  let ?rd = "xmlSecCipherDataNodeRead env (children_of (h_encNode h2) ! i) h2"
  from ok i obtain buffer where
    e: "outc = xmlSecDecrypt_replace env (snd ?rd) buffer result"
    unfolding outc_def by (auto simp: split_beta failBoth_def split: option.splits if_splits)
  from replace_out(2)[of env "snd ?rd" buffer] ok r show
    "map_option res_key (h_out (snd outc)) = Some (res_key (h_res h2))"
    unfolding e by (auto simp: cipherDataRead_key)
qed

lemma exit_keyResolved:
  assumes ex: "sessionExit result src h2 outcome"
    and h: "ctx_keysMngrCtx (h_ctx h2) = keyHints ctx e tid"
    and k: "getKey (keyInfoAt encNode (afterMethod encNode)) (keyHints ctx e tid) = Some k"
      "res_key (h_res h2) = Some k"
  shows "keyResolved getKey ctx encNode e tid result outcome"
  using tail_props[OF ex] h k unfolding keyResolved_def by auto

lemma prologue_callback:
  assumes cb: "ctx_getKey ctx = Some getKey"
    and al: "env_resultAlloc env" "env_stateAlloc env"
    and m: "methodOf env ctx encNode = Some tid"
    and cr: "env_create env tid" "id_type tid = xmlSecTransformTypeBinary"
    and W: "\<And>outcome. keyResolved getKey ctx encNode e tid result outcome \<Longrightarrow>
               fst outcome \<noteq> Success \<Longrightarrow> Q (W outcome)"
    and K: "\<And>h2 k. ctx_keysMngrCtx (h_ctx h2) = keyHints ctx e tid \<Longrightarrow>
               getKey (keyInfoAt encNode (afterMethod encNode)) (keyHints ctx e tid) = Some k \<Longrightarrow>
               res_key (h_res h2) = Some k \<Longrightarrow> Q (K h2)"
  shows "Q (case xmlSecEncResultCreate env e (initHeap ctx encNode) of
        (r0, h0) \<Rightarrow>
          if r0 \<noteq> Success then W (Failure, xmlSecError XMLSEC_ERRORS_R_XMLSEC_FAILED h0)
          else (case xmlSecEncResultSetKey env None h0 of
                  (r1, h1) \<Rightarrow>
                    if r1 \<noteq> Success then W (r1, h1)
                    else (case xmlSecEncStateCreate env e (xmlSecAddIDs h1) of
                            (r2, h2) \<Rightarrow>
                              if r2 \<noteq> Success
                              then W (Failure,
                                    xmlSecEncResultDestroy
                                      (xmlSecError XMLSEC_ERRORS_R_XMLSEC_FAILED h2))
                              else K h2)))"
proof -
  define h1 where "h1 = xmlSecAddIDs ((initHeap ctx encNode)\<lparr>h_res := zeroResult\<lparr>res_encrypt := e\<rparr>\<rparr>)"
  have rc: "xmlSecEncResultCreate env e (initHeap ctx encNode) =
              (Success, (initHeap ctx encNode)\<lparr>h_res := zeroResult\<lparr>res_encrypt := e\<rparr>\<rparr>)"
    using al(1) by (simp add: xmlSecEncResultCreate_def)
  have f: "res_key (h_res h1) = None" "ctx_getKey (h_ctx h1) = Some getKey" "h_ctx h1 = ctx"
    "h_encNode h1 = encNode" "res_encrypt (h_res h1) = e" "h_reports h1 = []" "h_out h1 = None"
    using cb by (simp_all add: h1_def xmlSecAddIDs_def initHeap_def zeroResult_def)
  have m1: "methodOf env (h_ctx h1) (h_encNode h1) = Some tid" using m f by simp
  let ?sc = "xmlSecEncStateCreate env e h1"
  let ?found = "getKey (keyInfoAt encNode (afterMethod encNode)) (keyHints ctx e tid)"
  note c = stateCreate_callback[OF f(1) f(2) al(2) m1 cr, of e, unfolded f]
  have e1: "(case xmlSecEncResultCreate env e (initHeap ctx encNode) of
        (r0, h0) \<Rightarrow>
          if r0 \<noteq> Success then W (Failure, xmlSecError XMLSEC_ERRORS_R_XMLSEC_FAILED h0)
          else (case xmlSecEncResultSetKey env None h0 of
                  (r1, h1) \<Rightarrow>
                    if r1 \<noteq> Success then W (r1, h1)
                    else (case xmlSecEncStateCreate env e (xmlSecAddIDs h1) of
                            (r2, h2) \<Rightarrow>
                              if r2 \<noteq> Success
                              then W (Failure,
                                    xmlSecEncResultDestroy
                                      (xmlSecError XMLSEC_ERRORS_R_XMLSEC_FAILED h2))
                              else K h2))) =
            (if fst ?sc \<noteq> Success
             then W (Failure, xmlSecEncResultDestroy (xmlSecError XMLSEC_ERRORS_R_XMLSEC_FAILED (snd ?sc)))
             else K (snd ?sc))"
    unfolding rc h1_def by (simp add: xmlSecEncResultSetKey_def split_beta)
  show ?thesis
  proof (cases "fst ?sc \<noteq> Success")
    case True
    let ?o = "(Failure, xmlSecEncResultDestroy (xmlSecError XMLSEC_ERRORS_R_XMLSEC_FAILED (snd ?sc)))"
    have "keyResolved getKey ctx encNode e tid result ?o"
      unfolding keyResolved_def using c f(7)
      by (auto simp: stateCreate_framed split: option.splits)
    from W[OF this] True show ?thesis unfolding e1 by simp
  next
    case False
    with c(3) obtain k where k: "?found = Some k" by (cases ?found) auto
    from K[OF c(1) k] c(2) k False show ?thesis unfolding e1 by simp
  qed
qed

section \<open>Claims about the template builders\<close>

text \<open>
  Claim C7. For every \<open>EncryptedData\<close> node built with the template helpers, after any
  sequence of successful helper calls in any order, the element children appear in the
  schema order \<open>EncryptionMethod?, KeyInfo?, CipherData, EncryptionProperties?\<close>.
\<close>

theorem builders_schema_order:
  "xmlSecEncDataBuilt T \<Longrightarrow> schemaOrder (elementNames T)"
proof -
  assume "xmlSecEncDataBuilt T"
  then have s: "tmplShape T" by (rule built_shape)
  then have "filter is_element (children_of T) = children_of T"
    unfolding tmplShape_def by simp
  with s show ?thesis unfolding elementNames_def tmplShape_def by simp
qed

lemmas eval_simps = xmlSecEncDataCreate_def xmlSecEncDataAddEncProperties_def xmlSecEncDataAddKeyInfo_def
  xmlSecEncDataAddEncMethod_def xmlSecFindChild_def xmlSecGetNextElementNode_def replace_child_def
  xmlSecEncNs_def xmlSecDSigNs_def

text \<open>
  Witness for C7: \<open>EncryptionProperties\<close>, then \<open>KeyInfo\<close>, then \<open>EncryptionMethod\<close>
  are added to a fresh template, against the schema order; the result is in schema
  order.
\<close>

theorem builders_schema_order_witness:
  "xmlSecEncDataBuilt
     (XmlElement ''EncryptedData'' xmlSecEncNs [(''Id'', ''e1'')]
        [XmlElement ''EncryptionMethod'' xmlSecEncNs [(''Algorithm'', id_href sampleCipher)] [],
         XmlElement ''KeyInfo'' xmlSecDSigNs [] [],
         XmlElement ''CipherData'' xmlSecEncNs [] [],
         XmlElement ''EncryptionProperties'' xmlSecEncNs [] []]) \<and>
   schemaOrder (elementNames
     (XmlElement ''EncryptedData'' xmlSecEncNs [(''Id'', ''e1'')]
        [XmlElement ''EncryptionMethod'' xmlSecEncNs [(''Algorithm'', id_href sampleCipher)] [],
         XmlElement ''KeyInfo'' xmlSecDSigNs [] [],
         XmlElement ''CipherData'' xmlSecEncNs [] [],
         XmlElement ''EncryptionProperties'' xmlSecEncNs [] []]))"
proof -
  let ?T0 = "XmlElement ''EncryptedData'' xmlSecEncNs [(''Id'', ''e1'')] [XmlElement ''CipherData'' xmlSecEncNs [] []]"
  let ?T1 = "XmlElement ''EncryptedData'' xmlSecEncNs [(''Id'', ''e1'')]
        [XmlElement ''CipherData'' xmlSecEncNs [] [],
         XmlElement ''EncryptionProperties'' xmlSecEncNs [] []]"
  let ?T2 = "XmlElement ''EncryptedData'' xmlSecEncNs [(''Id'', ''e1'')]
        [XmlElement ''KeyInfo'' xmlSecDSigNs [] [],
         XmlElement ''CipherData'' xmlSecEncNs [] [],
         XmlElement ''EncryptionProperties'' xmlSecEncNs [] []]"
  let ?T3 = "XmlElement ''EncryptedData'' xmlSecEncNs [(''Id'', ''e1'')]
        [XmlElement ''EncryptionMethod'' xmlSecEncNs [(''Algorithm'', id_href sampleCipher)] [],
         XmlElement ''KeyInfo'' xmlSecDSigNs [] [],
         XmlElement ''CipherData'' xmlSecEncNs [] [],
         XmlElement ''EncryptionProperties'' xmlSecEncNs [] []]"
  have "xmlSecEncDataCreate (Some ''e1'') None None None = Some ?T0"
    by (simp add: xmlSecEncDataCreate_def)
  then have b0: "xmlSecEncDataBuilt ?T0" by (rule Built_Create)
  have "xmlSecEncDataAddEncProperties ?T0 None = (Inr [1], ?T1)"
    by (simp add: eval_simps)
  with b0 have b1: "xmlSecEncDataBuilt ?T1" by (rule Built_EncProperties)
  have "xmlSecEncDataAddKeyInfo ?T1 = (Inr [0], ?T2)"
    by (simp add: eval_simps)
  with b1 have b2: "xmlSecEncDataBuilt ?T2" by (rule Built_KeyInfo)
  have "xmlSecEncDataAddEncMethod ?T2 sampleCipher = (Inr [0], ?T3)"
    by (simp add: eval_simps)
  with b2 have b3: "xmlSecEncDataBuilt ?T3" by (rule Built_EncMethod)
  from b3 builders_schema_order[OF b3] show ?thesis by simp
qed

text \<open>
  Claim C6. The helpers adding \<open>CipherValue\<close> or \<open>CipherReference\<close> fail with
  \<open>NODE_ALREADY_PRESENT\<close>, leaving the tree as it is, whenever the \<open>CipherData\<close>
  already contains a \<open>CipherValue\<close> or a \<open>CipherReference\<close> child; so no template the
  builders produce has a \<open>CipherData\<close> containing both.
\<close>

theorem cipher_children_exclusive:
  "(xmlSecFindChild encNode ''CipherData'' xmlSecEncNs = Some i \<longrightarrow>
      (hasChild (children_of encNode ! i) ''CipherValue'' xmlSecEncNs \<or>
       hasChild (children_of encNode ! i) ''CipherReference'' xmlSecEncNs) \<longrightarrow>
      xmlSecEncDataAddCipherValue encNode = (Inl [XMLSEC_ERRORS_R_NODE_ALREADY_PRESENT], encNode) \<and>
      xmlSecEncDataAddCipherReference encNode uri =
        (Inl [XMLSEC_ERRORS_R_NODE_ALREADY_PRESENT], encNode)) \<and>
   (xmlSecEncDataBuilt T \<longrightarrow>
      (\<forall>c\<in>set (children_of T). xmlSecCheckNodeName c ''CipherData'' xmlSecEncNs \<longrightarrow>
         \<not> (hasChild c ''CipherValue'' xmlSecEncNs \<and> hasChild c ''CipherReference'' xmlSecEncNs)))"
proof (intro conjI impI ballI)
  assume "xmlSecFindChild encNode ''CipherData'' xmlSecEncNs = Some i"
    and "hasChild (children_of encNode ! i) ''CipherValue'' xmlSecEncNs \<or>
       hasChild (children_of encNode ! i) ''CipherReference'' xmlSecEncNs"
  then show "xmlSecEncDataAddCipherValue encNode = (Inl [XMLSEC_ERRORS_R_NODE_ALREADY_PRESENT], encNode)"
    by (auto simp: xmlSecEncDataAddCipherValue_def hasChild_def Let_def split: option.splits)
next
  assume "xmlSecFindChild encNode ''CipherData'' xmlSecEncNs = Some i"
    and "hasChild (children_of encNode ! i) ''CipherValue'' xmlSecEncNs \<or>
       hasChild (children_of encNode ! i) ''CipherReference'' xmlSecEncNs"
  then show "xmlSecEncDataAddCipherReference encNode uri = (Inl [XMLSEC_ERRORS_R_NODE_ALREADY_PRESENT], encNode)"
    by (auto simp: xmlSecEncDataAddCipherReference_def hasChild_def Let_def split: option.splits)
next
  fix c
  assume b: "xmlSecEncDataBuilt T" and c: "c \<in> set (children_of T)"
    and n: "xmlSecCheckNodeName c ''CipherData'' xmlSecEncNs"
  from built_shape[OF b] c have e: "is_element c" unfolding tmplShape_def by simp
  with n have "qname c = (''CipherData'', xmlSecEncNs)" by (simp add: check_qname)
  with built_shape[OF b] c have "cdShape c" unfolding tmplShape_def by simp
  from this e show "\<not> (hasChild c ''CipherValue'' xmlSecEncNs \<and> hasChild c ''CipherReference'' xmlSecEncNs)"
    by (cases rule: cdShape_cases) (auto simp: hasChild_def xmlSecFindChild_def check_qname ns_defs)
qed

text \<open>
  Witness for C6: a fresh template to which a \<open>CipherValue\<close> was added; adding a
  \<open>CipherReference\<close> is refused, and the \<open>CipherData\<close> does not hold both.
\<close>

theorem cipher_children_exclusive_witness:
  "xmlSecFindChild
     (XmlElement ''EncryptedData'' xmlSecEncNs []
        [XmlElement ''CipherData'' xmlSecEncNs [] [XmlElement ''CipherValue'' xmlSecEncNs [] []]])
     ''CipherData'' xmlSecEncNs = Some 0 \<and>
   hasChild (XmlElement ''CipherData'' xmlSecEncNs [] [XmlElement ''CipherValue'' xmlSecEncNs [] []])
     ''CipherValue'' xmlSecEncNs \<and>
   xmlSecEncDataAddCipherReference
     (XmlElement ''EncryptedData'' xmlSecEncNs []
        [XmlElement ''CipherData'' xmlSecEncNs [] [XmlElement ''CipherValue'' xmlSecEncNs [] []]])
     (Some ''http://example.org/c.bin'') =
     (Inl [XMLSEC_ERRORS_R_NODE_ALREADY_PRESENT],
      XmlElement ''EncryptedData'' xmlSecEncNs []
        [XmlElement ''CipherData'' xmlSecEncNs [] [XmlElement ''CipherValue'' xmlSecEncNs [] []]]) \<and>
   xmlSecEncDataBuilt
     (XmlElement ''EncryptedData'' xmlSecEncNs []
        [XmlElement ''CipherData'' xmlSecEncNs [] [XmlElement ''CipherValue'' xmlSecEncNs [] []]]) \<and>
   \<not> (hasChild (XmlElement ''CipherData'' xmlSecEncNs [] [XmlElement ''CipherValue'' xmlSecEncNs [] []])
          ''CipherValue'' xmlSecEncNs \<and>
        hasChild (XmlElement ''CipherData'' xmlSecEncNs [] [XmlElement ''CipherValue'' xmlSecEncNs [] []])
          ''CipherReference'' xmlSecEncNs)"
proof -
  let ?T0 = "XmlElement ''EncryptedData'' xmlSecEncNs [] [XmlElement ''CipherData'' xmlSecEncNs [] []]"
  let ?cd = "XmlElement ''CipherData'' xmlSecEncNs [] [XmlElement ''CipherValue'' xmlSecEncNs [] []]"
  let ?T1 = "XmlElement ''EncryptedData'' xmlSecEncNs [] [?cd]"
  have "xmlSecEncDataCreate None None None None = Some ?T0"
    by (simp add: xmlSecEncDataCreate_def)
  then have b0: "xmlSecEncDataBuilt ?T0" by (rule Built_Create)
  have "xmlSecEncDataAddCipherValue ?T0 = (Inr [0, 0], ?T1)"
    by (simp add: xmlSecEncDataAddCipherValue_def xmlSecFindChild_def replace_child_def)
  with b0 have b1: "xmlSecEncDataBuilt ?T1" by (rule Built_CipherValue)
  have f: "xmlSecFindChild ?T1 ''CipherData'' xmlSecEncNs = Some 0"
    by (simp add: xmlSecFindChild_def)
  have h: "hasChild ?cd ''CipherValue'' xmlSecEncNs"
    by (simp add: hasChild_def xmlSecFindChild_def)
  have c: "xmlSecCheckNodeName ?cd ''CipherData'' xmlSecEncNs" by simp
  from cipher_children_exclusive[of ?T1 0 "Some ''http://example.org/c.bin''" ?T1] f h b1 c
  show ?thesis by simp
qed

text \<open>
  Claim C8 says that every helper verifies that its parent is an \<open>EncryptedData\<close>
  element and fails on any other element. Counterexample: \<open>xmlSecEncDataAddEncMethod\<close>
  on an element named \<open>Foo\<close> succeeds and inserts the child.
\<close>

theorem builders_accept_any_parent_counterexample:
  "xmlSecEncDataAddEncMethod (XmlElement ''Foo'' [] [] []) sampleCipher =
     (Inr [0],
      XmlElement ''Foo'' [] []
        [XmlElement ''EncryptionMethod'' xmlSecEncNs [(''Algorithm'', id_href sampleCipher)] []])"
  by (simp add: xmlSecEncDataAddEncMethod_def xmlSecFindChild_def xmlSecGetNextElementNode_def
      replace_child_def)

text \<open>
  Claim C8, amended. No helper inspects the name or the namespace of the element it is
  given: on any element the outcome is the one for an \<open>EncryptedData\<close> element with
  the same attributes and children (the returned path and reports are equal, the
  resulting tree differs by the root's name only). The cipher helpers look for a
  \<open>CipherData\<close> child by name and fail with \<open>NODE_NOT_FOUND\<close> when there is none.
\<close>

theorem builders_ignore_parent_name:
  "xmlSecEncDataAddEncMethod (XmlElement n s a cs) m =
     map_prod id (rename n s) (xmlSecEncDataAddEncMethod (XmlElement ''EncryptedData'' xmlSecEncNs a cs) m) \<and>
   xmlSecEncDataAddKeyInfo (XmlElement n s a cs) =
     map_prod id (rename n s) (xmlSecEncDataAddKeyInfo (XmlElement ''EncryptedData'' xmlSecEncNs a cs)) \<and>
   xmlSecEncDataAddEncProperties (XmlElement n s a cs) ident =
     map_prod id (rename n s)
       (xmlSecEncDataAddEncProperties (XmlElement ''EncryptedData'' xmlSecEncNs a cs) ident) \<and>
   xmlSecEncDataAddEncProperty (XmlElement n s a cs) ident target =
     map_prod id (rename n s)
       (xmlSecEncDataAddEncProperty (XmlElement ''EncryptedData'' xmlSecEncNs a cs) ident target) \<and>
   xmlSecEncDataAddCipherValue (XmlElement n s a cs) =
     map_prod id (rename n s) (xmlSecEncDataAddCipherValue (XmlElement ''EncryptedData'' xmlSecEncNs a cs)) \<and>
   xmlSecEncDataAddCipherReference (XmlElement n s a cs) uri =
     map_prod id (rename n s)
       (xmlSecEncDataAddCipherReference (XmlElement ''EncryptedData'' xmlSecEncNs a cs) uri) \<and>
   xmlSecCipherReferenceAddTransform (XmlElement n s a cs) m =
     map_prod id (rename n s)
       (xmlSecCipherReferenceAddTransform (XmlElement ''EncryptedData'' xmlSecEncNs a cs) m) \<and>
   (xmlSecFindChild (XmlElement n s a cs) ''CipherData'' xmlSecEncNs = None \<longrightarrow>
      xmlSecEncDataAddCipherValue (XmlElement n s a cs) =
        (Inl [XMLSEC_ERRORS_R_NODE_NOT_FOUND], XmlElement n s a cs) \<and>
      xmlSecEncDataAddCipherReference (XmlElement n s a cs) uri =
        (Inl [XMLSEC_ERRORS_R_NODE_NOT_FOUND], XmlElement n s a cs) \<and>
      xmlSecCipherReferenceAddTransform (XmlElement n s a cs) m =
        (Inl [XMLSEC_ERRORS_R_NODE_NOT_FOUND], XmlElement n s a cs))"
proof -
  have fc: "\<And>name ns. xmlSecFindChild (XmlElement n s a cs) name ns =
      xmlSecFindChild (XmlElement ''EncryptedData'' xmlSecEncNs a cs) name ns"
    by (simp add: xmlSecFindChild_def)
  have 1: "xmlSecEncDataAddEncMethod (XmlElement n s a cs) m =
     map_prod id (rename n s) (xmlSecEncDataAddEncMethod (XmlElement ''EncryptedData'' xmlSecEncNs a cs) m)"
    unfolding xmlSecEncDataAddEncMethod_def fc
    by (simp add: replace_child_def split: option.splits)
  have 2: "xmlSecEncDataAddKeyInfo (XmlElement n s a cs) =
     map_prod id (rename n s) (xmlSecEncDataAddKeyInfo (XmlElement ''EncryptedData'' xmlSecEncNs a cs))"
    unfolding xmlSecEncDataAddKeyInfo_def fc
    by (simp add: Let_def split: option.splits)
  have 3: "\<And>ident. xmlSecEncDataAddEncProperties (XmlElement n s a cs) ident =
     map_prod id (rename n s)
       (xmlSecEncDataAddEncProperties (XmlElement ''EncryptedData'' xmlSecEncNs a cs) ident)"
    unfolding xmlSecEncDataAddEncProperties_def fc
    by (simp add: replace_child_def split: option.splits)
  have 4: "xmlSecEncDataAddEncProperty (XmlElement n s a cs) ident target =
     map_prod id (rename n s)
       (xmlSecEncDataAddEncProperty (XmlElement ''EncryptedData'' xmlSecEncNs a cs) ident target)"
    unfolding xmlSecEncDataAddEncProperty_def fc 3[of None]
    by (simp add: xmlSecEncDataAddEncProperties_def replace_child_def Let_def split: option.splits)
  have 5: "xmlSecEncDataAddCipherValue (XmlElement n s a cs) =
     map_prod id (rename n s) (xmlSecEncDataAddCipherValue (XmlElement ''EncryptedData'' xmlSecEncNs a cs))"
    unfolding xmlSecEncDataAddCipherValue_def fc
    by (simp add: replace_child_def Let_def split: option.splits)
  have 6: "xmlSecEncDataAddCipherReference (XmlElement n s a cs) uri =
     map_prod id (rename n s)
       (xmlSecEncDataAddCipherReference (XmlElement ''EncryptedData'' xmlSecEncNs a cs) uri)"
    unfolding xmlSecEncDataAddCipherReference_def fc
    by (simp add: replace_child_def Let_def split: option.splits)
  have 7: "xmlSecCipherReferenceAddTransform (XmlElement n s a cs) m =
     map_prod id (rename n s)
       (xmlSecCipherReferenceAddTransform (XmlElement ''EncryptedData'' xmlSecEncNs a cs) m)"
    unfolding xmlSecCipherReferenceAddTransform_def fc
    by (simp add: replace_child_def Let_def split: option.splits)
  have 8: "xmlSecFindChild (XmlElement n s a cs) ''CipherData'' xmlSecEncNs = None \<longrightarrow>
      xmlSecEncDataAddCipherValue (XmlElement n s a cs) =
        (Inl [XMLSEC_ERRORS_R_NODE_NOT_FOUND], XmlElement n s a cs) \<and>
      xmlSecEncDataAddCipherReference (XmlElement n s a cs) uri =
        (Inl [XMLSEC_ERRORS_R_NODE_NOT_FOUND], XmlElement n s a cs) \<and>
      xmlSecCipherReferenceAddTransform (XmlElement n s a cs) m =
        (Inl [XMLSEC_ERRORS_R_NODE_NOT_FOUND], XmlElement n s a cs)"
    by (simp add: xmlSecEncDataAddCipherValue_def xmlSecEncDataAddCipherReference_def
        xmlSecCipherReferenceAddTransform_def)
  from 1 2 3[of ident] 4 5 6 7 8 show ?thesis by blast
qed

text \<open>
  Witness for the amended C8: under an element named \<open>Foo\<close>, \<open>KeyInfo\<close> is added,
  and \<open>CipherValue\<close> is refused because there is no \<open>CipherData\<close> child.
\<close>

theorem builders_ignore_parent_name_witness:
  "xmlSecEncDataAddKeyInfo (XmlElement ''Foo'' [] [] []) =
     (Inr [0], XmlElement ''Foo'' [] [] [XmlElement ''KeyInfo'' xmlSecDSigNs [] []]) \<and>
   xmlSecFindChild (XmlElement ''Foo'' [] [] []) ''CipherData'' xmlSecEncNs = None \<and>
   xmlSecEncDataAddCipherValue (XmlElement ''Foo'' [] [] []) =
     (Inl [XMLSEC_ERRORS_R_NODE_NOT_FOUND], XmlElement ''Foo'' [] [] [])"
proof -
  have f: "xmlSecFindChild (XmlElement ''Foo'' [] [] []) ''CipherData'' xmlSecEncNs = None"
    by (simp add: xmlSecFindChild_def)
  have k: "xmlSecEncDataAddKeyInfo (XmlElement ''EncryptedData'' xmlSecEncNs [] []) =
     (Inr [0], XmlElement ''EncryptedData'' xmlSecEncNs [] [XmlElement ''KeyInfo'' xmlSecDSigNs [] []])"
    by (simp add: xmlSecEncDataAddKeyInfo_def xmlSecFindChild_def xmlSecGetNextElementNode_def)
  note t = builders_ignore_parent_name[of "''Foo''" "[]" "[]" "[]" sampleCipher None None None]
  from t k have 1: "xmlSecEncDataAddKeyInfo (XmlElement ''Foo'' [] [] []) =
     (Inr [0], XmlElement ''Foo'' [] [] [XmlElement ''KeyInfo'' xmlSecDSigNs [] []])"
    by simp
  from t f have 2: "xmlSecEncDataAddCipherValue (XmlElement ''Foo'' [] [] []) =
     (Inl [XMLSEC_ERRORS_R_NODE_NOT_FOUND], XmlElement ''Foo'' [] [] [])"
    by blast
  from 1 f 2 show ?thesis by blast
qed
section \<open>Claims about the driver and the operations\<close>

text \<open>
  Claim C3. For every encrypt operation on a template whose \<open>EncryptedData\<close> has no
  \<open>EncryptionMethod\<close> child, when the default method of the context is unset, the
  operation fails with the kind "invalid data" (\<open>XMLSEC_ERRORS_R_INVALID_DATA\<close>,
  reported first) and the node tree of the template is left unchanged. The kind is the
  first report whenever the Result and Session allocations and the duplication of a
  caller's key succeed; the operation fails and leaves the tree unchanged in any case.
\<close>

theorem encrypt_without_method_fails:
  assumes "ctx_encryptionMethod ctx = None"
    and "xmlSecFindChild encNode ''EncryptionMethod'' xmlSecEncNs = None"
  shows "rejectedUntouched env key encNode (xmlSecEncryptMemory env ctx key encNode buf result) \<and>
         (\<exists>outcome. xmlSecEncryptUri env ctx key encNode uri result = Some outcome \<and>
                    rejectedUntouched env key encNode outcome) \<and>
         rejectedUntouched env key encNode (xmlSecEncryptXmlNode env ctx key encNode src result)"
proof (intro conjI)
  show "rejectedUntouched env key encNode (xmlSecEncryptMemory env ctx key encNode buf result)"
    unfolding xmlSecEncryptMemory_def
    by (rule prologue_no_method[where W = "\<lambda>x. x", OF assms])
  show "rejectedUntouched env key encNode (xmlSecEncryptXmlNode env ctx key encNode src result)"
    unfolding xmlSecEncryptXmlNode_def
    by (rule prologue_no_method[where W = "\<lambda>x. x", OF assms])
  show "\<exists>outcome. xmlSecEncryptUri env ctx key encNode uri result = Some outcome \<and>
                    rejectedUntouched env key encNode outcome"
    unfolding xmlSecEncryptUri_def
    by (rule prologue_no_method[where W = Some, OF assms]) simp
qed

text \<open>
  Witness for C3: the template \<open>xmlSecEncDataCreate\<close> builds (a \<open>CipherData\<close> child
  only), a context without default method.
\<close>

theorem encrypt_without_method_fails_witness:
  "ctx_encryptionMethod sampleCtx = None \<and>
   xmlSecFindChild (XmlElement ''EncryptedData'' xmlSecEncNs [] [XmlElement ''CipherData'' xmlSecEncNs [] []])
     ''EncryptionMethod'' xmlSecEncNs = None \<and>
   fst (xmlSecEncryptMemory sampleEnv sampleCtx (Some sampleKey)
          (XmlElement ''EncryptedData'' xmlSecEncNs [] [XmlElement ''CipherData'' xmlSecEncNs [] []])
          ''hello'' True) = Failure \<and>
   h_reports (snd (xmlSecEncryptMemory sampleEnv sampleCtx (Some sampleKey)
          (XmlElement ''EncryptedData'' xmlSecEncNs [] [XmlElement ''CipherData'' xmlSecEncNs [] []])
          ''hello'' True)) =
     [XMLSEC_ERRORS_R_INVALID_DATA, XMLSEC_ERRORS_R_XMLSEC_FAILED, XMLSEC_ERRORS_R_XMLSEC_FAILED] \<and>
   h_encNode (snd (xmlSecEncryptMemory sampleEnv sampleCtx (Some sampleKey)
          (XmlElement ''EncryptedData'' xmlSecEncNs [] [XmlElement ''CipherData'' xmlSecEncNs [] []])
          ''hello'' True)) =
     XmlElement ''EncryptedData'' xmlSecEncNs [] [XmlElement ''CipherData'' xmlSecEncNs [] []]"
proof -
  let ?T = "XmlElement ''EncryptedData'' xmlSecEncNs [] [XmlElement ''CipherData'' xmlSecEncNs [] []]"
  have c: "ctx_encryptionMethod sampleCtx = None" by (simp add: sampleCtx_def)
  have f: "xmlSecFindChild ?T ''EncryptionMethod'' xmlSecEncNs = None"
    by (simp add: xmlSecFindChild_def)
  have e: "env_resultAlloc sampleEnv" "env_stateAlloc sampleEnv"
    "\<forall>k. Some sampleKey = Some k \<longrightarrow> env_keyDuplicate sampleEnv k \<noteq> None"
    by (simp_all add: sampleEnv_def)
  from encrypt_without_method_fails[OF c f, of sampleEnv "Some sampleKey" "''hello''" True]
  have "rejectedUntouched sampleEnv (Some sampleKey) ?T
          (xmlSecEncryptMemory sampleEnv sampleCtx (Some sampleKey) ?T ''hello'' True)"
    by blast
  with e c f show ?thesis unfolding rejectedUntouched_def by blast
qed



text \<open>
  Claim C9 says that no exit path releases a resource twice, in particular not when
  writing the ciphertext into the template fails. The code does: on a template whose
  \<open>CipherData\<close> holds an unexpected element, \<open>xmlSecEncStateWriteResult\<close> destroys
  the Result and the Session and returns -1, and \<open>xmlSecEncryptMemory\<close> destroys both
  again.
\<close>

theorem write_failure_double_destroy:
  "fst (xmlSecEncryptMemory sampleEnv sampleCtx (Some sampleKey)
          (sampleTemplate [] [XmlElement ''Foo'' [] [] []]) ''hello'' True) = Failure \<and>
   h_reports (snd (xmlSecEncryptMemory sampleEnv sampleCtx (Some sampleKey)
          (sampleTemplate [] [XmlElement ''Foo'' [] [] []]) ''hello'' True)) =
     [XMLSEC_ERRORS_R_INVALID_NODE, XMLSEC_ERRORS_R_XMLSEC_FAILED, XMLSEC_ERRORS_R_XMLSEC_FAILED] \<and>
   h_freed (snd (xmlSecEncryptMemory sampleEnv sampleCtx (Some sampleKey)
          (sampleTemplate [] [XmlElement ''Foo'' [] [] []]) ''hello'' True)) =
     [KeyObj, ResultBufferObj, EncResultObj, TransformObj 0, TransformObj 1, TransformObj 2,
      EncStateObj, EncStateObj, EncResultObj]"
  by code_simp

section \<open>Claims about the round trip\<close>

text \<open>
  Claim C1, counterexample. The template \<open>sampleReferenceTemplate\<close> is well formed: its
  \<open>CipherData\<close> holds a \<open>CipherReference\<close>. Encrypting \<open>hello\<close> under it succeeds and,
  the write leaving a \<open>CipherReference\<close> untouched, produces the template itself; the
  ciphertext is in the Result only. Decrypting that document succeeds and yields the
  octets of the referenced resource run through the cipher, not the plaintext. The
  sample cipher and codec are inverse to each other on the octets concerned.
\<close>

theorem reference_template_roundtrip_counterexample:
  "fst (xmlSecEncryptMemory sampleEnv sampleCtx (Some sampleKey) sampleReferenceTemplate ''hello'' True) = Success \<and>
   h_encNode (snd (xmlSecEncryptMemory sampleEnv sampleCtx (Some sampleKey) sampleReferenceTemplate ''hello'' True)) =
     sampleReferenceTemplate \<and>
   map_option res_buffer
     (h_out (snd (xmlSecEncryptMemory sampleEnv sampleCtx (Some sampleKey) sampleReferenceTemplate ''hello'' True))) =
     Some (Some ''=K=h=e=l=l=o'') \<and>
   fst (xmlSecDecrypt sampleEnv sampleCtx (Some sampleKey)
          (h_encNode (snd (xmlSecEncryptMemory sampleEnv sampleCtx (Some sampleKey)
                             sampleReferenceTemplate ''hello'' True)))
          True) = Success \<and>
   map_option res_buffer
     (h_out (snd (xmlSecDecrypt sampleEnv sampleCtx (Some sampleKey)
                    (h_encNode (snd (xmlSecEncryptMemory sampleEnv sampleCtx (Some sampleKey)
                                       sampleReferenceTemplate ''hello'' True)))
                    True))) = Some (Some ''remote'') \<and>
   ''remote'' \<noteq> ''hello'' \<and>
   env_execute sampleEnv sampleCipher True (Some (key_value sampleKey)) ''hello'' = Some ''Khello'' \<and>
   env_execute sampleEnv sampleCipher False (Some (key_value sampleKey)) ''Khello'' = Some ''hello'' \<and>
   env_execute sampleEnv xmlSecEncBase64Encode False None ''Khello'' = Some ''=K=h=e=l=l=o'' \<and>
   env_execute sampleEnv xmlSecEncBase64Decode False None ''=K=h=e=l=l=o'' = Some ''Khello''"
  by code_simp

text \<open>
  Claim C1, amended. Let the template be well formed with a \<open>CipherData\<close> that holds
  no element child or one \<open>CipherValue\<close> and nothing after it, let the caller supply
  the key, and let every allocation, the instantiation of the method (a binary
  transform), of the codec and of the sink, the duplication and installation of the key
  and the key-info writer (which leaves a \<open>KeyInfo\<close> node) succeed. If the cipher maps the
  plaintext to \<open>c\<close> and back, the encoder maps \<open>c\<close> to \<open>b\<close>, the decoder maps \<open>b\<close>
  bracketed by line feeds back to \<open>c\<close>, and (when \<open>Type\<close> is \<open>#Element\<close> or
  \<open>#Content\<close> and \<open>ignoreType\<close> is unset) the plaintext can be parsed for the splice,
  then \<open>xmlSecEncryptMemory\<close> succeeds, \<open>xmlSecDecrypt\<close> on the document it produced
  succeeds, and the buffer of its Result is the plaintext, whatever the \<open>Type\<close>.
\<close>

theorem encrypt_decrypt_roundtrip:
  assumes nav: "templateNav (children_of encNode) emIdx kiIdx i"
    and cdn: "cipherDataNav (children_of (children_of encNode ! i)) cvIdx"
    and m: "methodAt env ctx (children_of encNode) emIdx = Some tid"
    and tid: "id_type tid = xmlSecTransformTypeBinary" "tid \<noteq> xmlSecMemBuf"
    and env: "env_resultAlloc env" "env_stateAlloc env" "env_create env tid"
      "env_create env xmlSecEncBase64Encode" "env_create env xmlSecEncBase64Decode"
      "env_create env xmlSecMemBuf"
    and key: "env_keyDuplicate env k = Some d" "env_addKey env tid (key_value d)"
    and kiw: "\<forall>c1. kiIdx = Some c1 \<longrightarrow>
              env_keyInfoNodeWrite env (children_of encNode ! c1) (ctx_keysMngrCtx ctx)
                (d\<lparr>key_origin := key_origin k\<rparr>) (id_decKeyType tid) = Some written \<and>
              xmlSecCheckNodeName written ''KeyInfo'' xmlSecDSigNs"
    and enc: "env_execute env tid True (Some (key_value d)) plaintext = Some c"
      "env_execute env xmlSecEncBase64Encode False None c = Some b"
    and dec: "env_execute env xmlSecEncBase64Decode False None (CHR 0x0A # b @ [CHR 0x0A]) = Some c"
      "env_execute env tid False (Some (key_value d)) c = Some plaintext"
    and splice: "\<not> ctx_ignoreType ctx \<and>
        (xmlGetProp encNode ''Type'' = Some xmlSecEncTypeElement \<or>
         xmlGetProp encNode ''Type'' = Some xmlSecEncTypeContent) \<longrightarrow>
        env_parse env plaintext \<noteq> None"
  shows "fst (xmlSecEncryptMemory env ctx (Some k) encNode plaintext result) = Success \<and>
         fst (xmlSecDecrypt env ctx (Some k)
                (h_encNode (snd (xmlSecEncryptMemory env ctx (Some k) encNode plaintext result)))
                True) = Success \<and>
         map_option res_buffer
           (h_out (snd (xmlSecDecrypt env ctx (Some k)
                          (h_encNode (snd (xmlSecEncryptMemory env ctx (Some k) encNode plaintext result)))
                          True))) = Some (Some plaintext)"
proof -
  let ?cd = "children_of encNode ! i"
  let ?cd' = "cipherValueWritten ?cd cvIdx b"
  let ?T1 = "replace_child (keyInfoWritten encNode kiIdx written) i ?cd'"
  have kiw1: "\<forall>c1. kiIdx = Some c1 \<longrightarrow>
              env_keyInfoNodeWrite env (children_of encNode ! c1) (ctx_keysMngrCtx ctx)
                (d\<lparr>key_origin := key_origin k\<rparr>) (id_decKeyType tid) = Some written"
    and wk: "\<forall>c1. kiIdx = Some c1 \<longrightarrow> xmlSecCheckNodeName written ''KeyInfo'' xmlSecDSigNs"
    using kiw by auto
  from encryptMemory_wf[OF nav cdn m tid env(1-4) env(6) key kiw1 enc, of result]
  have e1: "fst (xmlSecEncryptMemory env ctx (Some k) encNode plaintext result) = Success"
    and e2: "h_encNode (snd (xmlSecEncryptMemory env ctx (Some k) encNode plaintext result)) = ?T1"
    by simp_all
  have cde: "is_element ?cd" by (rule nav_cd_element[OF nav])
  have cdq: "xmlSecCheckNodeName ?cd' ''CipherData'' xmlSecEncNs"
    using nav by (simp add: templateNav_def Let_def)
  note t = encrypted_template[OF nav wk cdq]
  from cipherValueWritten_nav[OF cde cdn, of b] obtain v where
    v: "xmlSecGetNextElementNode (children_of ?cd') 0 = Some v"
       "xmlSecCheckNodeName (children_of ?cd' ! v) ''CipherValue'' xmlSecEncNs"
       "xmlNodeGetContent (children_of ?cd' ! v) = Some (CHR 0x0A # b @ [CHR 0x0A])"
       "xmlSecGetNextElementNode (children_of ?cd') (Suc v) = None"
    by blast
  have d: "fst (xmlSecDecrypt env ctx (Some k) ?T1 True) = Success \<and>
         map_option res_buffer (h_out (snd (xmlSecDecrypt env ctx (Some k) ?T1 True))) =
           Some (Some plaintext)"
    by (rule decrypt_wf[where emIdx = emIdx and kiIdx = kiIdx and i = i and v = v and tid = tid
          and d = d and c = c and content = "CHR 0x0A # b @ [CHR 0x0A]"])
       (use t v m tid env key dec splice in \<open>simp_all add: t(3) t(4)\<close>)
  from e1 d show ?thesis unfolding e2 by simp
qed

text \<open>
  Witness for C1 (amended): \<open>sampleFullTemplate\<close>, with text before the method, a
  \<open>KeyInfo\<close>, an old \<open>CipherValue\<close> and \<open>Type\<close> \<open>#Element\<close>, the sample registry and
  the plaintext \<open>hello\<close>.
\<close>

theorem encrypt_decrypt_roundtrip_witness:
  "templateNav (children_of sampleFullTemplate) (Some 1) (Some 2) 3 \<and>
   cipherDataNav (children_of (children_of sampleFullTemplate ! 3)) (Some 0) \<and>
   methodAt sampleEnv sampleCtx (children_of sampleFullTemplate) (Some 1) = Some sampleCipher \<and>
   xmlGetProp sampleFullTemplate ''Type'' = Some xmlSecEncTypeElement \<and>
   \<not> ctx_ignoreType sampleCtx \<and>
   env_parse sampleEnv ''hello'' \<noteq> None \<and>
   env_execute sampleEnv sampleCipher True (Some (key_value sampleKey)) ''hello'' = Some ''Khello'' \<and>
   env_execute sampleEnv xmlSecEncBase64Encode False None ''Khello'' = Some ''=K=h=e=l=l=o'' \<and>
   env_execute sampleEnv xmlSecEncBase64Decode False None (CHR 0x0A # ''=K=h=e=l=l=o'' @ [CHR 0x0A]) =
     Some ''Khello'' \<and>
   env_execute sampleEnv sampleCipher False (Some (key_value sampleKey)) ''Khello'' = Some ''hello'' \<and>
   fst (xmlSecEncryptMemory sampleEnv sampleCtx (Some sampleKey) sampleFullTemplate ''hello'' True) = Success \<and>
   fst (xmlSecDecrypt sampleEnv sampleCtx (Some sampleKey)
          (h_encNode (snd (xmlSecEncryptMemory sampleEnv sampleCtx (Some sampleKey)
                             sampleFullTemplate ''hello'' True)))
          True) = Success \<and>
   map_option res_buffer
     (h_out (snd (xmlSecDecrypt sampleEnv sampleCtx (Some sampleKey)
                    (h_encNode (snd (xmlSecEncryptMemory sampleEnv sampleCtx (Some sampleKey)
                                       sampleFullTemplate ''hello'' True)))
                    True))) = Some (Some ''hello'')"
proof -
  have nav: "templateNav (children_of sampleFullTemplate) (Some 1) (Some 2) 3"
    by code_simp
  have cdn: "cipherDataNav (children_of (children_of sampleFullTemplate ! 3)) (Some 0)"
    by code_simp
  have m: "methodAt sampleEnv sampleCtx (children_of sampleFullTemplate) (Some 1) = Some sampleCipher"
    by code_simp
  have tid: "id_type sampleCipher = xmlSecTransformTypeBinary" "sampleCipher \<noteq> xmlSecMemBuf"
    by code_simp+
  have env: "env_resultAlloc sampleEnv" "env_stateAlloc sampleEnv" "env_create sampleEnv sampleCipher"
    "env_create sampleEnv xmlSecEncBase64Encode" "env_create sampleEnv xmlSecEncBase64Decode"
    "env_create sampleEnv xmlSecMemBuf"
    by (simp_all add: sampleEnv_def)
  have key: "env_keyDuplicate sampleEnv sampleKey = Some sampleKey"
    "env_addKey sampleEnv sampleCipher (key_value sampleKey)"
    by (simp_all add: sampleEnv_def)
  have kiw: "\<forall>c1. Some 2 = Some c1 \<longrightarrow>
              env_keyInfoNodeWrite sampleEnv (children_of sampleFullTemplate ! c1)
                (ctx_keysMngrCtx sampleCtx)
                (sampleKey\<lparr>key_origin := key_origin sampleKey\<rparr>) (id_decKeyType sampleCipher) =
                Some (XmlElement ''KeyInfo'' xmlSecDSigNs [] []) \<and>
              xmlSecCheckNodeName (XmlElement ''KeyInfo'' xmlSecDSigNs [] []) ''KeyInfo'' xmlSecDSigNs"
    by (simp add: sampleEnv_def sampleFullTemplate_def)
  have enc: "env_execute sampleEnv sampleCipher True (Some (key_value sampleKey)) ''hello'' = Some ''Khello''"
    "env_execute sampleEnv xmlSecEncBase64Encode False None ''Khello'' = Some ''=K=h=e=l=l=o''"
    by code_simp+
  have dec: "env_execute sampleEnv xmlSecEncBase64Decode False None (CHR 0x0A # ''=K=h=e=l=l=o'' @ [CHR 0x0A]) =
     Some ''Khello''"
    "env_execute sampleEnv sampleCipher False (Some (key_value sampleKey)) ''Khello'' = Some ''hello''"
    by code_simp+
  have ty: "xmlGetProp sampleFullTemplate ''Type'' = Some xmlSecEncTypeElement"
    "\<not> ctx_ignoreType sampleCtx" "env_parse sampleEnv ''hello'' \<noteq> None"
    by (simp_all add: sampleFullTemplate_def sampleCtx_def sampleEnv_def)
  from ty have splice: "\<not> ctx_ignoreType sampleCtx \<and>
        (xmlGetProp sampleFullTemplate ''Type'' = Some xmlSecEncTypeElement \<or>
         xmlGetProp sampleFullTemplate ''Type'' = Some xmlSecEncTypeContent) \<longrightarrow>
        env_parse sampleEnv ''hello'' \<noteq> None"
    by simp
  note rt = encrypt_decrypt_roundtrip[OF nav cdn m tid env key kiw enc dec splice, of True]
  from nav cdn m ty enc dec rt show ?thesis by blast
qed

section \<open>Claims about the \<open>Type\<close> attribute\<close>

text \<open>
  Claim C2, counterexample. \<open>xmlSecEncryptXmlNode\<close> on a template whose \<open>Type\<close> is
  \<open>urn:example:other\<close>, with \<open>ignoreType\<close> unset and everything else in order, does not
  succeed: after the Session was built it reports \<open>XMLSEC_ERRORS_R_INVALID_TYPE\<close>,
  returns -1 and hands out no Result.
\<close>

theorem encrypt_node_other_type_counterexample:
  "xmlGetProp (sampleTemplate [(''Type'', ''urn:example:other'')] []) ''Type'' = Some ''urn:example:other'' \<and>
   ''urn:example:other'' \<noteq> xmlSecEncTypeElement \<and>
   ''urn:example:other'' \<noteq> xmlSecEncTypeContent \<and>
   fst (xmlSecEncryptXmlNode sampleEnv sampleCtx (Some sampleKey)
          (sampleTemplate [(''Type'', ''urn:example:other'')] []) sampleData True) = Failure \<and>
   h_reports (snd (xmlSecEncryptXmlNode sampleEnv sampleCtx (Some sampleKey)
          (sampleTemplate [(''Type'', ''urn:example:other'')] []) sampleData True)) =
     [XMLSEC_ERRORS_R_INVALID_TYPE] \<and>
   h_out (snd (xmlSecEncryptXmlNode sampleEnv sampleCtx (Some sampleKey)
          (sampleTemplate [(''Type'', ''urn:example:other'')] []) sampleData True)) = None \<and>
   h_encNode (snd (xmlSecEncryptXmlNode sampleEnv sampleCtx (Some sampleKey)
          (sampleTemplate [(''Type'', ''urn:example:other'')] []) sampleData True)) =
     sampleTemplate [(''Type'', ''urn:example:other'')] []"
  by code_simp

text \<open>
  Claim C2, amended. Let the \<open>Type\<close> of the \<open>EncryptedData\<close> be set to a value other
  than \<open>#Element\<close> and \<open>#Content\<close>.

  \<^item> \<open>xmlSecDecrypt\<close> never splices; when it succeeds the Result it hands out carries
    the \<open>Type\<close> verbatim and is not marked replaced; and the value never makes it
    fail: its outcome is the one of the run with \<open>ignoreType\<close> set, the flag apart.
  \<^item> \<open>xmlSecEncryptXmlNode\<close> never splices. With \<open>ignoreType\<close> unset it does not
    succeed and hands out no Result, and when the Result and the Session were created
    and the buffer allocated it returns -1 with \<open>XMLSEC_ERRORS_R_INVALID_TYPE\<close> as its
    last report. With \<open>ignoreType\<close> set, when it succeeds the Result it hands out
    carries the \<open>Type\<close> verbatim and is not marked replaced.
\<close>

theorem unrecognised_type_outcome:
  assumes ty: "xmlGetProp encNode ''Type'' = Some t"
    and ne: "t \<noteq> xmlSecEncTypeElement" "t \<noteq> xmlSecEncTypeContent"
  shows "h_spliced (snd (xmlSecDecrypt env ctx key encNode result)) = None \<and>
         (fst (xmlSecDecrypt env ctx key encNode True) = Success \<longrightarrow>
            (\<exists>r. h_out (snd (xmlSecDecrypt env ctx key encNode True)) = Some r \<and>
                 res_type r = Some t \<and> \<not> res_replaced r)) \<and>
         xmlSecDecrypt env (ctx\<lparr>ctx_ignoreType := True\<rparr>) key encNode result =
           apsnd ignoringType (xmlSecDecrypt env ctx key encNode result) \<and>
         h_spliced (snd (xmlSecEncryptXmlNode env ctx key encNode src result)) = None \<and>
         (\<not> ctx_ignoreType ctx \<longrightarrow>
            fst (xmlSecEncryptXmlNode env ctx key encNode src result) \<noteq> Success \<and>
            h_out (snd (xmlSecEncryptXmlNode env ctx key encNode src result)) = None \<and>
            (sessionCreated env ctx key encNode True \<and> env_bufferAlloc env \<longrightarrow>
               fst (xmlSecEncryptXmlNode env ctx key encNode src result) = Failure \<and>
               h_reports (snd (xmlSecEncryptXmlNode env ctx key encNode src result)) \<noteq> [] \<and>
               last (h_reports (snd (xmlSecEncryptXmlNode env ctx key encNode src result))) =
                 XMLSEC_ERRORS_R_INVALID_TYPE)) \<and>
         (ctx_ignoreType ctx \<and> fst (xmlSecEncryptXmlNode env ctx key encNode src True) = Success \<longrightarrow>
            (\<exists>r. h_out (snd (xmlSecEncryptXmlNode env ctx key encNode src True)) = Some r \<and>
                 res_type r = Some t \<and> \<not> res_replaced r))"
proof -
  define rc where "rc = xmlSecEncResultCreate env False (initHeap ctx encNode)"
  define sk where "sk = xmlSecEncResultSetKey env key (snd rc)"
  define sc where "sc = xmlSecEncStateCreate env False (xmlSecAddIDs (snd sk))"
  define rd where "rd = xmlSecCipherDataNodeRead env
                (children_of (h_encNode (snd sc)) ! the (st_cipherDataNode (h_state (snd sc)))) (snd sc)"
  note ch = decrypt_chain[OF rc_def sk_def sc_def rd_def]
  note pt = prologue_type[OF rc_def sk_def sc_def]
  have rdf: "framed (snd sc) (snd rd)" unfolding rd_def by (rule cipherDataRead_framed)
  have rd: "h_spliced (snd rd) = None" "h_out (snd rd) = None" "\<not> res_replaced (h_res (snd rd))"
    using framedD[OF rdf] pt by simp_all
  have rdt: "fst sc = Success \<Longrightarrow> res_type (h_res (snd rd)) = Some t"
    using framedD[OF rdf] pt ty by simp
  have rep: "fst sc = Success \<Longrightarrow> xmlSecDecrypt_replace env (snd rd) b r = cleanup r (snd rd)" for b r
    by (rule decrypt_replace_unknown[OF rdt ne])
  have D1: "h_spliced (snd (xmlSecDecrypt env ctx key encNode result)) = None"
    unfolding ch using pt rd by (simp add: rep exits_frame)
  have D2: "fst (xmlSecDecrypt env ctx key encNode True) = Success \<longrightarrow>
            (\<exists>r. h_out (snd (xmlSecDecrypt env ctx key encNode True)) = Some r \<and>
                 res_type r = Some t \<and> \<not> res_replaced r)"
    unfolding ch using rd rdt by (simp add: rep exits_frame cleanup_out)
  have D3: "xmlSecDecrypt env (ctx\<lparr>ctx_ignoreType := True\<rparr>) key encNode result =
           apsnd ignoringType (xmlSecDecrypt env ctx key encNode result)"
  proof -
    have a: "apsnd ignoringType rc =
               xmlSecEncResultCreate env False (initHeap (ctx\<lparr>ctx_ignoreType := True\<rparr>) encNode)"
      by (simp add: rc_def initHeap_ignoring)
    have b: "apsnd ignoringType sk = xmlSecEncResultSetKey env key (snd (apsnd ignoringType rc))"
      by (simp add: sk_def)
    have c: "apsnd ignoringType sc =
               xmlSecEncStateCreate env False (xmlSecAddIDs (snd (apsnd ignoringType sk)))"
      by (simp add: sc_def)
    have d: "apsnd ignoringType rd =
               xmlSecCipherDataNodeRead env
                 (children_of (h_encNode (snd (apsnd ignoringType sc))) !
                  the (st_cipherDataNode (h_state (snd (apsnd ignoringType sc)))))
                 (snd (apsnd ignoringType sc))"
      by (simp add: rd_def)
    show ?thesis
      unfolding decrypt_chain[OF a b c d] ch
      by (simp add: rep decrypt_replace_ignoring)
  qed
  define rc' where "rc' = xmlSecEncResultCreate env True (initHeap ctx encNode)"
  define sk' where "sk' = xmlSecEncResultSetKey env key (snd rc')"
  define sc' where "sc' = xmlSecEncStateCreate env True (xmlSecAddIDs (snd sk'))"
  define dump where "dump = xmlSecEncryptXmlNode_dump env (snd sc') src"
  define wr where "wr = xmlSecBinTransformWrite (st_first (h_state (snd sc'))) (the dump)"
  define fl where "fl = xmlSecBinTransformFlush env (the wr)"
  define res where "res = xmlSecEncStateWriteResult (withChain (the fl) (release XmlBufferObj (snd sc')))"
  note ch' = encryptXmlNode_chain[OF rc'_def sk'_def sc'_def dump_def wr_def fl_def res_def]
  note pt' = prologue_type[OF rc'_def sk'_def sc'_def]
  note sess = sessionCreated_chain[OF rc'_def sk'_def sc'_def]
  have res: "h_spliced (snd res) = None" "h_out (snd res) = None"
    unfolding res_def using pt' by (simp_all add: writeResult_framed withChain_def release_def)
  have rest: "fst sc' = Success \<Longrightarrow> fst res = Success \<Longrightarrow>
                res_type (h_res (snd res)) = Some t \<and> \<not> res_replaced (h_res (snd res))"
    unfolding res_def using pt' ty by (simp add: writeResult_framed withChain_def release_def)
  have rep': "fst sc' = Success \<Longrightarrow> fst res = Success \<Longrightarrow>
                xmlSecEncryptXmlNode_replace (snd res) src r = cleanup r (snd res)" for r
    using rest ne by (simp add: encryptXmlNode_replace_unknown)
  have E1: "h_spliced (snd (xmlSecEncryptXmlNode env ctx key encNode src result)) = None"
    unfolding ch' using pt' res by (simp add: rep' exits_frame withChain_def)
  have dumpN: "\<not> ctx_ignoreType ctx \<Longrightarrow> fst sc' = Success \<Longrightarrow> dump = None"
    unfolding dump_def xmlSecEncryptXmlNode_dump_def using pt' ty ne by simp
  have E2: "\<not> ctx_ignoreType ctx \<longrightarrow>
            fst (xmlSecEncryptXmlNode env ctx key encNode src result) \<noteq> Success \<and>
            h_out (snd (xmlSecEncryptXmlNode env ctx key encNode src result)) = None \<and>
            (sessionCreated env ctx key encNode True \<and> env_bufferAlloc env \<longrightarrow>
               fst (xmlSecEncryptXmlNode env ctx key encNode src result) = Failure \<and>
               h_reports (snd (xmlSecEncryptXmlNode env ctx key encNode src result)) \<noteq> [] \<and>
               last (h_reports (snd (xmlSecEncryptXmlNode env ctx key encNode src result))) =
                 XMLSEC_ERRORS_R_INVALID_TYPE)"
    unfolding ch' sess using pt' dumpN by (simp add: exits_frame withChain_def)
  have E3: "ctx_ignoreType ctx \<and> fst (xmlSecEncryptXmlNode env ctx key encNode src True) = Success \<longrightarrow>
            (\<exists>r. h_out (snd (xmlSecEncryptXmlNode env ctx key encNode src True)) = Some r \<and>
                 res_type r = Some t \<and> \<not> res_replaced r)"
    unfolding ch' using rest by (simp add: rep' exits_frame cleanup_out)
  from D1 D2 D3 E1 E2 E3 show ?thesis by blast
qed

text \<open>
  Witness for C2 (amended): the document \<open>sampleOtherTypeDocument\<close>, decrypted and
  used as a template for \<open>sampleData\<close>.
\<close>

theorem unrecognised_type_outcome_witness:
  "xmlGetProp sampleOtherTypeDocument ''Type'' = Some ''urn:example:other'' \<and>
   ''urn:example:other'' \<noteq> xmlSecEncTypeElement \<and>
   ''urn:example:other'' \<noteq> xmlSecEncTypeContent \<and>
   fst (xmlSecDecrypt sampleEnv sampleCtx (Some sampleKey) sampleOtherTypeDocument True) = Success \<and>
   h_spliced (snd (xmlSecDecrypt sampleEnv sampleCtx (Some sampleKey) sampleOtherTypeDocument True)) = None \<and>
   map_option res_type
     (h_out (snd (xmlSecDecrypt sampleEnv sampleCtx (Some sampleKey) sampleOtherTypeDocument True))) =
     Some (Some ''urn:example:other'') \<and>
   map_option res_replaced
     (h_out (snd (xmlSecDecrypt sampleEnv sampleCtx (Some sampleKey) sampleOtherTypeDocument True))) =
     Some False \<and>
   \<not> ctx_ignoreType sampleCtx \<and>
   sessionCreated sampleEnv sampleCtx (Some sampleKey) sampleOtherTypeDocument True \<and>
   env_bufferAlloc sampleEnv \<and>
   fst (xmlSecEncryptXmlNode sampleEnv sampleCtx (Some sampleKey) sampleOtherTypeDocument sampleData True) =
     Failure \<and>
   last (h_reports (snd (xmlSecEncryptXmlNode sampleEnv sampleCtx (Some sampleKey)
                           sampleOtherTypeDocument sampleData True))) =
     XMLSEC_ERRORS_R_INVALID_TYPE \<and>
   h_spliced (snd (xmlSecEncryptXmlNode sampleEnv sampleCtx (Some sampleKey)
                     sampleOtherTypeDocument sampleData True)) = None"
proof -
  have ty: "xmlGetProp sampleOtherTypeDocument ''Type'' = Some ''urn:example:other''"
    by code_simp
  have ne: "''urn:example:other'' \<noteq> xmlSecEncTypeElement" "''urn:example:other'' \<noteq> xmlSecEncTypeContent"
    by code_simp+
  have ok: "fst (xmlSecDecrypt sampleEnv sampleCtx (Some sampleKey) sampleOtherTypeDocument True) = Success"
    by code_simp
  have ig: "\<not> ctx_ignoreType sampleCtx" "env_bufferAlloc sampleEnv"
    by (simp_all add: sampleCtx_def sampleEnv_def)
  have se: "sessionCreated sampleEnv sampleCtx (Some sampleKey) sampleOtherTypeDocument True"
    by code_simp
  note t = unrecognised_type_outcome[OF ty ne, of sampleEnv sampleCtx "Some sampleKey" True sampleData]
  from t ok obtain r where
    r: "h_out (snd (xmlSecDecrypt sampleEnv sampleCtx (Some sampleKey) sampleOtherTypeDocument True)) = Some r"
       "res_type r = Some ''urn:example:other''" "\<not> res_replaced r"
    by blast
  from r have 1: "map_option res_type
     (h_out (snd (xmlSecDecrypt sampleEnv sampleCtx (Some sampleKey) sampleOtherTypeDocument True))) =
     Some (Some ''urn:example:other'')"
    "map_option res_replaced
     (h_out (snd (xmlSecDecrypt sampleEnv sampleCtx (Some sampleKey) sampleOtherTypeDocument True))) =
     Some False"
    by simp_all
  from t ig se have 2:
    "fst (xmlSecEncryptXmlNode sampleEnv sampleCtx (Some sampleKey) sampleOtherTypeDocument sampleData True) =
       Failure"
    "last (h_reports (snd (xmlSecEncryptXmlNode sampleEnv sampleCtx (Some sampleKey)
                           sampleOtherTypeDocument sampleData True))) =
       XMLSEC_ERRORS_R_INVALID_TYPE"
    by blast+
  from t have 3:
    "h_spliced (snd (xmlSecDecrypt sampleEnv sampleCtx (Some sampleKey) sampleOtherTypeDocument True)) = None"
    "h_spliced (snd (xmlSecEncryptXmlNode sampleEnv sampleCtx (Some sampleKey)
                     sampleOtherTypeDocument sampleData True)) = None"
    by blast+
  from ty ne ok ig se 1 2 3 show ?thesis by blast
qed
section \<open>Claims about the write and the key manager, in the operations\<close>



text \<open>
  Claim C4, counterexample. The caller supplies no key and the key manager callback
  exists, but the template has no \<open>EncryptionMethod\<close> and the context no default
  method: the driver fails before the key resolution. The hints are not set, and the
  operation fails with "invalid data", not "key not found", although the callback
  returns no key.
\<close>

theorem no_method_before_key_resolution_counterexample:
  "ctx_getKey sampleNoKeyCtx = Some sampleNoKey \<and>
   sampleNoKey None (ctx_keysMngrCtx sampleNoKeyCtx) = None \<and>
   fst (xmlSecEncryptMemory sampleEnv sampleNoKeyCtx None sampleBareTemplate ''hello'' True) = Failure \<and>
   h_reports (snd (xmlSecEncryptMemory sampleEnv sampleNoKeyCtx None sampleBareTemplate ''hello'' True)) =
     [XMLSEC_ERRORS_R_INVALID_DATA, XMLSEC_ERRORS_R_XMLSEC_FAILED, XMLSEC_ERRORS_R_XMLSEC_FAILED] \<and>
   ctx_keysMngrCtx
     (h_ctx (snd (xmlSecEncryptMemory sampleEnv sampleNoKeyCtx None sampleBareTemplate ''hello'' True))) =
     ctx_keysMngrCtx sampleNoKeyCtx \<and>
   keyUsage (ctx_keysMngrCtx sampleNoKeyCtx) = xmlSecKeyUsageAny"
  by (simp add: sampleNoKeyCtx_def sampleNoKey_def sampleCtx_def, code_simp)

text \<open>
  Claim C4, amended. Let the caller supply no key, let the key manager callback exist,
  and let the driver reach the key resolution: the Result and the Session are
  allocated, and the method (named by the \<open>EncryptionMethod\<close> node through the registry,
  or the default of the context) is instantiated and is a binary transform. Then every
  operation (\<open>xmlSecEncryptMemory\<close>, \<open>xmlSecEncryptXmlNode\<close>, \<open>xmlSecEncryptUri\<close>,
  \<open>xmlSecDecrypt\<close>) leaves on the key manager context \<open>keyType\<close> set to the key type
  the method needs for the direction, \<open>keyUsage\<close> to encrypt or decrypt and \<open>keyId\<close> to
  the key id the method needs; the callback is applied to the \<open>KeyInfo\<close> node after the
  method (or NULL) and that context; when it returns no key the operation returns -1
  with \<open>XMLSEC_ERRORS_R_KEY_NOT_FOUND\<close> as the first report (and \<open>xmlSecEncryptUri\<close>
  does return), the template untouched; when it returns a key and the operation
  succeeds, the Result handed out holds that key.
\<close>

theorem key_manager_invocation:
  assumes cb: "ctx_getKey ctx = Some getKey"
    and al: "env_resultAlloc env" "env_stateAlloc env"
    and m: "methodOf env ctx encNode = Some tid"
    and cr: "env_create env tid" "id_type tid = xmlSecTransformTypeBinary"
  shows "keyResolved getKey ctx encNode True tid result
           (xmlSecEncryptMemory env ctx None encNode buf result) \<and>
         keyResolved getKey ctx encNode True tid result
           (xmlSecEncryptXmlNode env ctx None encNode src result) \<and>
         (\<forall>outcome. xmlSecEncryptUri env ctx None encNode uri result = Some outcome \<longrightarrow>
                    keyResolved getKey ctx encNode True tid result outcome) \<and>
         (getKey (keyInfoAt encNode (afterMethod encNode)) (keyHints ctx True tid) = None \<longrightarrow>
            xmlSecEncryptUri env ctx None encNode uri result \<noteq> None) \<and>
         keyResolved getKey ctx encNode False tid result
           (xmlSecDecrypt env ctx None encNode result)"
proof (intro conjI)
  show "keyResolved getKey ctx encNode True tid result
           (xmlSecEncryptMemory env ctx None encNode buf result)"
    unfolding xmlSecEncryptMemory_def
    by (rule prologue_callback[where W = "\<lambda>x. x", OF cb al m cr])
       (assumption, rule exit_keyResolved[OF encryptMemory_exit])
  show "keyResolved getKey ctx encNode True tid result
           (xmlSecEncryptXmlNode env ctx None encNode src result)"
    unfolding xmlSecEncryptXmlNode_def
    by (rule prologue_callback[where W = "\<lambda>x. x", OF cb al m cr])
       (assumption, rule exit_keyResolved[OF encryptXmlNode_exit])
  have U: "(\<forall>outcome. xmlSecEncryptUri env ctx None encNode uri result = Some outcome \<longrightarrow>
                    keyResolved getKey ctx encNode True tid result outcome) \<and>
         (getKey (keyInfoAt encNode (afterMethod encNode)) (keyHints ctx True tid) = None \<longrightarrow>
            xmlSecEncryptUri env ctx None encNode uri result \<noteq> None)"
    unfolding xmlSecEncryptUri_def
  proof (rule prologue_callback[where W = Some
        and Q = "\<lambda>x. (\<forall>outcome. x = Some outcome \<longrightarrow>
                          keyResolved getKey ctx encNode True tid result outcome) \<and>
                     (getKey (keyInfoAt encNode (afterMethod encNode)) (keyHints ctx True tid) = None \<longrightarrow>
                        x \<noteq> None)", OF cb al m cr])
    show "(\<forall>outcome'. Some outcome = Some outcome' \<longrightarrow>
              keyResolved getKey ctx encNode True tid result outcome') \<and>
          (getKey (keyInfoAt encNode (afterMethod encNode)) (keyHints ctx True tid) = None \<longrightarrow>
             Some outcome \<noteq> None)"
      if "keyResolved getKey ctx encNode True tid result outcome" for outcome
      using that by simp
  next
    fix h2 :: xmlSecHeap and k
    assume h: "ctx_keysMngrCtx (h_ctx h2) = keyHints ctx True tid"
      "getKey (keyInfoAt encNode (afterMethod encNode)) (keyHints ctx True tid) = Some k"
      "res_key (h_res h2) = Some k"
    show "(\<forall>outcome.
            (case xmlSecTransformCreate env xmlSecInputUri h2 of
              (None, h3) \<Rightarrow> Some (failBoth h3)
            | (Some inputUri, h3) \<Rightarrow>
                (case xmlSecInputUriTransformOpen env inputUri uri of
                   None \<Rightarrow> Some (failBoth (xmlSecTransformDestroy inputUri h3))
                 | Some opened \<Rightarrow>
                     (case xmlSecEncStateAddFirstTransform opened h3 of
                        (r4, h4) \<Rightarrow>
                          if r4 \<noteq> Success
                          then Some (failBoth (xmlSecTransformDestroy opened h4))
                          else (case xmlSecEncryptUri_read env (st_first (h_state h4)) of
                                  None \<Rightarrow> None
                                | Some (ret, chain) \<Rightarrow>
                                    if ret < 0 then Some (failBoth (withChain chain h4))
                                    else (case xmlSecEncStateWriteResult (withChain chain h4) of
                                            (r5, h5) \<Rightarrow>
                                              if r5 \<noteq> Success
                                              then Some (failBothStateFirst h5)
                                              else Some (cleanup result h5)))))) = Some outcome \<longrightarrow>
            keyResolved getKey ctx encNode True tid result outcome) \<and>
          (getKey (keyInfoAt encNode (afterMethod encNode)) (keyHints ctx True tid) = None \<longrightarrow>
            (case xmlSecTransformCreate env xmlSecInputUri h2 of
              (None, h3) \<Rightarrow> Some (failBoth h3)
            | (Some inputUri, h3) \<Rightarrow>
                (case xmlSecInputUriTransformOpen env inputUri uri of
                   None \<Rightarrow> Some (failBoth (xmlSecTransformDestroy inputUri h3))
                 | Some opened \<Rightarrow>
                     (case xmlSecEncStateAddFirstTransform opened h3 of
                        (r4, h4) \<Rightarrow>
                          if r4 \<noteq> Success
                          then Some (failBoth (xmlSecTransformDestroy opened h4))
                          else (case xmlSecEncryptUri_read env (st_first (h_state h4)) of
                                  None \<Rightarrow> None
                                | Some (ret, chain) \<Rightarrow>
                                    if ret < 0 then Some (failBoth (withChain chain h4))
                                    else (case xmlSecEncStateWriteResult (withChain chain h4) of
                                            (r5, h5) \<Rightarrow>
                                              if r5 \<noteq> Success
                                              then Some (failBothStateFirst h5)
                                              else Some (cleanup result h5)))))) \<noteq> None)"
      (is "(\<forall>outcome. ?X = Some outcome \<longrightarrow> _) \<and> _")
    proof (intro conjI allI impI)
      fix outcome
      assume "?X = Some outcome"
      then have "sessionExit result src h2 outcome" by (rule encryptUri_exit)
      then show "keyResolved getKey ctx encNode True tid result outcome"
        by (rule exit_keyResolved) (rule h)+
    next
      assume "getKey (keyInfoAt encNode (afterMethod encNode)) (keyHints ctx True tid) = None"
      with h(2) show "?X \<noteq> None" by simp
    qed
  qed
  from U show "\<forall>outcome. xmlSecEncryptUri env ctx None encNode uri result = Some outcome \<longrightarrow>
                    keyResolved getKey ctx encNode True tid result outcome"
    by blast
  from U show "getKey (keyInfoAt encNode (afterMethod encNode)) (keyHints ctx True tid) = None \<longrightarrow>
            xmlSecEncryptUri env ctx None encNode uri result \<noteq> None"
    by blast
  show "keyResolved getKey ctx encNode False tid result (xmlSecDecrypt env ctx None encNode result)"
    unfolding xmlSecDecrypt_def
  proof (rule prologue_callback[where W = "\<lambda>x. x", OF cb al m cr])
    fix h2 :: xmlSecHeap and k
    assume h: "ctx_keysMngrCtx (h_ctx h2) = keyHints ctx False tid"
      "getKey (keyInfoAt encNode (afterMethod encNode)) (keyHints ctx False tid) = Some k"
      "res_key (h_res h2) = Some k"
    from decrypt_exit_key[of h2 env result] h
    show "keyResolved getKey ctx encNode False tid result
            (case st_cipherDataNode (h_state h2) of
                  None \<Rightarrow>
                    (Failure,
                     xmlSecEncStateDestroy
                       (xmlSecEncResultDestroy (xmlSecError XMLSEC_ERRORS_R_NODE_NOT_FOUND h2)))
                | Some i \<Rightarrow>
                    (case xmlSecCipherDataNodeRead env (children_of (h_encNode h2) ! i) h2 of
                       (r3, h3) \<Rightarrow>
                         (case (if r3 \<noteq> Success then None else res_buffer (h_res h3)) of
                            None \<Rightarrow> failBoth h3
                          | Some buffer \<Rightarrow> xmlSecDecrypt_replace env h3 buffer result)))"
      unfolding keyResolved_def by auto
  qed assumption
qed

text \<open>
  Witness for C4 (amended): on \<open>sampleFullTemplate\<close>, \<open>xmlSecEncryptMemory\<close> with a
  callback that finds the key only when it is given the \<open>KeyInfo\<close> node and the hints
  for encryption, and \<open>xmlSecDecrypt\<close> with a callback that finds no key.
\<close>

theorem key_manager_invocation_witness:
  "ctx_getKey sampleGetKeyCtx = Some sampleGetKey \<and>
   ctx_getKey sampleNoKeyCtx = Some sampleNoKey \<and>
   env_resultAlloc sampleEnv \<and> env_stateAlloc sampleEnv \<and>
   methodOf sampleEnv sampleGetKeyCtx sampleFullTemplate = Some sampleCipher \<and>
   methodOf sampleEnv sampleNoKeyCtx sampleFullTemplate = Some sampleCipher \<and>
   env_create sampleEnv sampleCipher \<and> id_type sampleCipher = xmlSecTransformTypeBinary \<and>
   keyInfoAt sampleFullTemplate (afterMethod sampleFullTemplate) =
     Some (XmlElement ''KeyInfo'' xmlSecDSigNs [] []) \<and>
   keyHints sampleGetKeyCtx True sampleCipher =
     \<lparr>keyType = 0, keyUsage = xmlSecKeyUsageEncrypt, keyId = ''aes''\<rparr> \<and>
   fst (xmlSecEncryptMemory sampleEnv sampleGetKeyCtx None sampleFullTemplate ''hello'' True) = Success \<and>
   ctx_keysMngrCtx
     (h_ctx (snd (xmlSecEncryptMemory sampleEnv sampleGetKeyCtx None sampleFullTemplate ''hello'' True))) =
     \<lparr>keyType = 0, keyUsage = xmlSecKeyUsageEncrypt, keyId = ''aes''\<rparr> \<and>
   map_option res_key
     (h_out (snd (xmlSecEncryptMemory sampleEnv sampleGetKeyCtx None sampleFullTemplate ''hello'' True))) =
     Some (Some sampleKey) \<and>
   fst (xmlSecDecrypt sampleEnv sampleNoKeyCtx None sampleFullTemplate True) = Failure \<and>
   h_reports (snd (xmlSecDecrypt sampleEnv sampleNoKeyCtx None sampleFullTemplate True)) =
     [XMLSEC_ERRORS_R_KEY_NOT_FOUND, XMLSEC_ERRORS_R_XMLSEC_FAILED, XMLSEC_ERRORS_R_XMLSEC_FAILED] \<and>
   ctx_keysMngrCtx (h_ctx (snd (xmlSecDecrypt sampleEnv sampleNoKeyCtx None sampleFullTemplate True))) =
     \<lparr>keyType = 0, keyUsage = xmlSecKeyUsageDecrypt, keyId = ''aes''\<rparr>"
proof -
  have cb: "ctx_getKey sampleGetKeyCtx = Some sampleGetKey" "ctx_getKey sampleNoKeyCtx = Some sampleNoKey"
    by (simp_all add: sampleGetKeyCtx_def sampleNoKeyCtx_def)
  have al: "env_resultAlloc sampleEnv" "env_stateAlloc sampleEnv"
    by (simp_all add: sampleEnv_def)
  have m: "methodOf sampleEnv sampleGetKeyCtx sampleFullTemplate = Some sampleCipher"
    "methodOf sampleEnv sampleNoKeyCtx sampleFullTemplate = Some sampleCipher"
    by code_simp+
  have cr: "env_create sampleEnv sampleCipher" "id_type sampleCipher = xmlSecTransformTypeBinary"
    by (simp_all add: sampleEnv_def sampleCipher_def)
  have ki: "keyInfoAt sampleFullTemplate (afterMethod sampleFullTemplate) =
     Some (XmlElement ''KeyInfo'' xmlSecDSigNs [] [])"
    by code_simp
  have hi: "keyHints sampleGetKeyCtx True sampleCipher =
     \<lparr>keyType = 0, keyUsage = xmlSecKeyUsageEncrypt, keyId = ''aes''\<rparr>"
    "keyHints sampleNoKeyCtx False sampleCipher =
     \<lparr>keyType = 0, keyUsage = xmlSecKeyUsageDecrypt, keyId = ''aes''\<rparr>"
    by (simp_all add: keyHints_def sampleGetKeyCtx_def sampleNoKeyCtx_def sampleCtx_def sampleCipher_def)
  have ok: "fst (xmlSecEncryptMemory sampleEnv sampleGetKeyCtx None sampleFullTemplate ''hello'' True) = Success"
    by code_simp
  have fk: "sampleGetKey (keyInfoAt sampleFullTemplate (afterMethod sampleFullTemplate))
              (keyHints sampleGetKeyCtx True sampleCipher) = Some sampleKey"
    unfolding ki hi by (simp add: sampleGetKey_def)
  have fn: "sampleNoKey (keyInfoAt sampleFullTemplate (afterMethod sampleFullTemplate))
              (keyHints sampleNoKeyCtx False sampleCipher) = None"
    by (simp add: sampleNoKey_def)
  from key_manager_invocation[OF cb(1) al m(1) cr, of True "''hello''" sampleData "''x''"]
  have "keyResolved sampleGetKey sampleGetKeyCtx sampleFullTemplate True sampleCipher True
          (xmlSecEncryptMemory sampleEnv sampleGetKeyCtx None sampleFullTemplate ''hello'' True)"
    by blast
  with fk ok hi(1) have 1:
    "ctx_keysMngrCtx
       (h_ctx (snd (xmlSecEncryptMemory sampleEnv sampleGetKeyCtx None sampleFullTemplate ''hello'' True))) =
       \<lparr>keyType = 0, keyUsage = xmlSecKeyUsageEncrypt, keyId = ''aes''\<rparr>"
    "map_option res_key
       (h_out (snd (xmlSecEncryptMemory sampleEnv sampleGetKeyCtx None sampleFullTemplate ''hello'' True))) =
       Some (Some sampleKey)"
    unfolding keyResolved_def by simp_all
  from key_manager_invocation[OF cb(2) al m(2) cr, of True "''hello''" sampleData "''x''"]
  have "keyResolved sampleNoKey sampleNoKeyCtx sampleFullTemplate False sampleCipher True
          (xmlSecDecrypt sampleEnv sampleNoKeyCtx None sampleFullTemplate True)"
    by blast
  with fn hi(2) have 2:
    "fst (xmlSecDecrypt sampleEnv sampleNoKeyCtx None sampleFullTemplate True) = Failure"
    "h_reports (snd (xmlSecDecrypt sampleEnv sampleNoKeyCtx None sampleFullTemplate True)) =
       [XMLSEC_ERRORS_R_KEY_NOT_FOUND, XMLSEC_ERRORS_R_XMLSEC_FAILED, XMLSEC_ERRORS_R_XMLSEC_FAILED]"
    "ctx_keysMngrCtx (h_ctx (snd (xmlSecDecrypt sampleEnv sampleNoKeyCtx None sampleFullTemplate True))) =
       \<lparr>keyType = 0, keyUsage = xmlSecKeyUsageDecrypt, keyId = ''aes''\<rparr>"
    unfolding keyResolved_def by simp_all
  from cb al m cr ki hi(1) ok 1 2 show ?thesis by blast
qed

end
